(* ===== verification/Prelude.thy ===== *)
theory Prelude
  imports Main "HOL-Library.Word" "HOL-Library.AList" "HOL-Library.Multiset"
begin

text \<open>
  Shared vocabulary of the development: the outcome of a Rust function (value, typed error or
  panic), the fixed-width integer ranges with checked and unchecked arithmetic on them, and the
  generic facts on lists, sums and association lists that the component theories use.

  Integers of the source are modelled as \<^typ>\<open>int\<close> together with the range of their Rust type.
  A \<open>checked_*\<close> operation returns an option. An operator written without a check in the source is
  \<open>arith\<close> at its width: it is \<open>Panic\<close> when the mathematical value does not fit, which is what the
  debug profile does; the release profile wraps. A result that is not \<open>Panic\<close> is therefore the
  result of both profiles, and the theorems that exclude \<open>Panic\<close> exclude wrap-around.
\<close>

section \<open>Collections of simplification rules\<close>

named_theorems width_defs \<open>ranges of the machine integers\<close>
named_theorems outcome_simps \<open>evaluation of outcomes\<close>

section \<open>Outcomes\<close>

datatype ('e, 'a) outcome = Ok 'a | Err 'e | Panic

text \<open>\<open>?\<close> and statement sequencing: the first error or panic is the result.\<close>

primrec and_then :: "('e, 'a) outcome \<Rightarrow> ('a \<Rightarrow> ('e, 'b) outcome) \<Rightarrow> ('e, 'b) outcome" where
  "and_then (Ok x) f = f x"
| "and_then (Err e) f = Err e"
| "and_then Panic f = Panic"

primrec map_err :: "('e \<Rightarrow> 'f) \<Rightarrow> ('e, 'a) outcome \<Rightarrow> ('f, 'a) outcome" where
  "map_err g (Ok x) = Ok x"
| "map_err g (Err e) = Err (g e)"
| "map_err g Panic = Panic"

primrec ok_or :: "'a option \<Rightarrow> 'e \<Rightarrow> ('e, 'a) outcome" where
  "ok_or None e = Err e"
| "ok_or (Some x) e = Ok x"

primrec is_ok :: "('e, 'a) outcome \<Rightarrow> bool" where
  "is_ok (Ok x) = True"
| "is_ok (Err e) = False"
| "is_ok Panic = False"

lemma and_then_Ok_iff [simp]:
  "and_then m f = Ok y \<longleftrightarrow> (\<exists>x. m = Ok x \<and> f x = Ok y)"
  by (cases m) auto

lemma and_then_Err_iff:
  "and_then m f = Err e \<longleftrightarrow> m = Err e \<or> (\<exists>x. m = Ok x \<and> f x = Err e)"
  by (cases m) auto

lemma and_then_Panic_iff:
  "and_then m f = Panic \<longleftrightarrow> m = Panic \<or> (\<exists>x. m = Ok x \<and> f x = Panic)"
  by (cases m) auto

lemma ok_or_Ok_iff [simp]: "ok_or m e = Ok x \<longleftrightarrow> m = Some x"
  by (cases m) auto

lemma ok_or_Err_iff: "ok_or m e = Err e' \<longleftrightarrow> m = None \<and> e' = e"
  by (cases m) auto

lemma ok_or_not_Panic [simp]: "ok_or m e \<noteq> Panic"
  by (cases m) auto

lemma map_err_Ok_iff [simp]: "map_err g m = Ok x \<longleftrightarrow> m = Ok x"
  by (cases m) auto

lemma map_err_Panic_iff [simp]: "map_err g m = Panic \<longleftrightarrow> m = Panic"
  by (cases m) auto

lemma map_err_Err_iff: "map_err g m = Err e \<longleftrightarrow> (\<exists>e'. m = Err e' \<and> e = g e')"
  by (cases m) auto

lemma is_ok_iff: "is_ok m \<longleftrightarrow> (\<exists>x. m = Ok x)"
  by (cases m) auto

section \<open>Machine integers\<close>

type_synonym i16 = int
type_synonym i32 = int
type_synonym i64 = int
type_synonym i128 = int
type_synonym u8 = int
type_synonym u16 = int
type_synonym u32 = int
type_synonym u64 = int
type_synonym u128 = int
type_synonym uuid = "128 word"

definition fits_i32 :: "int \<Rightarrow> bool" where
  [width_defs]: "fits_i32 v \<longleftrightarrow> -2147483648 \<le> v \<and> v \<le> 2147483647"

definition fits_i64 :: "int \<Rightarrow> bool" where
  [width_defs]: "fits_i64 v \<longleftrightarrow> -9223372036854775808 \<le> v \<and> v \<le> 9223372036854775807"

definition fits_i128 :: "int \<Rightarrow> bool" where
  [width_defs]: "fits_i128 v \<longleftrightarrow>
     -170141183460469231731687303715884105728 \<le> v \<and>
     v \<le> 170141183460469231731687303715884105727"

definition fits_u8 :: "int \<Rightarrow> bool" where
  [width_defs]: "fits_u8 v \<longleftrightarrow> 0 \<le> v \<and> v \<le> 255"

definition fits_u16 :: "int \<Rightarrow> bool" where
  [width_defs]: "fits_u16 v \<longleftrightarrow> 0 \<le> v \<and> v \<le> 65535"

definition fits_u32 :: "int \<Rightarrow> bool" where
  [width_defs]: "fits_u32 v \<longleftrightarrow> 0 \<le> v \<and> v \<le> 4294967295"

definition fits_u64 :: "int \<Rightarrow> bool" where
  [width_defs]: "fits_u64 v \<longleftrightarrow> 0 \<le> v \<and> v \<le> 18446744073709551615"

definition fits_u128 :: "int \<Rightarrow> bool" where
  [width_defs]: "fits_u128 v \<longleftrightarrow> 0 \<le> v \<and> v \<le> 340282366920938463463374607431768211455"

abbreviation i64_MAX :: int where "i64_MAX \<equiv> 9223372036854775807"
abbreviation i64_MIN :: int where "i64_MIN \<equiv> -9223372036854775808"
abbreviation u64_MAX :: int where "u64_MAX \<equiv> 18446744073709551615"
abbreviation u32_MAX :: int where "u32_MAX \<equiv> 4294967295"

lemma width_bounds:
  "fits_i64 v \<longleftrightarrow> -(2 ^ 63) \<le> v \<and> v < 2 ^ 63"
  "fits_i128 v \<longleftrightarrow> -(2 ^ 127) \<le> v \<and> v < 2 ^ 127"
  "fits_u128 v \<longleftrightarrow> 0 \<le> v \<and> v < 2 ^ 128"
  "fits_u16 v \<longleftrightarrow> 0 \<le> v \<and> v < 2 ^ 16"
  by (auto simp: width_defs)

lemma fits_i64_i128: "fits_i64 v \<Longrightarrow> fits_i128 v"
  by (simp add: width_defs)

text \<open>Unchecked arithmetic at a width, checked arithmetic, and \<open>try_from\<close>.\<close>

definition arith :: "(int \<Rightarrow> bool) \<Rightarrow> int \<Rightarrow> ('e, int) outcome" where
  "arith fits v = (if fits v then Ok v else Panic)"

definition checked :: "(int \<Rightarrow> bool) \<Rightarrow> int \<Rightarrow> int option" where
  "checked fits v = (if fits v then Some v else None)"

text \<open>Division of non-negative values: the code panics on a zero divisor.\<close>

definition udiv :: "int \<Rightarrow> int \<Rightarrow> ('e, int) outcome" where
  "udiv n d = (if d = 0 then Panic else Ok (n div d))"

lemma arith_fits [simp, outcome_simps]: "fits v \<Longrightarrow> arith fits v = Ok v"
  by (simp add: arith_def)

lemma arith_Ok_iff [simp]: "arith fits v = Ok w \<longleftrightarrow> fits v \<and> w = v"
  by (auto simp: arith_def)

lemma arith_Panic_iff [simp]: "arith fits v = Panic \<longleftrightarrow> \<not> fits v"
  by (auto simp: arith_def)

lemma arith_not_Err [simp]: "arith fits v \<noteq> Err e"
  by (auto simp: arith_def)

lemma checked_fits [simp, outcome_simps]: "fits v \<Longrightarrow> checked fits v = Some v"
  by (simp add: checked_def)

lemma checked_unfit [simp, outcome_simps]: "\<not> fits v \<Longrightarrow> checked fits v = None"
  by (simp add: checked_def)

lemma checked_Some_iff [simp]: "checked fits v = Some w \<longleftrightarrow> fits v \<and> w = v"
  by (auto simp: checked_def)

lemma checked_None_iff [simp]: "checked fits v = None \<longleftrightarrow> \<not> fits v"
  by (auto simp: checked_def)

lemma le_zdiv_iff: "0 < d \<Longrightarrow> x \<le> n div d \<longleftrightarrow> x * d \<le> n" for x n d :: int
proof
  assume d: "0 < d"
  show "x * d \<le> n" if "x \<le> n div d"
  proof -
    have "x * d \<le> n div d * d" using that d by (intro mult_right_mono) auto
    moreover have "n div d * d = n - n mod d" by (simp add: minus_mod_eq_div_mult)
    moreover have "0 \<le> n mod d" using d by simp
    ultimately show ?thesis by linarith
  qed
  show "x \<le> n div d" if "x * d \<le> n" using zdiv_mono1[OF that d] d by simp
qed

section \<open>Loops over lists\<close>

text \<open>A \<open>for\<close> loop with an accumulator that may leave early, and one that collects a vector.\<close>

fun try_fold :: "('b \<Rightarrow> 'a \<Rightarrow> ('e, 'b) outcome) \<Rightarrow> 'a list \<Rightarrow> 'b \<Rightarrow> ('e, 'b) outcome" where
  "try_fold f [] acc = Ok acc"
| "try_fold f (x # xs) acc = and_then (f acc x) (try_fold f xs)"

fun try_map :: "('a \<Rightarrow> ('e, 'b) outcome) \<Rightarrow> 'a list \<Rightarrow> ('e, 'b list) outcome" where
  "try_map f [] = Ok []"
| "try_map f (x # xs) = and_then (f x) (\<lambda>y. and_then (try_map f xs) (\<lambda>ys. Ok (y # ys)))"

lemma try_fold_append:
  "try_fold f (xs @ ys) acc = and_then (try_fold f xs acc) (try_fold f ys)"
proof (induction xs arbitrary: acc)
  case (Cons x xs)
  then show ?case by (cases "f acc x") auto
qed simp

lemma try_fold_total:
  assumes "P [] acc0"
    and "\<And>pre x suf acc. xs = pre @ x # suf \<Longrightarrow> P pre acc \<Longrightarrow> \<exists>acc'. f acc x = Ok acc' \<and> P (pre @ [x]) acc'"
  shows "\<exists>acc. try_fold f xs acc0 = Ok acc \<and> P xs acc"
  using assms
proof (induction xs rule: rev_induct)
  case Nil
  then show ?case by simp
next
  case (snoc x xs)
  have "\<exists>acc. try_fold f xs acc0 = Ok acc \<and> P xs acc"
  proof (rule snoc.IH[OF snoc.prems(1)])
    fix pre y suf acc
    assume "xs = pre @ y # suf" and "P pre acc"
    then show "\<exists>acc'. f acc y = Ok acc' \<and> P (pre @ [y]) acc'"
      by (intro snoc.prems(2)[of pre y "suf @ [x]"]) simp_all
  qed
  then obtain acc where acc: "try_fold f xs acc0 = Ok acc" "P xs acc" by blast
  with snoc.prems(2)[of xs x "[]" acc] show ?case
    by (auto simp: try_fold_append)
qed

lemma try_fold_sound:
  assumes "try_fold f xs acc0 = Ok acc" "P [] acc0"
    and "\<And>pre x suf acc acc'. xs = pre @ x # suf \<Longrightarrow> P pre acc \<Longrightarrow> f acc x = Ok acc' \<Longrightarrow> P (pre @ [x]) acc'"
  shows "P xs acc"
  using assms
proof (induction xs arbitrary: acc rule: rev_induct)
  case (snoc x xs)
  from snoc.prems(1) obtain a where a: "try_fold f xs acc0 = Ok a" "f a x = Ok acc"
    by (auto simp: try_fold_append)
  have "P xs a"
  proof (rule snoc.IH[OF a(1) snoc.prems(2)])
    fix pre y suf acc acc'
    assume "xs = pre @ y # suf" "P pre acc" "f acc y = Ok acc'"
    then show "P (pre @ [y]) acc'"
      by (intro snoc.prems(3)[of pre y "suf @ [x]" acc]) simp_all
  qed
  with a(2) snoc.prems(3)[of xs x "[]" a acc] show ?case by simp
qed simp

lemma try_fold_not_Panic: "(\<And>acc x. f acc x \<noteq> Panic) \<Longrightarrow> try_fold f xs acc \<noteq> Panic"
  by (induction xs arbitrary: acc) (auto simp: and_then_Panic_iff)

lemma try_fold_inv:
  "try_fold f xs acc = Ok acc' \<Longrightarrow> I acc \<Longrightarrow>
     (\<And>x a a'. x \<in> set xs \<Longrightarrow> I a \<Longrightarrow> f a x = Ok a' \<Longrightarrow> I a') \<Longrightarrow> I acc'"
  by (induction xs arbitrary: acc) auto

lemma try_map_Ok_iff: "try_map f xs = Ok ys \<longleftrightarrow> list_all2 (\<lambda>x y. f x = Ok y) xs ys"
  by (induction xs arbitrary: ys) (auto simp: list_all2_Cons1)

lemma try_map_all_Ok: "(\<And>x. x \<in> set xs \<Longrightarrow> f x = Ok (g x)) \<Longrightarrow> try_map f xs = Ok (map g xs)"
  by (induction xs) auto

lemma try_map_Err: "try_map f xs = Err e \<Longrightarrow> \<exists>x \<in> set xs. f x = Err e"
  by (induction xs) (auto simp: and_then_Err_iff)

lemma try_map_not_Panic: "(\<And>x. x \<in> set xs \<Longrightarrow> f x \<noteq> Panic) \<Longrightarrow> try_map f xs \<noteq> Panic"
  by (induction xs) (auto simp: and_then_Panic_iff)

text \<open>\<open>Iterator::sum\<close> at the width \<open>i128\<close>.\<close>

definition sum_i128 :: "int list \<Rightarrow> ('e, i128) outcome" where
  "sum_i128 xs = try_fold (\<lambda>acc x. arith fits_i128 (acc + x)) xs 0"

lemma sum_list_i64_bound:
  "list_all fits_i64 xs \<Longrightarrow> \<bar>sum_list xs\<bar> \<le> int (length xs) * 9223372036854775808"
  by (induction xs) (auto simp: width_defs algebra_simps)

text \<open>A vector never holds more than \<open>isize::MAX\<close> elements, so the sum of its \<open>i64\<close> fits.\<close>

abbreviation vec_len :: "'a list \<Rightarrow> bool" where
  "vec_len xs \<equiv> length xs \<le> 9223372036854775807"

lemma sum_i128_ok:
  assumes "list_all fits_i64 xs" "vec_len xs"
  shows "sum_i128 xs = Ok (sum_list xs)"
proof -
  have "\<exists>acc. try_fold (\<lambda>acc x. arith fits_i128 (acc + x)) xs 0 = Ok acc \<and> acc = sum_list xs"
  proof (rule try_fold_total[where P = "\<lambda>pre acc. acc = sum_list pre"])
    fix pre x suf acc
    assume xs: "xs = pre @ x # suf" and acc: "acc = sum_list pre"
    have fit: "list_all fits_i64 (pre @ [x])" using assms(1) xs by simp
    have "length (pre @ [x]) \<le> length xs" by (simp add: xs)
    with assms(2) have "int (length (pre @ [x])) \<le> 9223372036854775807" by linarith
    with sum_list_i64_bound[OF fit]
    have "\<bar>sum_list (pre @ [x])\<bar> \<le> 9223372036854775807 * 9223372036854775808" by linarith
    then show "\<exists>acc'. arith fits_i128 (acc + x) = Ok acc' \<and> acc' = sum_list (pre @ [x])"
      by (simp add: acc width_defs abs_le_iff)
  qed simp
  then show ?thesis by (simp add: sum_i128_def)
qed

lemma sum_i128_nonneg:
  assumes "list_all (\<lambda>x. 0 \<le> x) xs" "sum_list xs \<le> 9223372036854775808"
  shows "sum_i128 xs = Ok (sum_list xs)"
proof -
  have "\<exists>acc. try_fold (\<lambda>acc x. arith fits_i128 (acc + x)) xs 0 = Ok acc \<and> acc = sum_list xs"
  proof (rule try_fold_total[where P = "\<lambda>pre acc. acc = sum_list pre"])
    fix pre x suf acc
    assume xs: "xs = pre @ x # suf" and acc: "acc = sum_list pre"
    have "0 \<le> sum_list pre" "0 \<le> x" "0 \<le> sum_list suf"
      using assms(1) xs by (auto simp: list_all_iff intro!: sum_list_nonneg)
    then have "0 \<le> acc + x" "acc + x \<le> 9223372036854775808" using assms(2) xs acc by auto
    then show "\<exists>acc'. arith fits_i128 (acc + x) = Ok acc' \<and> acc' = sum_list (pre @ [x])"
      by (simp add: acc width_defs)
  qed simp
  then show ?thesis by (simp add: sum_i128_def)
qed

section \<open>Hash maps\<close>

text \<open>
  A \<open>HashMap\<close> is an association list with distinct keys. Where the source iterates over one, the
  order is arbitrary: the definition takes it as an argument, a function that permutes the pairs.
\<close>

definition is_order :: "('a list \<Rightarrow> 'a list) \<Rightarrow> bool" where
  "is_order f \<longleftrightarrow> (\<forall>xs. mset (f xs) = mset xs)"

definition lookup0 :: "('k \<times> int) list \<Rightarrow> 'k \<Rightarrow> int" where
  "lookup0 m k = (case map_of m k of None \<Rightarrow> 0 | Some v \<Rightarrow> v)"

lemma is_order_id: "is_order (\<lambda>xs. xs)"
  by (simp add: is_order_def)

lemma is_order_rev: "is_order rev"
  by (simp add: is_order_def)

lemma set_order: "is_order f \<Longrightarrow> set (f xs) = set xs"
  by (metis is_order_def mset_eq_setD)

lemma length_order: "is_order f \<Longrightarrow> length (f xs) = length xs"
  by (metis is_order_def mset_eq_length)

lemma distinct_map_order: "is_order f \<Longrightarrow> distinct (map g (f xs)) = distinct (map g xs)"
  by (metis is_order_def mset_eq_imp_distinct_iff mset_map)

lemma sum_list_order: "is_order f \<Longrightarrow> sum_list (map g (f xs)) = sum_list (map g xs)"
  for g :: "'a \<Rightarrow> int"
  by (simp add: is_order_def flip: sum_mset_sum_list)

lemma sum_list_filter_order:
  "is_order f \<Longrightarrow> sum_list (map g (filter P (f xs))) = sum_list (map g (filter P xs))"
  for g :: "'a \<Rightarrow> int"
  by (simp add: is_order_def flip: sum_mset_sum_list)

lemma update_existing:
  assumes "distinct (map fst m)" "k \<in> fst ` set m"
  shows "AList.update k v m = map (\<lambda>(k', v'). (k', if k' = k then v else v')) m"
  using assms
proof (induction m)
  case (Cons p m)
  obtain k' v' where p: "p = (k', v')" by force
  have "k' \<notin> fst ` set m" using Cons.prems p by simp
  then have "map (\<lambda>(k'', v''). (k'', if k'' = k' then v else v'')) m = m"
    by (intro map_idI) force
  with Cons p show ?case by (auto simp: image_iff)
qed simp

lemma lookup0_update: "lookup0 (AList.update k v m) j = (if j = k then v else lookup0 m j)"
  by (simp add: lookup0_def update_conv')

lemma lookup0_mem: "distinct (map fst m) \<Longrightarrow> (k, v) \<in> set m \<Longrightarrow> lookup0 m k = v"
  by (simp add: lookup0_def)

end
