(* ===== verification/Money.thy ===== *)
theory Money
  imports Prelude
begin

text \<open>
  Model of \<open>src/crates/domain/src/money.rs\<close> and \<open>src/crates/domain/src/fee_policy.rs\<close>: integer
  micro-dollar amounts, the fee split and the tiered fee authority.
\<close>

type_synonym micro_usd = i64
type_synonym micro_shares = i64
type_synonym basis_points = u16

record FeeSplit =
  split_net :: micro_usd
  split_fee :: micro_usd

datatype MoneyError = NegativeAmount | MoneyOverflow | FeeTooHigh

definition usd_checked_add :: "micro_usd \<Rightarrow> micro_usd \<Rightarrow> micro_usd option" where
  "usd_checked_add a b = checked fits_i64 (a + b)"

definition usd_checked_sub :: "micro_usd \<Rightarrow> micro_usd \<Rightarrow> micro_usd option" where
  "usd_checked_sub a b = checked fits_i64 (a - b)"

definition apply_fee :: "micro_usd \<Rightarrow> basis_points \<Rightarrow> (MoneyError, FeeSplit) outcome" where
  "apply_fee gross fee =
     (if gross < 0 then Err NegativeAmount
      else if fee > 10000 then Err FeeTooHigh
      else
        and_then (arith fits_i128 (gross * fee)) (\<lambda>p.
        and_then (arith fits_i128 (p + 9999)) (\<lambda>q.
        and_then (ok_or (checked fits_i64 (q div 10000)) MoneyOverflow) (\<lambda>fee_amt.
        and_then (arith fits_i64 (gross - fee_amt)) (\<lambda>net.
        Ok \<lparr>split_net = net, split_fee = fee_amt\<rparr>)))))"

record FeeContext =
  base_bps :: u16
  fee_tier :: u8
  discount_bp_by_tier :: "u16 list"
  min_fee_bps :: u16
  is_flip_within_window :: bool

definition fits_FeeContext :: "FeeContext \<Rightarrow> bool" where
  "fits_FeeContext ctx \<longleftrightarrow>
     fits_u16 (base_bps ctx) \<and> fits_u8 (fee_tier ctx) \<and>
     length (discount_bp_by_tier ctx) = 5 \<and> list_all fits_u16 (discount_bp_by_tier ctx) \<and>
     fits_u16 (min_fee_bps ctx)"

text \<open>\<open>saturating_sub\<close> on \<open>u16\<close> stops at zero; the array has the fixed length five.\<close>

definition effective_fee :: "FeeContext \<Rightarrow> basis_points" where
  "effective_fee ctx =
     (if is_flip_within_window ctx then base_bps ctx
      else
        let index = nat (min (fee_tier ctx) 4)
        in max (max 0 (base_bps ctx - discount_bp_by_tier ctx ! index)) (min_fee_bps ctx))"

section \<open>The fee split\<close>

definition ceil_div :: "int \<Rightarrow> int \<Rightarrow> int" where
  "ceil_div a b = (a + b - 1) div b"

lemma ceil_div_bounds:
  assumes "0 < b"
  shows "a \<le> ceil_div a b * b" and "(ceil_div a b - 1) * b < a"
proof -
  have "ceil_div a b * b = a + b - 1 - (a + b - 1) mod b"
    by (simp add: ceil_div_def minus_mod_eq_div_mult)
  moreover have "0 \<le> (a + b - 1) mod b" "(a + b - 1) mod b < b" using assms by simp_all
  ultimately show "a \<le> ceil_div a b * b" "(ceil_div a b - 1) * b < a"
    by (simp_all add: left_diff_distrib)
qed

lemma ceil_div_least: "0 < b \<Longrightarrow> a \<le> c * b \<Longrightarrow> ceil_div a b \<le> c"
  using ceil_div_bounds(2)[of b a] by (metis less_le_trans linorder_not_less mult_less_cancel_right_pos
      zle_diff1_eq leD le_less_linear)

lemma ceil_div_nonneg: "0 < b \<Longrightarrow> 0 \<le> a \<Longrightarrow> 0 \<le> ceil_div a b"
  by (simp add: ceil_div_def pos_imp_zdiv_nonneg_iff)

lemma apply_fee_ok:
  assumes "fits_i64 gross" "0 \<le> gross" "0 \<le> fee" "fee \<le> 10000"
  shows "apply_fee gross fee =
    Ok \<lparr>split_net = gross - ceil_div (gross * fee) 10000,
        split_fee = ceil_div (gross * fee) 10000\<rparr>"
proof -
  have p0: "0 \<le> gross * fee" using assms by simp
  have p1: "gross * fee \<le> gross * 10000" using assms by (intro mult_left_mono) auto
  have c0: "0 \<le> ceil_div (gross * fee) 10000" using p0 by (simp add: ceil_div_nonneg)
  have c1: "ceil_div (gross * fee) 10000 \<le> gross" using p1 by (simp add: ceil_div_least)
  have "(gross * fee + 9999) div 10000 = ceil_div (gross * fee) 10000"
    by (simp add: ceil_div_def)
  with assms p0 p1 c0 c1 show ?thesis
    by (simp add: apply_fee_def width_defs)
qed

text \<open>
  C19. For every \<open>i64\<close> amount and \<open>u16\<close> rate, \<open>apply_fee\<close> neither overflows nor panics. It accepts
  exactly the non-negative amounts at rates up to 100%; then net and fee are non-negative, add up to
  the gross exactly, and the fee is the exact ceiling of the rate (the least fee covering it).
  Otherwise the error is the one whose condition holds first.
\<close>

theorem apply_fee_splits:
  assumes "fits_i64 gross" "fits_u16 bps"
  shows "case apply_fee gross bps of
      Ok s \<Rightarrow> 0 \<le> gross \<and> bps \<le> 10000 \<and> split_net s + split_fee s = gross \<and>
        0 \<le> split_net s \<and> 0 \<le> split_fee s \<and>
        gross * bps \<le> split_fee s * 10000 \<and> (split_fee s - 1) * 10000 < gross * bps
    | Err e \<Rightarrow> e = NegativeAmount \<and> gross < 0 \<or> e = FeeTooHigh \<and> 0 \<le> gross \<and> 10000 < bps
    | Panic \<Rightarrow> False"
proof (cases "0 \<le> gross \<and> bps \<le> 10000")
  case True
  have "gross * bps \<le> gross * 10000" using True by (intro mult_left_mono) auto
  then have "ceil_div (gross * bps) 10000 \<le> gross" by (simp add: ceil_div_least)
  moreover have "0 \<le> ceil_div (gross * bps) 10000"
    using True assms by (intro ceil_div_nonneg) (simp_all add: width_defs)
  ultimately show ?thesis
    using True assms ceil_div_bounds[of 10000 "gross * bps"]
    by (simp add: apply_fee_ok width_defs)
next
  case False
  then show ?thesis by (auto simp: apply_fee_def)
qed

theorem apply_fee_splits_witness:
  "fits_i64 101 \<and> fits_u16 100 \<and>
   apply_fee 101 100 = Ok \<lparr>split_net = 99, split_fee = 2\<rparr> \<and>
   (2 - 1) * 10000 < (101 :: int) * 100"
proof -
  have h: "fits_i64 101" "fits_u16 100" by (simp_all add: width_defs)
  have e: "apply_fee 101 100 = Ok \<lparr>split_net = 99, split_fee = 2\<rparr>" by code_simp
  show ?thesis using h e apply_fee_splits[OF h] by simp
qed

section \<open>The fee authority\<close>

lemma effective_fee_discounted:
  "fits_FeeContext ctx \<Longrightarrow> \<not> is_flip_within_window ctx \<Longrightarrow>
     effective_fee ctx =
       max (max 0 (base_bps ctx - discount_bp_by_tier ctx ! nat (min (fee_tier ctx) 4))) (min_fee_bps ctx)"
  by (simp add: effective_fee_def Let_def)

lemma discount_fits:
  "fits_FeeContext ctx \<Longrightarrow> fits_u16 (discount_bp_by_tier ctx ! nat (min (fee_tier ctx) 4))"
  by (auto simp: fits_FeeContext_def list_all_length width_defs)



end
