(* ===== verification/Amm.thy ===== *)
theory Amm
  imports Money
begin

text \<open>
  Model of \<open>src/crates/domain/src/amm.rs\<close>: the constant-product market maker over complete sets, its
  integer square root, and the buy and sell quotes. Reserves are \<open>i64\<close> and the products are computed in
  checked \<open>u128\<close> as in the source; unchecked additions, subtractions and divisions panic where the code
  would.

  The lemmas show that quotes never panic or overflow on a well-formed pool, that they keep the reserves
  inside the cap and the product from shrinking, that a sell burns the largest number of complete sets
  the invariant allows, and that no buy followed by a sell makes a profit.
\<close>

section \<open>Definitions\<close>

abbreviation (input) MAX_RESERVE :: i64 where
  "MAX_RESERVE \<equiv> 1000000000000000"

abbreviation (input) MAX_AMOUNT :: i64 where
  "MAX_AMOUNT \<equiv> 1000000000000000"

datatype Side = Yes | No

record Pool =
  pool_yes :: micro_shares
  pool_no :: micro_shares
  pool_fee :: basis_points

record BuyQuote =
  shares_out :: micro_shares
  buy_fee :: micro_usd
  buy_pool_after :: Pool
  avg_price_micro_per_share :: i64

record SellQuote =
  collateral_out :: micro_usd
  sell_fee :: micro_usd
  sell_pool_after :: Pool

datatype AmmError = EmptyPool | AmountTooSmall | DrainsPool | InputTooLarge | AmmOverflow

fun AmmError_from :: "MoneyError \<Rightarrow> AmmError" where
  "AmmError_from NegativeAmount = AmountTooSmall"
| "AmmError_from MoneyOverflow = AmmOverflow"
| "AmmError_from FeeTooHigh = InputTooLarge"

definition to_u128 :: "i64 \<Rightarrow> u128" where
  "to_u128 v = \<bar>v\<bar>"

definition max_reserve_u128 :: u128 where
  "max_reserve_u128 = to_u128 MAX_RESERVE"

text \<open>\<open>bit_length x\<close> is \<open>128 - x.leading_zeros()\<close>; \<open>u128::midpoint\<close> is the overflow-free floor of the mean.\<close>

function bit_length :: "u128 \<Rightarrow> nat" where
  "bit_length x = (if x \<le> 0 then 0 else Suc (bit_length (x div 2)))"
  by auto
termination by (relation "measure nat") auto

definition midpoint :: "u128 \<Rightarrow> u128 \<Rightarrow> u128" where
  "midpoint a b = (a + b) div 2"

function isqrt_loop :: "u128 \<Rightarrow> u128 \<Rightarrow> ('e, u128) outcome" where
  "isqrt_loop x r =
     (if r \<le> 0 then Panic
      else let nxt = midpoint r (x div r) in if r \<le> nxt then Ok r else isqrt_loop x nxt)"
  by auto
termination by (relation "measure (\<lambda>(_, r). nat r)") auto

definition isqrt_u128 :: "u128 \<Rightarrow> ('e, u128) outcome" where
  "isqrt_u128 x =
     (if x < 2 then Ok x
      else isqrt_loop x (2 ^ ((bit_length x + 1) div 2)))"

definition Pool_new :: "micro_shares \<Rightarrow> micro_shares \<Rightarrow> basis_points \<Rightarrow> (AmmError, Pool) outcome" where
  "Pool_new yes no fee =
     (if yes \<le> 0 \<or> no \<le> 0 then Err EmptyPool
      else if MAX_RESERVE < yes \<or> MAX_RESERVE < no \<or> 10000 < fee then Err InputTooLarge
      else Ok \<lparr>pool_yes = yes, pool_no = no, pool_fee = fee\<rparr>)"

definition price_micro :: "Pool \<Rightarrow> Side \<Rightarrow> (AmmError, i64) outcome" where
  "price_micro pool side =
     (let yes = to_u128 (pool_yes pool); no = to_u128 (pool_no pool);
          opposite = (case side of Yes \<Rightarrow> no | No \<Rightarrow> yes)
      in and_then (arith fits_u128 (opposite * 1000000)) (\<lambda>n.
         and_then (arith fits_u128 (yes + no)) (\<lambda>d.
         and_then (udiv n d) (\<lambda>p.
         Ok (case checked fits_i64 p of Some v \<Rightarrow> v | None \<Rightarrow> i64_MAX)))))"

definition reserves :: "Pool \<Rightarrow> Side \<Rightarrow> i64 \<times> i64" where
  "reserves pool side =
     (case side of Yes \<Rightarrow> (pool_yes pool, pool_no pool) | No \<Rightarrow> (pool_no pool, pool_yes pool))"

definition sides :: "Side \<Rightarrow> u128 \<Rightarrow> u128 \<Rightarrow> u128 \<times> u128" where
  "sides side own other = (case side of Yes \<Rightarrow> (own, other) | No \<Rightarrow> (other, own))"

definition pool_of :: "u128 \<times> u128 \<Rightarrow> basis_points \<Rightarrow> (AmmError, Pool) outcome" where
  "pool_of yn fee =
     and_then (ok_or (checked fits_i64 (fst yn)) AmmOverflow) (\<lambda>y.
     and_then (ok_or (checked fits_i64 (snd yn)) AmmOverflow) (\<lambda>n.
     Ok \<lparr>pool_yes = y, pool_no = n, pool_fee = fee\<rparr>))"

definition quote_buy ::
  "Pool \<Rightarrow> Side \<Rightarrow> micro_usd \<Rightarrow> basis_points \<Rightarrow> (AmmError, BuyQuote) outcome" where
  "quote_buy pool side collateral fee =
     (if MAX_AMOUNT < collateral then Err InputTooLarge else
      and_then (map_err AmmError_from (apply_fee collateral fee)) (\<lambda>split.
      let a = to_u128 (fst (reserves pool side));
          b = to_u128 (snd (reserves pool side));
          net = to_u128 (split_net split)
      in
      and_then (ok_or (checked fits_u128 (b + net)) AmmOverflow) (\<lambda>b_after.
      if max_reserve_u128 < b_after then Err InputTooLarge else
      and_then (ok_or (checked fits_u128 (a * b)) AmmOverflow) (\<lambda>k.
      and_then (arith fits_u128 (b_after - 1)) (\<lambda>b_less.
      and_then (ok_or (checked fits_u128 (k + b_less)) AmmOverflow) (\<lambda>k_up.
      and_then (udiv k_up b_after) (\<lambda>a_pool.
      and_then (ok_or (checked fits_u128 (a + net)) AmmOverflow) (\<lambda>a_net.
      and_then (ok_or (checked fits_u128 (a_net - a_pool)) AmmOverflow) (\<lambda>out.
      if out = 0 then Err AmountTooSmall else
      and_then (ok_or (checked fits_u128 (to_u128 collateral * 1000000)) AmmOverflow) (\<lambda>scaled.
      and_then (udiv scaled out) (\<lambda>avg.
      and_then (ok_or (checked fits_i64 out) AmmOverflow) (\<lambda>shares.
      and_then (pool_of (sides side a_pool b_after) (pool_fee pool)) (\<lambda>after.
      and_then (ok_or (checked fits_i64 avg) AmmOverflow) (\<lambda>avg.
      Ok \<lparr>shares_out = shares, buy_fee = split_fee split, buy_pool_after = after,
          avg_price_micro_per_share = avg\<rparr>))))))))))))))"

text \<open>The descent of \<open>quote_sell\<close>: \<open>c\<close> is a \<open>u128\<close>, so \<open>c \<le> 0\<close> is \<open>c == 0\<close>.\<close>

function burn_loop :: "u128 \<Rightarrow> u128 \<Rightarrow> u128 \<Rightarrow> u128 \<Rightarrow> u128 \<Rightarrow> (AmmError, u128) outcome" where
  "burn_loop sell_side other_side s k c =
     (if c \<le> 0 then Err AmountTooSmall
      else
        and_then (arith fits_u128 (sell_side + s)) (\<lambda>grown.
        and_then (arith fits_u128 (grown - c)) (\<lambda>own.
        and_then (arith fits_u128 (other_side - c)) (\<lambda>other.
        and_then (ok_or (checked fits_u128 (own * other)) AmmOverflow) (\<lambda>after_product.
        if k \<le> after_product then Ok c else burn_loop sell_side other_side s k (c - 1))))))"
  by auto
termination by (relation "measure (\<lambda>(_, _, _, _, c). nat c)") auto

definition quote_sell ::
  "Pool \<Rightarrow> Side \<Rightarrow> micro_shares \<Rightarrow> basis_points \<Rightarrow> (AmmError, SellQuote) outcome" where
  "quote_sell pool side shares fee =
     (if shares \<le> 0 then Err AmountTooSmall
      else if MAX_AMOUNT < shares then Err InputTooLarge
      else
      let sell_side = to_u128 (fst (reserves pool side));
          other_side = to_u128 (snd (reserves pool side));
          s = to_u128 shares
      in
      and_then (ok_or (checked fits_u128 (sell_side * other_side)) AmmOverflow) (\<lambda>k.
      and_then (ok_or (checked fits_u128 (sell_side + s)) AmmOverflow) (\<lambda>grown.
      and_then (ok_or (checked fits_u128 (grown + other_side)) AmmOverflow) (\<lambda>bsum.
      and_then (ok_or (checked fits_u128 (s * other_side)) AmmOverflow) (\<lambda>sb.
      and_then (ok_or (checked fits_u128 (sb * 4)) AmmOverflow) (\<lambda>four_sb.
      and_then (ok_or (checked fits_u128 (bsum * bsum)) AmmOverflow) (\<lambda>square.
      and_then (ok_or (checked fits_u128 (square - four_sb)) AmmOverflow) (\<lambda>disc.
      and_then (isqrt_u128 disc) (\<lambda>root.
      and_then (arith fits_u128 (bsum - root)) (\<lambda>twice.
      let c0 = twice div 2 in
      if other_side \<le> c0 then Err DrainsPool else
      and_then (burn_loop sell_side other_side s k c0) (\<lambda>c.
      and_then (arith fits_u128 (sell_side + s)) (\<lambda>grown.
      and_then (arith fits_u128 (grown - c)) (\<lambda>sell_after.
      if max_reserve_u128 < sell_after then Err InputTooLarge else
      and_then (arith fits_u128 (other_side - c)) (\<lambda>other_after.
      and_then (ok_or (checked fits_i64 c) AmmOverflow) (\<lambda>gross.
      and_then (map_err AmmError_from (apply_fee gross fee)) (\<lambda>split.
      and_then (pool_of (sides side sell_after other_after) (pool_fee pool)) (\<lambda>after.
      Ok \<lparr>collateral_out = split_net split, sell_fee = split_fee split,
          sell_pool_after = after\<rparr>)))))))))))))))))"

declare bit_length.simps [simp del] isqrt_loop.simps [simp del] burn_loop.simps [simp del]

section \<open>The integer square root\<close>

lemma bit_length_bound: "x < 2 ^ bit_length x"
proof (induction x rule: bit_length.induct)
  case (1 x)
  show ?case
  proof (cases "x \<le> 0")
    case True
    then show ?thesis by (simp add: bit_length.simps)
  next
    case False
    with 1 have "x div 2 + 1 \<le> 2 ^ bit_length (x div 2)" by simp
    then show ?thesis using False by (subst bit_length.simps) simp
  qed
qed

lemma bit_length_least: "0 < x \<Longrightarrow> x < 2 ^ n \<Longrightarrow> bit_length x \<le> n"
proof (induction x arbitrary: n rule: bit_length.induct)
  case (1 x)
  then obtain m where n: "n = Suc m" by (cases n) auto
  have "bit_length (x div 2) \<le> m"
  proof (cases "0 < x div 2")
    case True
    then show ?thesis using 1 n by (simp add: not_le)
  next
    case False
    then show ?thesis by (simp add: bit_length.simps)
  qed
  then show ?case using n by (subst bit_length.simps) simp
qed

lemma newton_step:
  fixes x r :: int
  assumes "0 < r" "0 \<le> x"
  shows "x < (midpoint r (x div r) + 1)\<^sup>2"
proof -
  let ?q = "x div r" and ?m = "midpoint r (x div r) + 1"
  have "0 \<le> ?q" using assms by (simp add: pos_imp_zdiv_nonneg_iff)
  have "x = r * ?q + x mod r" "x mod r < r" using assms by simp_all
  then have "x < r * ?q + r * 1" by linarith
  then have "x < r * (?q + 1)" by (simp only: distrib_left)
  moreover have "4 * (r * (?q + 1)) \<le> (r + (?q + 1))\<^sup>2"
    using zero_le_power2[of "r - (?q + 1)"] by (simp add: power2_eq_square algebra_simps)
  moreover have "(r + (?q + 1))\<^sup>2 \<le> (2 * ?m)\<^sup>2"
    using \<open>0 \<le> ?q\<close> assms by (intro power_mono) (auto simp: midpoint_def)
  moreover have "(2 * ?m)\<^sup>2 = 4 * ?m\<^sup>2" by (simp only: power_mult_distrib) simp
  ultimately show ?thesis by linarith
qed

lemma isqrt_loop_floor:
  assumes "0 < r" "2 \<le> x" "x < (r + 1)\<^sup>2"
  shows "\<exists>s. isqrt_loop x r = Ok s \<and> 0 < s \<and> s \<le> r \<and> s\<^sup>2 \<le> x \<and> x < (s + 1)\<^sup>2"
  using assms
proof (induction x r rule: isqrt_loop.induct)
  case (1 x r)
  let ?n = "midpoint r (x div r)"
  show ?case
  proof (cases "r \<le> ?n")
    case True
    then have "r \<le> x div r" by (simp add: midpoint_def)
    then have "r * r \<le> r * (x div r)" using 1(2) by (intro mult_left_mono) auto
    also have "\<dots> \<le> x" using 1(2) by (metis mult.commute mult_div_mod_eq pos_mod_sign le_add_same_cancel1)
    finally have "isqrt_loop x r = Ok r" "r\<^sup>2 \<le> x" using True 1(2)
      by (simp_all add: isqrt_loop.simps power2_eq_square)
    with 1(2,4) show ?thesis by blast
  next
    case False
    have x: "x < (?n + 1)\<^sup>2" using 1(2,3) by (intro newton_step) auto
    have "?n \<noteq> 0" using x 1(3) by auto
    moreover have "0 \<le> ?n" using 1(2,3) by (simp add: midpoint_def pos_imp_zdiv_nonneg_iff)
    ultimately have pos: "0 < ?n" by simp
    have e: "isqrt_loop x r = isqrt_loop x ?n" using 1(2) False by (subst isqrt_loop.simps) simp
    show ?thesis using 1(1)[OF _ refl False pos 1(3) x] 1(2) False unfolding e by auto
  qed
qed

lemma isqrt_u128_floor:
  assumes "0 \<le> x"
  obtains s where "(isqrt_u128 x :: ('e, u128) outcome) = Ok s" "0 \<le> s" "s\<^sup>2 \<le> x" "x < (s + 1)\<^sup>2"
proof (cases "x < 2")
  case True
  with assms have "x = 0 \<or> x = 1" by auto
  with that[of x] show ?thesis by (auto simp: isqrt_u128_def)
next
  case False
  let ?r = "2 ^ ((bit_length x + 1) div 2) :: int"
  have "x < 2 ^ bit_length x" by (rule bit_length_bound)
  also have "\<dots> \<le> 2 ^ (2 * ((bit_length x + 1) div 2))" by (intro power_increasing) auto
  also have "\<dots> = ?r\<^sup>2" by (simp add: power_mult[symmetric] mult.commute)
  also have "\<dots> \<le> (?r + 1)\<^sup>2" by (intro power_mono) auto
  finally obtain s where "(isqrt_loop x ?r :: ('e, u128) outcome) = Ok s" "0 < s" "s\<^sup>2 \<le> x" "x < (s + 1)\<^sup>2"
    using isqrt_loop_floor[of ?r x] False by auto
  with False that[of s] show ?thesis by (simp add: isqrt_u128_def)
qed

section \<open>Well-formed pools\<close>

definition wf_pool :: "Pool \<Rightarrow> bool" where
  "wf_pool p \<longleftrightarrow> 0 < pool_yes p \<and> pool_yes p \<le> MAX_RESERVE \<and>
     0 < pool_no p \<and> pool_no p \<le> MAX_RESERVE \<and> fits_u16 (pool_fee p) \<and> pool_fee p \<le> 10000"

definition pool_with :: "Side \<Rightarrow> int \<Rightarrow> int \<Rightarrow> basis_points \<Rightarrow> Pool" where
  "pool_with side own other fee =
     \<lparr>pool_yes = fst (sides side own other), pool_no = snd (sides side own other), pool_fee = fee\<rparr>"

lemma Pool_new_wf: "fits_u16 fee \<Longrightarrow> Pool_new yes no fee = Ok p \<Longrightarrow> wf_pool p"
  by (auto simp: Pool_new_def wf_pool_def split: if_splits)

lemma wf_pool_reserves:
  "wf_pool p \<Longrightarrow> reserves p side = (a, b) \<Longrightarrow>
     0 < a \<and> a \<le> MAX_RESERVE \<and> 0 < b \<and> b \<le> MAX_RESERVE"
  by (auto simp: wf_pool_def reserves_def split: Side.splits)

lemma reserves_pool_with [simp]: "reserves (pool_with side a b fee) side = (a, b)"
  by (simp add: reserves_def pool_with_def sides_def split: Side.split)

lemma pool_with_fee [simp]: "pool_fee (pool_with side a b fee) = fee"
  by (simp add: pool_with_def)

lemma product_reserves: "reserves p side = (a, b) \<Longrightarrow> pool_yes p * pool_no p = a * b"
  by (auto simp: reserves_def split: Side.splits)

lemma wf_pool_with:
  "wf_pool p \<Longrightarrow> 0 < a \<Longrightarrow> a \<le> MAX_RESERVE \<Longrightarrow> 0 < b \<Longrightarrow> b \<le> MAX_RESERVE \<Longrightarrow>
     wf_pool (pool_with side a b (pool_fee p))"
  by (cases side) (simp_all add: wf_pool_def pool_with_def sides_def)

lemma pool_of_sides:
  "fits_i64 own \<Longrightarrow> fits_i64 other \<Longrightarrow>
     pool_of (sides side own other) fee = Ok (pool_with side own other fee)"
  by (simp add: pool_of_def pool_with_def sides_def split: Side.split)

section \<open>The buy quote in closed form\<close>

definition buy_spec :: "Pool \<Rightarrow> Side \<Rightarrow> int \<Rightarrow> int \<Rightarrow> (AmmError, BuyQuote) outcome" where
  "buy_spec pool side collateral fee =
     (let (a, b) = reserves pool side;
          f = ceil_div (collateral * fee) 10000;
          n = collateral - f;
          a' = ceil_div (a * b) (b + n)
      in if MAX_AMOUNT < collateral then Err InputTooLarge
      else if collateral < 0 then Err AmountTooSmall
      else if 10000 < fee \<or> MAX_RESERVE < b + n then Err InputTooLarge
      else if n = 0 then Err AmountTooSmall
      else Ok \<lparr>shares_out = a + n - a', buy_fee = f,
               buy_pool_after = pool_with side a' (b + n) (pool_fee pool),
               avg_price_micro_per_share = collateral * 1000000 div (a + n - a')\<rparr>)"

lemma ceil_div_pos: "0 < b \<Longrightarrow> 0 < a \<Longrightarrow> 0 < ceil_div a b"
  using ceil_div_bounds(1)[of b a] by (metis less_le_trans mult_nonpos_nonneg not_le_imp_less order_less_imp_le leD)

lemma ceil_div_mult: "0 < b \<Longrightarrow> ceil_div (a * b) b = a"
  using ceil_div_bounds(1)[of b "a * b"] ceil_div_least[of b "a * b" a] by simp

lemma retained:
  assumes "0 < a" "0 < b" "0 \<le> n"
  shows "0 < ceil_div (a * b) (b + n)" "ceil_div (a * b) (b + n) \<le> a"
    "a * b \<le> ceil_div (a * b) (b + n) * (b + n)"
  using assms ceil_div_bounds(1)[of "b + n" "a * b"]
  by (auto intro!: ceil_div_pos ceil_div_least simp: distrib_left)

lemma net_price:
  fixes c n :: int
  assumes "0 < n" "c \<le> (n + 1) * 10000" "n \<le> out"
  shows "c * 1000000 div out \<le> 20000000000"
proof -
  have "c * 1000000 \<le> 20000 * 1000000 * out" using assms by auto
  then have "c * 1000000 div out \<le> (20000 * 1000000 * out) div out"
    using assms by (intro zdiv_mono1) auto
  then show ?thesis using assms by simp
qed

lemma net_bounds:
  fixes c fee :: int
  assumes "0 \<le> c" "0 \<le> fee" "fee \<le> 10000"
  defines "n \<equiv> c - ceil_div (c * fee) 10000"
  shows "0 \<le> n" "n \<le> c" "n = 0 \<or> c \<le> (n + 1) * 10000"
proof -
  have "c * fee \<le> c * 10000" using assms by (intro mult_left_mono) auto
  then show "0 \<le> n" unfolding n_def by (simp add: ceil_div_least)
  show "n \<le> c" unfolding n_def using assms by (simp add: ceil_div_nonneg)
  have c: "(ceil_div (c * fee) 10000 - 1) * 10000 < c * fee" by (rule ceil_div_bounds) simp
  show "n = 0 \<or> c \<le> (n + 1) * 10000"
  proof (cases "fee = 10000")
    case True
    have "ceil_div (c * 10000) 10000 = c" by (simp add: ceil_div_def)
    then show ?thesis using True by (simp add: n_def)
  next
    case False
    then have "c * fee \<le> c * 9999" using assms by (intro mult_left_mono) auto
    with c show ?thesis unfolding n_def by (simp add: algebra_simps)
  qed
qed

lemma quote_buy_eq:
  assumes "wf_pool pool" "fits_i64 collateral" "fits_u16 fee"
  shows "quote_buy pool side collateral fee = buy_spec pool side collateral fee"
proof (cases "0 \<le> collateral \<and> collateral \<le> MAX_AMOUNT \<and> fee \<le> 10000")
  case False
  then show ?thesis
    by (auto simp: quote_buy_def buy_spec_def apply_fee_def split_beta Let_def)
next
  case True
  obtain a b where ab: "reserves pool side = (a, b)" by (cases "reserves pool side")
  define n where "n = collateral - ceil_div (collateral * fee) 10000"
  define a' where "a' = ceil_div (a * b) (b + n)"
  have r: "0 < a" "a \<le> MAX_RESERVE" "0 < b" "b \<le> MAX_RESERVE" using wf_pool_reserves[OF assms(1) ab] by auto
  have fee: "0 \<le> fee" using assms(3) by (simp add: width_defs)
  have n: "0 \<le> n" "n \<le> collateral" "n = 0 \<or> collateral \<le> (n + 1) * 10000"
    using net_bounds[of collateral fee] True fee unfolding n_def by auto
  have a': "0 < a'" "a' \<le> a" using retained[OF r(1,3) n(1)] unfolding a'_def by auto
  have a0: "a' = a" if "n = 0" using that r by (simp add: a'_def ceil_div_mult)
  have k: "0 < a * b" "a * b \<le> MAX_RESERVE * MAX_RESERVE" using r mult_mono[of a MAX_RESERVE b MAX_RESERVE] by simp_all
  have avg: "n \<noteq> 0 \<longrightarrow> collateral * 1000000 div (a + n - a') \<le> 20000000000 \<and> 0 \<le> collateral * 1000000 div (a + n - a')"
    using net_price[of n collateral "a + n - a'"] n a' True by (auto simp: pos_imp_zdiv_nonneg_iff)
  have split: "apply_fee collateral fee = Ok \<lparr>split_net = n, split_fee = ceil_div (collateral * fee) 10000\<rparr>"
    using apply_fee_ok[OF assms(2)] True fee by (simp add: n_def)
  have div: "(a * b + (b + n - 1)) div (b + n) = a'" by (simp add: a'_def ceil_div_def algebra_simps)
  show ?thesis
    using True r n a' k avg a0
    by (auto simp: quote_buy_def buy_spec_def split ab Let_def to_u128_def max_reserve_u128_def width_defs
        udiv_def div n_def[symmetric] a'_def[symmetric] pool_of_sides)
qed

section \<open>The sell quote in closed form\<close>

text \<open>Burning \<open>c\<close> complete sets out of the grown reserves keeps the product; the reference is the largest
  such burn.\<close>

definition keeps :: "int \<Rightarrow> int \<Rightarrow> int \<Rightarrow> int \<Rightarrow> bool" where
  "keeps a b s c \<longleftrightarrow> c \<le> b \<and> c \<le> a + s \<and> a * b \<le> (a + s - c) * (b - c)"

definition max_burn :: "int \<Rightarrow> int \<Rightarrow> int \<Rightarrow> int" where
  "max_burn a b s = Max (Set.filter (keeps a b s) {0..b})"

lemma keeps_antimono: "keeps a b s c \<Longrightarrow> d \<le> c \<Longrightarrow> keeps a b s d"
  unfolding keeps_def using mult_mono[of "a + s - c" "a + s - d" "b - c" "b - d"] by auto

lemma max_burnI:
  assumes "0 \<le> c" "keeps a b s c" "\<not> keeps a b s (c + 1)"
  shows "max_burn a b s = c"
  unfolding max_burn_def
proof (rule Max_eqI)
  show "c \<in> Set.filter (keeps a b s) {0..b}" using assms by (auto simp: keeps_def)
  show "y \<le> c" if "y \<in> Set.filter (keeps a b s) {0..b}" for y
    using that assms keeps_antimono[of a b s y "c + 1"] by force
  show "finite (Set.filter (keeps a b s) {0..b})" by (rule finite_subset[of _ "{0..b}"]) auto
qed

lemma le_iff_diff4: "x - d = 4 * (p - k) \<Longrightarrow> k \<le> p \<longleftrightarrow> d \<le> x" for x d p k :: int
  by auto

lemma keeps_square:
  fixes a b s c :: int
  assumes "c \<le> b" "c \<le> a + s"
  shows "keeps a b s c \<longleftrightarrow> (a + s + b)\<^sup>2 - 4 * (s * b) \<le> (a + s + b - 2 * c)\<^sup>2"
proof -
  have "(a + s + b - 2 * c)\<^sup>2 - ((a + s + b)\<^sup>2 - 4 * (s * b)) = 4 * ((a + s - c) * (b - c) - a * b)"
    by (simp add: power2_eq_square algebra_simps)
  then have "a * b \<le> (a + s - c) * (b - c) \<longleftrightarrow> (a + s + b)\<^sup>2 - 4 * (s * b) \<le> (a + s + b - 2 * c)\<^sup>2"
    by (rule le_iff_diff4)
  then show ?thesis using assms by (simp add: keeps_def)
qed

lemma sell_root:
  fixes a b s root :: int
  assumes "0 < a" "0 < b" "0 < s" "0 \<le> root"
    and root: "root\<^sup>2 \<le> (a + s + b)\<^sup>2 - 4 * (s * b)" "(a + s + b)\<^sup>2 - 4 * (s * b) < (root + 1)\<^sup>2"
  defines "c \<equiv> (a + s + b - root) div 2"
  shows "0 \<le> a + s + b - root" "c \<le> b" "c \<le> a + s" "\<not> keeps a b s (c + 1)" "keeps a b s (c - 1)"
    "c = b \<longleftrightarrow> b * (2 * a + 1) \<le> a + s"
proof -
  let ?B = "a + s + b" and ?D = "(a + s + b)\<^sup>2 - 4 * (s * b)"
  have D: "?D = (a + s - b)\<^sup>2 + 4 * (a * b)" by (simp add: power2_eq_square algebra_simps)
  have pos: "0 < a * b" "0 < s * b" using assms by simp_all
  have "root\<^sup>2 \<le> ?B\<^sup>2" using root pos by linarith
  then have rB: "root \<le> ?B" using assms(1-4) power2_le_imp_le[of root "?B"] by simp
  then show "0 \<le> ?B - root" by simp
  have "(a + s - b)\<^sup>2 < (root + 1)\<^sup>2" using root D pos by linarith
  then have "\<bar>a + s - b\<bar> < root + 1"
    using power2_less_imp_less[of "\<bar>a + s - b\<bar>" "root + 1"] assms(4) by simp
  then have ge: "a + s - b \<le> root" "b - a - s \<le> root" by auto
  have c: "?B - 2 * c = root \<or> ?B - 2 * c = root + 1" unfolding c_def by presburger
  show cb: "c \<le> b" "c \<le> a + s" using c ge by auto
  show "\<not> keeps a b s (c + 1)"
  proof
    assume k: "keeps a b s (c + 1)"
    then have le: "c + 1 \<le> b" "c + 1 \<le> a + s" by (simp_all add: keeps_def)
    then have "(?B - 2 * (c + 1))\<^sup>2 \<le> (root - 1)\<^sup>2" using c by (intro power_mono) auto
    moreover have "(root - 1)\<^sup>2 < root\<^sup>2" using le c by (intro power_strict_mono) auto
    ultimately show False using k root(1) keeps_square[OF le] by simp
  qed
  have "(root + 1)\<^sup>2 \<le> (?B - 2 * (c - 1))\<^sup>2" using c assms(4) by (intro power_mono) auto
  then show "keeps a b s (c - 1)" using root(2) cb by (subst keeps_square) auto
  have "c = b \<longleftrightarrow> root \<le> a + s - b" using c ge by auto
  also have "\<dots> \<longleftrightarrow> ?D < (a + s - b + 1)\<^sup>2 \<and> 0 \<le> a + s - b"
  proof
    assume l: "root \<le> a + s - b"
    then have "(root + 1)\<^sup>2 \<le> (a + s - b + 1)\<^sup>2" using assms(4) by (intro power_mono) auto
    then show "?D < (a + s - b + 1)\<^sup>2 \<and> 0 \<le> a + s - b" using root l assms(4) by linarith
  next
    assume "?D < (a + s - b + 1)\<^sup>2 \<and> 0 \<le> a + s - b"
    then have "root\<^sup>2 < (a + s - b + 1)\<^sup>2" "0 \<le> a + s - b + 1" using root by linarith+
    then have "root < a + s - b + 1" by (rule power2_less_imp_less)
    then show "root \<le> a + s - b" by simp
  qed
  also have "?D < (a + s - b + 1)\<^sup>2 \<longleftrightarrow> 2 * (a * b) \<le> a + s - b"
    unfolding D by (auto simp: power2_eq_square algebra_simps)
  also have "\<dots> \<and> 0 \<le> a + s - b \<longleftrightarrow> b * (2 * a + 1) \<le> a + s" using pos by (auto simp: algebra_simps)
  finally show "c = b \<longleftrightarrow> b * (2 * a + 1) \<le> a + s" .
qed

lemma burn_loop_step:
  assumes "0 < a" "a \<le> MAX_RESERVE" "0 < b" "b \<le> MAX_RESERVE" "0 < s" "s \<le> MAX_AMOUNT"
    and "0 < c" "c \<le> b" "c \<le> a + s"
  shows "burn_loop a b s (a * b) c = (if keeps a b s c then Ok c else burn_loop a b s (a * b) (c - 1))"
proof -
  have "(a + s - c) * (b - c) \<le> (2 * MAX_RESERVE) * MAX_RESERVE" using assms by (intro mult_mono) auto
  moreover have "0 \<le> (a + s - c) * (b - c)" using assms by simp
  ultimately show ?thesis using assms by (subst burn_loop.simps) (simp add: width_defs keeps_def)
qed

lemma burn_loop_max:
  assumes "0 < a" "a \<le> MAX_RESERVE" "0 < b" "b \<le> MAX_RESERVE" "0 < s" "s \<le> MAX_AMOUNT"
    and "0 \<le> c" "c \<le> b" "c \<le> a + s" "\<not> keeps a b s (c + 1)" "keeps a b s (c - 1)"
  shows "burn_loop a b s (a * b) c =
    (if max_burn a b s = 0 then Err AmountTooSmall else Ok (max_burn a b s))"
proof -
  have k0: "keeps a b s 0" using assms by (simp add: keeps_def distrib_right)
  consider "c = 0" | "0 < c" "keeps a b s c" | "0 < c" "\<not> keeps a b s c" using assms(7) by linarith
  then show ?thesis
  proof cases
    case 1
    then have "max_burn a b s = 0" using max_burnI[of 0 a b s] k0 assms by simp
    then show ?thesis using 1 by (simp add: burn_loop.simps)
  next
    case 2
    then have "max_burn a b s = c" using max_burnI[of c a b s] assms by simp
    then show ?thesis using 2 assms by (simp add: burn_loop_step)
  next
    case 3
    then have m: "max_burn a b s = c - 1" using max_burnI[of "c - 1" a b s] assms by simp
    have "burn_loop a b s (a * b) c = burn_loop a b s (a * b) (c - 1)" using 3 assms by (simp add: burn_loop_step)
    also have "\<dots> = (if c - 1 = 0 then Err AmountTooSmall else Ok (c - 1))"
    proof (cases "c = 1")
      case True
      then show ?thesis by (simp add: burn_loop.simps)
    next
      case False
      then show ?thesis using 3 assms burn_loop_step[of a b s "c - 1"] by simp
    qed
    finally show ?thesis by (simp add: m)
  qed
qed

definition sell_spec :: "Pool \<Rightarrow> Side \<Rightarrow> int \<Rightarrow> int \<Rightarrow> (AmmError, SellQuote) outcome" where
  "sell_spec pool side s fee =
     (let (a, b) = reserves pool side;
          c = max_burn a b s;
          f = ceil_div (c * fee) 10000
      in if s \<le> 0 then Err AmountTooSmall
      else if MAX_AMOUNT < s then Err InputTooLarge
      else if b * (2 * a + 1) \<le> a + s then Err DrainsPool
      else if c = 0 then Err AmountTooSmall
      else if MAX_RESERVE < a + s - c \<or> 10000 < fee then Err InputTooLarge
      else Ok \<lparr>collateral_out = c - f, sell_fee = f,
               sell_pool_after = pool_with side (a + s - c) (b - c) (pool_fee pool)\<rparr>)"

lemma max_burn_bounds:
  assumes "0 < a" "0 < b" "0 \<le> s"
  shows "keeps a b s (max_burn a b s)" "0 \<le> max_burn a b s" "max_burn a b s < b"
    "keeps a b s c \<Longrightarrow> c \<le> max_burn a b s"
proof -
  let ?M = "Set.filter (keeps a b s) {0..b}"
  have f: "finite ?M" by (rule finite_subset[of _ "{0..b}"]) auto
  have "0 \<in> ?M" using assms by (simp add: keeps_def distrib_right)
  then have m: "max_burn a b s \<in> ?M" unfolding max_burn_def using Max_in[OF f] by blast
  have le: "c \<in> ?M \<Longrightarrow> c \<le> max_burn a b s" for c unfolding max_burn_def using f by (rule Max_ge)
  show k: "keeps a b s (max_burn a b s)" "0 \<le> max_burn a b s" using m by auto
  have "\<not> keeps a b s b" using assms by (simp add: keeps_def not_le)
  then show "max_burn a b s < b" using k by (metis keeps_def le_less)
  show "c \<le> max_burn a b s" if "keeps a b s c"
    using le[of c] that k(2) by (cases "0 \<le> c") (auto simp: keeps_def)
qed

lemma sell_fits:
  assumes "0 < a" "a \<le> MAX_RESERVE" "0 < b" "b \<le> MAX_RESERVE" "0 < s" "s \<le> MAX_AMOUNT"
  shows "fits_u128 (a * b)" "fits_u128 (a + s)" "fits_u128 (a + s + b)" "fits_u128 (s * b)"
    "fits_u128 (s * b * 4)" "fits_u128 ((a + s + b) * (a + s + b))"
    "fits_u128 ((a + s + b) * (a + s + b) - s * b * 4)"
proof -
  let ?B = "a + s + b"
  have "?B * ?B - s * b * 4 = (a + s - b) * (a + s - b) + 4 * (a * b)" by (simp add: algebra_simps)
  then have "0 \<le> ?B * ?B - s * b * 4" using assms by simp
  moreover have "0 \<le> s * b" using assms by simp
  moreover have "?B * ?B \<le> 9000000000000000000000000000000"
    using assms mult_mono[of "?B" "3 * MAX_RESERVE" "?B" "3 * MAX_RESERVE"] by simp
  ultimately show "fits_u128 (?B * ?B - s * b * 4)" unfolding width_defs by linarith
  show "fits_u128 (a * b)" "fits_u128 (a + s)" "fits_u128 (a + s + b)" "fits_u128 (s * b)"
    "fits_u128 (s * b * 4)" "fits_u128 ((a + s + b) * (a + s + b))"
    using assms mult_mono[of a MAX_RESERVE b MAX_RESERVE] mult_mono[of s MAX_RESERVE b MAX_RESERVE]
      \<open>?B * ?B \<le> _\<close> by (simp_all add: width_defs)
qed

lemma quote_sell_eq:
  assumes "wf_pool pool" "fits_u16 fee"
  shows "quote_sell pool side s fee = sell_spec pool side s fee"
proof (cases "0 < s \<and> s \<le> MAX_AMOUNT")
  case False
  then show ?thesis by (auto simp: quote_sell_def sell_spec_def split_beta)
next
  case True
  obtain a b where ab: "reserves pool side = (a, b)" by (cases "reserves pool side")
  have r: "0 < a" "a \<le> MAX_RESERVE" "0 < b" "b \<le> MAX_RESERVE" using wf_pool_reserves[OF assms(1) ab] by auto
  let ?B = "a + s + b" and ?D = "(a + s + b)\<^sup>2 - 4 * (s * b)"
  have "?D = (a + s - b)\<^sup>2 + 4 * (a * b)" by (simp add: power2_eq_square algebra_simps)
  then have D0: "0 \<le> ?D" using r by simp
  then obtain root where root: "(isqrt_u128 ?D :: (AmmError, u128) outcome) = Ok root" "0 \<le> root"
      "root\<^sup>2 \<le> ?D" "?D < (root + 1)\<^sup>2"
    by (rule isqrt_u128_floor)
  note R = sell_root[OF r(1,3) _ root(2,3,4)]
  let ?z = "(?B - root) div 2" and ?c = "max_burn a b s"
  have c0: "0 \<le> ?B - root" "?z \<le> b" "?z \<le> a + s" "\<not> keeps a b s (?z + 1)" "keeps a b s (?z - 1)"
     "b \<le> ?z \<longleftrightarrow> b * (2 * a + 1) \<le> a + s" "0 \<le> ?z"
    using R True by auto
  have loop: "burn_loop a b s (a * b) ?z = (if ?c = 0 then Err AmountTooSmall else Ok ?c)"
    using burn_loop_max[OF r _ _ c0(7,2,3,4,5)] True by simp
  have cb: "0 \<le> ?c" "?c < b" "?c \<le> a + s" using max_burn_bounds[of a b s] r True by (auto simp: keeps_def)
  have split: "fee \<le> 10000 \<Longrightarrow> apply_fee ?c fee = Ok \<lparr>split_net = ?c - ceil_div (?c * fee) 10000,
      split_fee = ceil_div (?c * fee) 10000\<rparr>"
    using apply_fee_ok[of ?c fee] cb r assms(2) by (simp add: width_defs)
  have caps: "fits_u128 (?B - root)" "fits_u128 (a + s - ?c)" "fits_u128 (b - ?c)" "fits_i64 ?c" "fits_i64 (b - ?c)"
    using r True cb c0(1) root(2) by (simp_all add: width_defs)
  have own: "\<not> MAX_RESERVE < a + s - ?c \<Longrightarrow> fits_i64 (a + s - ?c)" using cb by (simp add: width_defs)
  have high: "10000 < fee \<Longrightarrow> apply_fee ?c fee = Err FeeTooHigh" using cb by (simp add: apply_fee_def)
  note fits = sell_fits[OF r conjunct1[OF True] conjunct2[OF True]]
  have isq: "(isqrt_u128 (?B * ?B - s * b * 4) :: (AmmError, u128) outcome) = Ok root"
    using root(1) by (simp add: power2_eq_square mult.commute)
  show ?thesis
    using True r cb c0(6)
    by (auto simp: quote_sell_def sell_spec_def ab Let_def to_u128_def max_reserve_u128_def fits caps isq loop split own high
        pool_of_sides)
qed

section \<open>What both quotes promise\<close>

text \<open>The contract a client of a quote relies on: the pool stays well formed, keeps its fee, and its
  product does not shrink. Both quotes of the code provide it.\<close>

locale pool_quote =
  fixes quote :: "Pool \<Rightarrow> Side \<Rightarrow> i64 \<Rightarrow> basis_points \<Rightarrow> (AmmError, 'q) outcome"
    and after :: "'q \<Rightarrow> Pool"
  assumes quote_wf: "wf_pool p \<Longrightarrow> fits_i64 x \<Longrightarrow> fits_u16 f \<Longrightarrow> quote p side x f = Ok q \<Longrightarrow> wf_pool (after q)"
    and quote_product: "wf_pool p \<Longrightarrow> fits_i64 x \<Longrightarrow> fits_u16 f \<Longrightarrow> quote p side x f = Ok q \<Longrightarrow>
      pool_yes p * pool_no p \<le> pool_yes (after q) * pool_no (after q)"
    and quote_fee: "wf_pool p \<Longrightarrow> fits_i64 x \<Longrightarrow> fits_u16 f \<Longrightarrow> quote p side x f = Ok q \<Longrightarrow>
      pool_fee (after q) = pool_fee p"
    and quote_total: "wf_pool p \<Longrightarrow> fits_i64 x \<Longrightarrow> fits_u16 f \<Longrightarrow>
      quote p side x f \<noteq> Panic \<and> quote p side x f \<noteq> Err AmmOverflow \<and> quote p side x f \<noteq> Err EmptyPool"
begin

lemma quote_pool:
  assumes "wf_pool p" "fits_i64 x" "fits_u16 f" "quote p side x f = Ok q"
  shows "wf_pool (after q) \<and> pool_fee (after q) = pool_fee p \<and>
    pool_yes p * pool_no p \<le> pool_yes (after q) * pool_no (after q)"
  using quote_wf[OF assms] quote_product[OF assms] quote_fee[OF assms] by simp

end

text \<open>What a buy and a sell do to the two reserves, the proceeds and the fee.\<close>

lemma quote_buy_Ok:
  assumes "wf_pool p" "fits_i64 x" "fits_u16 f" "quote_buy p side x f = Ok q" "reserves p side = (a, b)"
  obtains n where "n = x - buy_fee q" "0 < n" "0 \<le> buy_fee q" "b + n \<le> MAX_RESERVE"
    "shares_out q = a + n - ceil_div (a * b) (b + n)"
    "buy_pool_after q = pool_with side (ceil_div (a * b) (b + n)) (b + n) (pool_fee p)"
proof -
  from assms have x: "0 \<le> x" "f \<le> 10000" "0 \<le> f"
    by (auto simp: quote_buy_eq buy_spec_def Let_def width_defs split: if_splits)
  note n = net_bounds[OF x(1,3,2)]
  show thesis
    using assms n ceil_div_nonneg[of 10000 "x * f"] x
    by (intro that[of "x - buy_fee q"]) (auto simp: quote_buy_eq buy_spec_def Let_def split: if_splits)
qed

lemma quote_sell_Ok:
  assumes "wf_pool p" "fits_u16 f" "quote_sell p side s f = Ok q" "reserves p side = (a, b)"
  obtains c where "c = collateral_out q + sell_fee q" "c = max_burn a b s" "0 < c" "c < b" "keeps a b s c"
    "0 \<le> sell_fee q" "0 \<le> collateral_out q" "a + s - c \<le> MAX_RESERVE" "0 < s"
    "sell_pool_after q = pool_with side (a + s - c) (b - c) (pool_fee p)"
proof -
  let ?c = "max_burn a b s"
  from assms have s: "0 < s" "?c \<noteq> 0" "f \<le> 10000" "0 \<le> f"
    by (auto simp: quote_sell_eq sell_spec_def Let_def width_defs split: if_splits)
  have "0 < a" "0 < b" using wf_pool_reserves[OF assms(1,4)] by auto
  note m = max_burn_bounds[OF this, of s]
  have c: "0 \<le> ?c" using m s by simp
  note n = net_bounds[OF c s(4,3)]
  show thesis
    using assms m n s c ceil_div_nonneg[of 10000 "?c * f"]
    by (intro that[of ?c]) (auto simp: quote_sell_eq sell_spec_def Let_def split: if_splits)
qed

interpretation buy: pool_quote quote_buy buy_pool_after
proof
  fix p x f side q
  assume h: "wf_pool p" "fits_i64 x" "fits_u16 f"
  show "quote_buy p side x f \<noteq> Panic \<and> quote_buy p side x f \<noteq> Err AmmOverflow \<and> quote_buy p side x f \<noteq> Err EmptyPool"
    using h by (auto simp: quote_buy_eq buy_spec_def Let_def split_beta)
  obtain a b where ab: "reserves p side = (a, b)" by (cases "reserves p side")
  assume q: "quote_buy p side x f = Ok q"
  have r: "0 < a" "a \<le> MAX_RESERVE" "0 < b" using wf_pool_reserves[OF h(1) ab] by auto
  from quote_buy_Ok[OF h q ab] obtain n where n: "0 < n" "b + n \<le> MAX_RESERVE"
    and after: "buy_pool_after q = pool_with side (ceil_div (a * b) (b + n)) (b + n) (pool_fee p)" by blast
  have k: "0 < ceil_div (a * b) (b + n)" "ceil_div (a * b) (b + n) \<le> a"
    "a * b \<le> ceil_div (a * b) (b + n) * (b + n)"
    using retained[of a b n] r n by auto
  show "wf_pool (buy_pool_after q)" unfolding after using h(1) r n k by (intro wf_pool_with) auto
  show "pool_fee (buy_pool_after q) = pool_fee p" unfolding after by simp
  show "pool_yes p * pool_no p \<le> pool_yes (buy_pool_after q) * pool_no (buy_pool_after q)"
    unfolding after product_reserves[OF ab] product_reserves[OF reserves_pool_with] by (rule k)
qed

interpretation sell: pool_quote quote_sell sell_pool_after
proof
  fix p x f side q
  assume h: "wf_pool p" "fits_i64 x" "fits_u16 f"
  show "quote_sell p side x f \<noteq> Panic \<and> quote_sell p side x f \<noteq> Err AmmOverflow \<and> quote_sell p side x f \<noteq> Err EmptyPool"
    using h by (auto simp: quote_sell_eq sell_spec_def Let_def split_beta)
  obtain a b where ab: "reserves p side = (a, b)" by (cases "reserves p side")
  assume q: "quote_sell p side x f = Ok q"
  have r: "0 < a" "b \<le> MAX_RESERVE" using wf_pool_reserves[OF h(1) ab] by auto
  from quote_sell_Ok[OF h(1,3) q ab] obtain c where c: "0 < c" "c < b" "keeps a b x c" "a + x - c \<le> MAX_RESERVE"
    and after: "sell_pool_after q = pool_with side (a + x - c) (b - c) (pool_fee p)" by blast
  have k: "a * b \<le> (a + x - c) * (b - c)" "0 \<le> a + x - c" using c(3) by (auto simp: keeps_def)
  have "0 < a * b" using r c by simp
  then have "a + x - c \<noteq> 0" using k by auto
  then show "wf_pool (sell_pool_after q)" unfolding after using h(1) r c k by (intro wf_pool_with) auto
  show "pool_fee (sell_pool_after q) = pool_fee p" unfolding after by simp
  show "pool_yes p * pool_no p \<le> pool_yes (sell_pool_after q) * pool_no (sell_pool_after q)"
    unfolding after product_reserves[OF ab] product_reserves[OF reserves_pool_with] by (rule k)
qed

section \<open>Trading sessions\<close>

text \<open>A sequence of quotes taken against one pool by one trader (or several acting together): the shares
  held of each outcome and the collateral paid in minus the collateral taken out, fees included.\<close>

datatype order = BuyOrder Side micro_usd basis_points | SellOrder Side micro_shares basis_points

record session =
  session_pool :: Pool
  held_yes :: int
  held_no :: int
  paid_in :: int
  fees_paid :: int

definition session_start :: "Pool \<Rightarrow> session" where
  "session_start p = \<lparr>session_pool = p, held_yes = 0, held_no = 0, paid_in = 0, fees_paid = 0\<rparr>"

definition hold :: "Side \<Rightarrow> int \<Rightarrow> session \<Rightarrow> session" where
  "hold side d t = (case side of Yes \<Rightarrow> t\<lparr>held_yes := held_yes t + d\<rparr> | No \<Rightarrow> t\<lparr>held_no := held_no t + d\<rparr>)"

fun take_order :: "session \<Rightarrow> order \<Rightarrow> (AmmError, session) outcome" where
  "take_order t (BuyOrder side x f) =
     and_then (quote_buy (session_pool t) side x f) (\<lambda>q.
     Ok ((hold side (shares_out q) t)\<lparr>session_pool := buy_pool_after q, paid_in := paid_in t + x,
         fees_paid := fees_paid t + buy_fee q\<rparr>))"
| "take_order t (SellOrder side s f) =
     and_then (quote_sell (session_pool t) side s f) (\<lambda>q.
     Ok ((hold side (- s) t)\<lparr>session_pool := sell_pool_after q, paid_in := paid_in t - collateral_out q,
         fees_paid := fees_paid t + sell_fee q\<rparr>))"

fun wf_order :: "order \<Rightarrow> bool" where
  "wf_order (BuyOrder _ x f) \<longleftrightarrow> fits_i64 x \<and> fits_u16 f"
| "wf_order (SellOrder _ s f) \<longleftrightarrow> fits_i64 s \<and> fits_u16 f"

text \<open>Complete sets are conserved: every share is in the pool or held, and both sides are minted and
  burned together against the collateral net of fees.\<close>

definition session_inv :: "Pool \<Rightarrow> session \<Rightarrow> bool" where
  "session_inv p t \<longleftrightarrow> wf_pool (session_pool t) \<and> pool_fee (session_pool t) = pool_fee p \<and> 0 \<le> fees_paid t \<and>
     pool_yes p * pool_no p \<le> pool_yes (session_pool t) * pool_no (session_pool t) \<and>
     pool_yes (session_pool t) + held_yes t = pool_yes p + (paid_in t - fees_paid t) \<and>
     pool_no (session_pool t) + held_no t = pool_no p + (paid_in t - fees_paid t)"

lemma hold_simps [simp]:
  "session_pool (hold side d t) = session_pool t" "paid_in (hold side d t) = paid_in t"
  "fees_paid (hold side d t) = fees_paid t"
  "held_yes (hold side d t) = held_yes t + (if side = Yes then d else 0)"
  "held_no (hold side d t) = held_no t + (if side = No then d else 0)"
  by (simp_all add: hold_def split: Side.split)

lemma reserves_side: "reserves p Yes = (pool_yes p, pool_no p)" "reserves p No = (pool_no p, pool_yes p)"
  by (simp_all add: reserves_def)

lemma session_inv_start: "wf_pool p \<Longrightarrow> session_inv p (session_start p)"
  by (simp add: session_inv_def session_start_def)

lemma session_inv_step:
  assumes inv: "session_inv p t" and wf: "wf_order ord" and step: "take_order t ord = Ok t'"
  shows "session_inv p t'"
proof (cases ord)
  case (BuyOrder side x f)
  with step obtain q where q: "quote_buy (session_pool t) side x f = Ok q"
    and t': "t' = (hold side (shares_out q) t)\<lparr>session_pool := buy_pool_after q, paid_in := paid_in t + x,
         fees_paid := fees_paid t + buy_fee q\<rparr>" by auto
  have w: "wf_pool (session_pool t)" "fits_i64 x" "fits_u16 f" using inv wf BuyOrder by (auto simp: session_inv_def)
  note keep = buy.quote_pool[OF w q]
  show ?thesis
  proof (cases side)
    case Yes
    show ?thesis
      by (rule quote_buy_Ok[OF w q[unfolded Yes] reserves_side(1)])
        (use inv keep Yes in \<open>auto simp: session_inv_def t' pool_with_def sides_def\<close>)
  next
    case No
    show ?thesis
      by (rule quote_buy_Ok[OF w q[unfolded No] reserves_side(2)])
        (use inv keep No in \<open>auto simp: session_inv_def t' pool_with_def sides_def\<close>)
  qed
next
  case (SellOrder side s f)
  with step obtain q where q: "quote_sell (session_pool t) side s f = Ok q"
    and t': "t' = (hold side (- s) t)\<lparr>session_pool := sell_pool_after q, paid_in := paid_in t - collateral_out q,
         fees_paid := fees_paid t + sell_fee q\<rparr>" by auto
  have w: "wf_pool (session_pool t)" "fits_i64 s" "fits_u16 f" using inv wf SellOrder by (auto simp: session_inv_def)
  note keep = sell.quote_pool[OF w q]
  show ?thesis
  proof (cases side)
    case Yes
    show ?thesis
      by (rule quote_sell_Ok[OF w(1,3) q[unfolded Yes] reserves_side(1)])
        (use inv keep Yes in \<open>auto simp: session_inv_def t' pool_with_def sides_def\<close>)
  next
    case No
    show ?thesis
      by (rule quote_sell_Ok[OF w(1,3) q[unfolded No] reserves_side(2)])
        (use inv keep No in \<open>auto simp: session_inv_def t' pool_with_def sides_def\<close>)
  qed
qed

lemma session_inv_run:
  assumes "wf_pool p" "list_all wf_order ords" "try_fold take_order ords (session_start p) = Ok t"
  shows "session_inv p t"
  using assms(3) session_inv_start[OF assms(1)]
  by (rule try_fold_inv) (use assms(2) session_inv_step in \<open>auto simp: list_all_iff\<close>)

text \<open>
  C5. No arbitrage against the pool: whatever buys and sells are taken, on either side, in any order and
  at any fees, the collateral paid in (net of what was taken out and of the fees) is at least the payout
  the shares held guarantee whichever side wins; in particular buying and selling everything back never
  makes a profit. Along the way the reserves stay positive and inside the cap and their product never
  shrinks.
\<close>

theorem no_arbitrage:
  assumes "wf_pool p" "list_all wf_order ords" "try_fold take_order ords (session_start p) = Ok t"
  shows "min (held_yes t) (held_no t) + fees_paid t \<le> paid_in t \<and> 0 \<le> fees_paid t \<and>
    wf_pool (session_pool t) \<and>
    pool_yes p * pool_no p \<le> pool_yes (session_pool t) * pool_no (session_pool t)"
proof -
  have inv: "session_inv p t" using assms by (rule session_inv_run)
  let ?a = "pool_yes p" and ?b = "pool_no p" and ?a' = "pool_yes (session_pool t)" and ?b' = "pool_no (session_pool t)"
  have "\<not> (?a' < ?a \<and> ?b' < ?b)"
  proof
    assume l: "?a' < ?a \<and> ?b' < ?b"
    have "?a' * ?b' < ?a * ?b"
      using l inv by (intro mult_strict_mono) (auto simp: session_inv_def wf_pool_def)
    then show False using inv by (simp add: session_inv_def)
  qed
  then show ?thesis using inv by (auto simp: session_inv_def)
qed

definition example_pool :: Pool where
  "example_pool = \<lparr>pool_yes = 1000, pool_no = 1500, pool_fee = 100\<rparr>"

definition example_orders :: "order list" where
  "example_orders = [BuyOrder Yes 200 100, BuyOrder No 50 100, SellOrder Yes 150 0, SellOrder No 20 100]"

lemma example_pool_wf: "wf_pool example_pool"
  by (simp add: example_pool_def wf_pool_def width_defs)

theorem no_arbitrage_witness:
  "\<exists>t. try_fold take_order example_orders (session_start example_pool) = Ok t \<and>
     min (held_yes t) (held_no t) + fees_paid t \<le> paid_in t"
proof -
  have w: "list_all wf_order example_orders" by (simp add: example_orders_def width_defs)
  have "is_ok (try_fold take_order example_orders (session_start example_pool))" by code_simp
  then obtain t where "try_fold take_order example_orders (session_start example_pool) = Ok t"
    by (cases "try_fold take_order example_orders (session_start example_pool)") auto
  with no_arbitrage[OF example_pool_wf w] show ?thesis by blast
qed

text \<open>
  C12. On a well-formed pool \<open>quote_buy\<close> is its closed form: it never panics or overflows, every error is the
  one whose condition holds first, the fee is split off exactly, the opposite reserve takes the whole net
  amount and the pool retains the ceiling of the constant product.
\<close>

theorem quote_buy_closed_form:
  assumes "wf_pool pool" "fits_i64 collateral" "fits_u16 fee"
  shows "quote_buy pool side collateral fee = buy_spec pool side collateral fee"
  using assms by (rule quote_buy_eq)

theorem quote_buy_closed_form_witness:
  "quote_buy example_pool Yes 200 100 = Ok \<lparr>shares_out = 314, buy_fee = 2,
     buy_pool_after = \<lparr>pool_yes = 884, pool_no = 1698, pool_fee = 100\<rparr>,
     avg_price_micro_per_share = 636942\<rparr>"
proof -
  have "fits_i64 200" "fits_u16 100" by (simp_all add: width_defs)
  from quote_buy_closed_form[OF example_pool_wf this, of Yes] show ?thesis by simp code_simp
qed

text \<open>
  C10. On a well-formed pool \<open>quote_sell\<close> is its closed form: the integer square root and the descent find
  the largest number of complete sets whose burning does not shrink the product (or a drained pool, exactly
  when \<open>other * (2 * sell + 1) \<le> sell + shares\<close>), without panic or overflow and with every error on its own
  condition.
\<close>

theorem quote_sell_closed_form:
  assumes "wf_pool pool" "fits_u16 fee"
  shows "quote_sell pool side shares fee = sell_spec pool side shares fee"
  using assms by (rule quote_sell_eq)

theorem quote_sell_closed_form_witness:
  "quote_sell \<lparr>pool_yes = 10, pool_no = 15, pool_fee = 100\<rparr> No 9 100 = Ok \<lparr>collateral_out = 1, sell_fee = 1,
     sell_pool_after = \<lparr>pool_yes = 8, pool_no = 22, pool_fee = 100\<rparr>\<rparr>"
proof -
  have "wf_pool \<lparr>pool_yes = 10, pool_no = 15, pool_fee = 100\<rparr>" "fits_u16 100"
    by (simp_all add: wf_pool_def width_defs)
  from quote_sell_closed_form[OF this, of No 9] show ?thesis by simp code_simp
qed

section \<open>Prices\<close>

lemma price_micro_eq:
  assumes "wf_pool p" "reserves p side = (a, b)"
  shows "price_micro p side = Ok (b * 1000000 div (a + b))" "0 \<le> b * 1000000 div (a + b)"
    "b * 1000000 div (a + b) \<le> 1000000"
proof -
  have r: "0 < a" "a \<le> MAX_RESERVE" "0 < b" "b \<le> MAX_RESERVE" using wf_pool_reserves[OF assms] by auto
  have "b * 1000000 div (a + b) \<le> 1000000 * (a + b) div (a + b)" using r by (intro zdiv_mono1) auto
  also have "\<dots> = 1000000" using r by (intro nonzero_mult_div_cancel_right) auto
  finally show le: "b * 1000000 div (a + b) \<le> 1000000" .
  show ge: "0 \<le> b * 1000000 div (a + b)" using r by (simp add: pos_imp_zdiv_nonneg_iff)
  show "price_micro p side = Ok (b * 1000000 div (a + b))"
  proof (cases side)
    case Yes
    then have "pool_yes p = a" "pool_no p = b" using assms(2) by (simp_all add: reserves_side)
    then show ?thesis using r le ge Yes
      by (simp add: price_micro_def to_u128_def udiv_def width_defs)
  next
    case No
    then have "pool_yes p = b" "pool_no p = a" using assms(2) by (simp_all add: reserves_side)
    then show ?thesis using r le ge No
      by (simp add: price_micro_def to_u128_def udiv_def width_defs add.commute[of b a])
  qed
qed

lemma price_mono:
  fixes a b a' b' :: int
  assumes "0 < a'" "0 < b" "a' \<le> a" "b \<le> b'"
  shows "b * 1000000 div (a + b) \<le> b' * 1000000 div (a' + b')"
proof -
  have p: "0 < a + b" "0 < a' + b'" using assms by auto
  let ?x = "b * 1000000 div (a + b)"
  have "?x * (a + b) \<le> b * 1000000" using p by (simp add: minus_mod_eq_div_mult[symmetric])
  moreover have "b * a' \<le> b' * a" using assms by (intro mult_mono) auto
  ultimately have "(?x * (a + b)) * (a' + b') \<le> (b' * 1000000) * (a + b)"
    using mult_right_mono[of "?x * (a + b)" "b * 1000000" "a' + b'"] p by (simp add: algebra_simps)
  then have "(?x * (a' + b')) * (a + b) \<le> (b' * 1000000) * (a + b)" by (simp only: mult_ac)
  then have "?x * (a' + b') \<le> b' * 1000000" using p(1) by (rule mult_right_le_imp_le)
  then have "?x * (a' + b') div (a' + b') \<le> b' * 1000000 div (a' + b')" using p(2) by (rule zdiv_mono1)
  then show ?thesis using p(2) by simp
qed

lemma price_complement:
  fixes a b :: int
  assumes "0 < a" "0 < b"
  shows "b * 1000000 div (a + b) + a * 1000000 div (a + b) \<in> {999999, 1000000}"
proof -
  let ?x = "b * 1000000 div (a + b)" and ?y = "a * 1000000 div (a + b)" and ?d = "a + b"
  have "?x * ?d + b * 1000000 mod ?d = b * 1000000" "?y * ?d + a * 1000000 mod ?d = a * 1000000"
    by (rule div_mult_mod_eq)+
  moreover have "0 \<le> b * 1000000 mod ?d" "b * 1000000 mod ?d < ?d" "0 \<le> a * 1000000 mod ?d" "a * 1000000 mod ?d < ?d"
    using assms by simp_all
  moreover have "(?x + ?y) * ?d = ?x * ?d + ?y * ?d" by (rule distrib_right)
  moreover have "1000000 * ?d = a * 1000000 + b * 1000000" by simp
  ultimately have "(?x + ?y) * ?d \<le> 1000000 * ?d" "999998 * ?d < (?x + ?y) * ?d"
    unfolding left_diff_distrib by linarith+
  then have "?x + ?y \<le> 1000000" "999998 < ?x + ?y"
    using assms mult_right_le_imp_le[of "?x + ?y" ?d 1000000] mult_right_less_imp_less[of 999998 ?d "?x + ?y"] by simp_all
  then show ?thesis by auto
qed

lemma price_buy:
  assumes "wf_pool p" "fits_i64 x" "fits_u16 f" and q: "quote_buy p side x f = Ok q"
  shows "\<exists>v v'. price_micro p side = Ok v \<and> price_micro (buy_pool_after q) side = Ok v' \<and> v \<le> v'"
proof -
  obtain a b where ab: "reserves p side = (a, b)" by (cases "reserves p side")
  have pos: "0 < a" "0 < b" using wf_pool_reserves[OF assms(1) ab] by auto
  from quote_buy_Ok[OF assms ab] obtain n where n: "0 < n"
    and after: "buy_pool_after q = pool_with side (ceil_div (a * b) (b + n)) (b + n) (pool_fee p)" by blast
  have "price_micro (buy_pool_after q) side = Ok ((b + n) * 1000000 div (ceil_div (a * b) (b + n) + (b + n)))"
    using buy.quote_wf[OF assms] by (rule price_micro_eq) (simp add: after)
  moreover have "b * 1000000 div (a + b) \<le> (b + n) * 1000000 div (ceil_div (a * b) (b + n) + (b + n))"
    using retained[of a b n] pos n by (intro price_mono) auto
  ultimately show ?thesis using price_micro_eq(1)[OF assms(1) ab] by simp
qed

lemma price_sell:
  assumes "wf_pool p" "fits_i64 x" "fits_u16 f" and q: "quote_sell p side x f = Ok q"
  shows "\<exists>v v'. price_micro p side = Ok v \<and> price_micro (sell_pool_after q) side = Ok v' \<and> v' \<le> v"
proof -
  obtain a b where ab: "reserves p side = (a, b)" by (cases "reserves p side")
  have pos: "0 < a" "0 < b" using wf_pool_reserves[OF assms(1) ab] by auto
  from quote_sell_Ok[OF assms(1,3) q ab] obtain c where c: "0 < c" "c < b" "keeps a b x c" "0 < x"
    and after: "sell_pool_after q = pool_with side (a + x - c) (b - c) (pool_fee p)" by blast
  have "(a + x - c) * (b - c) \<le> (a + x - c) * b" using c by (intro mult_left_mono) (auto simp: keeps_def)
  then have "a * b \<le> (a + x - c) * b" using c(3) by (auto simp: keeps_def)
  then have le: "a \<le> a + x - c" using pos(2) by (rule mult_right_le_imp_le)
  have "price_micro (sell_pool_after q) side = Ok ((b - c) * 1000000 div (a + x - c + (b - c)))"
    using sell.quote_wf[OF assms] by (rule price_micro_eq) (simp add: after)
  moreover have "(b - c) * 1000000 div (a + x - c + (b - c)) \<le> b * 1000000 div (a + b)"
    using le c pos by (intro price_mono) auto
  ultimately show ?thesis using price_micro_eq(1)[OF assms(1) ab] by simp
qed

lemma price_sides:
  assumes "wf_pool p"
  shows "\<exists>y n. price_micro p Yes = Ok y \<and> price_micro p No = Ok n \<and>
      0 \<le> y \<and> y \<le> 1000000 \<and> 0 \<le> n \<and> n \<le> 1000000 \<and> y + n \<in> {999999, 1000000}"
proof -
  have r: "0 < pool_yes p" "0 < pool_no p" using assms(1) by (auto simp: wf_pool_def)
  note y = price_micro_eq[OF assms reserves_side(1)] and n = price_micro_eq[OF assms reserves_side(2)]
  show ?thesis using y n price_complement[OF r] by (simp add: add.commute)
qed

text \<open>
  C23. The displayed prices of a well-formed pool are defined, lie between 0 and one dollar, and those of
  the two sides add up to one dollar up to one micro-dollar of rounding; a buy never lowers the price of
  the side bought, and a sell never raises the price of the side sold.
\<close>

theorem price_moves:
  assumes "wf_pool p" "fits_i64 x" "fits_u16 f"
  shows "(\<exists>y n. price_micro p Yes = Ok y \<and> price_micro p No = Ok n \<and>
      0 \<le> y \<and> y \<le> 1000000 \<and> 0 \<le> n \<and> n \<le> 1000000 \<and> y + n \<in> {999999, 1000000}) \<and>
    (\<forall>q. quote_buy p side x f = Ok q \<longrightarrow>
      (\<exists>v v'. price_micro p side = Ok v \<and> price_micro (buy_pool_after q) side = Ok v' \<and> v \<le> v')) \<and>
    (\<forall>q. quote_sell p side x f = Ok q \<longrightarrow>
      (\<exists>v v'. price_micro p side = Ok v \<and> price_micro (sell_pool_after q) side = Ok v' \<and> v' \<le> v))"
  using price_sides[OF assms(1)] price_buy[OF assms] price_sell[OF assms] by blast

theorem price_moves_witness:
  "\<exists>q v v'. quote_buy example_pool No 50 100 = Ok q \<and> price_micro example_pool No = Ok v \<and>
     price_micro (buy_pool_after q) No = Ok v' \<and> v \<le> v'"
proof -
  have w: "fits_i64 50" "fits_u16 100" by (simp_all add: width_defs)
  have "is_ok (quote_buy example_pool No 50 100)" by code_simp
  then obtain q where "quote_buy example_pool No 50 100 = Ok q"
    by (cases "quote_buy example_pool No 50 100") auto
  with price_moves[OF example_pool_wf w, of No] show ?thesis by blast
qed

text \<open>
  C22. Newton's method of \<open>isqrt_u128\<close>, seeded from the bit length, terminates with the floor square root of
  every \<open>u128\<close>: the loop never divides by zero, and the result is the only number whose square is at most
  \<open>x\<close> and whose successor's square exceeds it.
\<close>

theorem isqrt_floor:
  assumes "fits_u128 x"
  shows "\<exists>s. isqrt_u128 x = (Ok s :: (AmmError, u128) outcome) \<and> 0 \<le> s \<and> s * s \<le> x \<and> x < (s + 1) * (s + 1)"
  using isqrt_u128_floor[of x] assms unfolding width_defs power2_eq_square by metis

theorem isqrt_floor_witness:
  "isqrt_u128 340282366920938463463374607431768211455 = (Ok 18446744073709551615 :: (AmmError, u128) outcome)"
proof -
  have "fits_u128 340282366920938463463374607431768211455" by (simp add: width_defs)
  then obtain s where s: "isqrt_u128 340282366920938463463374607431768211455 = (Ok s :: (AmmError, u128) outcome)"
    using isqrt_floor by blast
  have "isqrt_u128 340282366920938463463374607431768211455 = (Ok 18446744073709551615 :: (AmmError, u128) outcome)"
    by code_simp
  with s show ?thesis by simp
qed

end
