(* ===== verification/Ledger.thy ===== *)
theory Ledger
  imports Money
begin

text \<open>
  Model of \<open>src/crates/domain/src/ledger.rs\<close>: the double-entry transaction, the balance map, opening
  accounts and the atomic application of a transaction.

  The balance map is an association list with distinct account ids. \<open>apply_txn\<close> takes the iteration
  orders of the two hash maps it builds (\<open>deltas\<close> and \<open>per_currency\<close>) as arguments; the lemmas hold
  for every order. The abstract specification is \<open>acceptable\<close> and \<open>posted\<close>: which transactions the
  ledger takes and what the balances are afterwards, stated without maps or loops.
\<close>

type_synonym account_id = uuid

datatype OwnerType =
    User | Pool | Fees | House | Escrow | External
  | Withheld | DepositSuspense | BonusReserve

datatype Currency = Usdc | UsdcCredit

record Entry =
  entry_account :: account_id
  entry_amount :: micro_usd

datatype TxnKind =
    Deposit | Trade | Payout | Withdrawal | Seed | Reversal | CreditGrant | CreditConvert

datatype LedgerError =
    Unbalanced i128
  | UnbalancedCurrency Currency i128
  | TooFewEntries
  | ZeroEntry
  | InsufficientFunds account_id
  | UnknownAccount
  | DuplicateExternal Currency
  | DuplicateSingleton OwnerType Currency
  | LedgerOverflow

record Transaction =
  txn_kind :: TxnKind
  txn_entries :: "Entry list"

definition Transaction_new :: "TxnKind \<Rightarrow> Entry list \<Rightarrow> (LedgerError, Transaction) outcome" where
  "Transaction_new kind entries =
     (if length entries < 2 then Err TooFewEntries
      else if list_ex (\<lambda>e. entry_amount e = 0) entries then Err ZeroEntry
      else
        and_then (sum_i128 (map entry_amount entries)) (\<lambda>sum.
          if sum \<noteq> 0 then Err (Unbalanced sum)
          else Ok \<lparr>txn_kind = kind, txn_entries = entries\<rparr>))"

type_synonym slot = "OwnerType \<times> Currency \<times> i64"

record Balances =
  accounts :: "(account_id \<times> slot) list"

definition Balances_default :: Balances where
  "Balances_default = \<lparr>accounts = []\<rparr>"

definition is_money_singleton :: "OwnerType \<Rightarrow> bool" where
  "is_money_singleton owner = (owner \<in> {Withheld, DepositSuspense, BonusReserve})"

definition open_account ::
  "Balances \<Rightarrow> account_id \<Rightarrow> OwnerType \<Rightarrow> Currency \<Rightarrow> (LedgerError, Balances) outcome" where
  "open_account self account owner currency =
     (if map_of (accounts self) account \<noteq> None then Ok self
      else if owner = External \<and>
              list_ex (\<lambda>(_, o', c, _). o' = External \<and> c = currency) (accounts self)
        then Err (DuplicateExternal currency)
      else if is_money_singleton owner \<and>
              list_ex (\<lambda>(_, o', c, _). o' = owner \<and> c = currency) (accounts self)
        then Err (DuplicateSingleton owner currency)
      else Ok (self\<lparr>accounts := AList.update account (owner, currency, 0) (accounts self)\<rparr>))"

definition add_delta ::
  "(account_id \<times> i128) list \<Rightarrow> Entry \<Rightarrow> (LedgerError, (account_id \<times> i128) list) outcome" where
  "add_delta deltas e =
     and_then (ok_or (checked fits_i128 (lookup0 deltas (entry_account e) + entry_amount e)) LedgerOverflow)
       (\<lambda>d. Ok (AList.update (entry_account e) d deltas))"

definition add_currency ::
  "Balances \<Rightarrow> (Currency \<times> i128) list \<Rightarrow> account_id \<times> i128 \<Rightarrow>
     (LedgerError, (Currency \<times> i128) list) outcome" where
  "add_currency self per_currency p =
     (case map_of (accounts self) (fst p) of
        None \<Rightarrow> Err UnknownAccount
      | Some (_, currency, _) \<Rightarrow>
          and_then (ok_or (checked fits_i128 (lookup0 per_currency currency + snd p)) LedgerOverflow)
            (\<lambda>s. Ok (AList.update currency s per_currency)))"

fun check_currencies :: "(Currency \<times> i128) list \<Rightarrow> (LedgerError, unit) outcome" where
  "check_currencies [] = Ok ()"
| "check_currencies ((currency, sum_micro) # rest) =
     (if sum_micro \<noteq> 0 then Err (UnbalancedCurrency currency sum_micro) else check_currencies rest)"

definition post_balance ::
  "Balances \<Rightarrow> account_id \<times> i128 \<Rightarrow> (LedgerError, account_id \<times> i64) outcome" where
  "post_balance self p =
     (case map_of (accounts self) (fst p) of
        None \<Rightarrow> Err UnknownAccount
      | Some (owner, _, balance) \<Rightarrow>
          and_then (ok_or (checked fits_i128 (balance + snd p)) LedgerOverflow) (\<lambda>post.
          and_then (ok_or (checked fits_i64 post) LedgerOverflow) (\<lambda>post.
          if post < 0 \<and> owner \<noteq> External then Err (InsufficientFunds (fst p))
          else Ok (fst p, post))))"

definition write_post ::
  "account_id \<times> i64 \<Rightarrow> (account_id \<times> slot) list \<Rightarrow> (account_id \<times> slot) list" where
  "write_post p accts =
     (case map_of accts (fst p) of
        None \<Rightarrow> accts
      | Some (owner, currency, _) \<Rightarrow> AList.update (fst p) (owner, currency, snd p) accts)"

definition apply_txn ::
  "((account_id \<times> i128) list \<Rightarrow> (account_id \<times> i128) list) \<Rightarrow>
   ((Currency \<times> i128) list \<Rightarrow> (Currency \<times> i128) list) \<Rightarrow>
   Balances \<Rightarrow> Transaction \<Rightarrow> (LedgerError, Balances) outcome" where
  "apply_txn order_d order_c self txn =
     and_then (try_fold add_delta (txn_entries txn) []) (\<lambda>deltas.
     and_then (try_fold (add_currency self) (order_d deltas) []) (\<lambda>per_currency.
     and_then (check_currencies (order_c per_currency)) (\<lambda>_.
     and_then (try_map (post_balance self) (order_d deltas)) (\<lambda>posts.
     Ok (self\<lparr>accounts := fold write_post posts (accounts self)\<rparr>)))))"

definition balance :: "Balances \<Rightarrow> account_id \<Rightarrow> micro_usd option" where
  "balance self account = map_option (\<lambda>(_, _, b). b) (map_of (accounts self) account)"

definition internal_total :: "Balances \<Rightarrow> Currency \<Rightarrow> (LedgerError, micro_usd) outcome" where
  "internal_total self currency =
     and_then
       (sum_i128 (map (\<lambda>(_, _, _, b). b)
          (filter (\<lambda>(_, o', c, _). c = currency \<and> o' \<noteq> External) (accounts self))))
       (\<lambda>sum. Ok (case checked fits_i64 sum of Some v \<Rightarrow> v | None \<Rightarrow> i64_MAX))"

section \<open>Abstract specification\<close>

text \<open>What the entries of a transaction add to an account, and to a currency.\<close>

definition delta_of :: "Entry list \<Rightarrow> account_id \<Rightarrow> int" where
  "delta_of es a = sum_list (map entry_amount (filter (\<lambda>e. entry_account e = a) es))"

definition currency_of :: "Balances \<Rightarrow> account_id \<Rightarrow> Currency option" where
  "currency_of b a = map_option (\<lambda>(_, c, _). c) (map_of (accounts b) a)"

definition currency_sum :: "Balances \<Rightarrow> Entry list \<Rightarrow> Currency \<Rightarrow> int" where
  "currency_sum b es c =
     sum_list (map entry_amount (filter (\<lambda>e. currency_of b (entry_account e) = Some c) es))"

definition known :: "Balances \<Rightarrow> account_id \<Rightarrow> bool" where
  "known b a \<longleftrightarrow> \<not> Option.is_none (map_of (accounts b) a)"

definition acceptable :: "Balances \<Rightarrow> Entry list \<Rightarrow> bool" where
  "acceptable b es \<longleftrightarrow>
     list_all (\<lambda>e. known b (entry_account e)) es \<and>
     list_all (\<lambda>c. currency_sum b es c = 0) [Usdc, UsdcCredit] \<and>
     list_all (\<lambda>e. case map_of (accounts b) (entry_account e) of
        None \<Rightarrow> False
      | Some (owner, _, v) \<Rightarrow>
          fits_i64 (v + delta_of es (entry_account e)) \<and>
          (0 \<le> v + delta_of es (entry_account e) \<or> owner = External)) es"

definition posted :: "Balances \<Rightarrow> Entry list \<Rightarrow> Balances" where
  "posted b es = b\<lparr>accounts := map (\<lambda>(a, owner, c, v). (a, owner, c, v + delta_of es a)) (accounts b)\<rparr>"

text \<open>Well-formed balance maps and transactions: distinct keys, values in their Rust types.\<close>

definition wf_Balances :: "Balances \<Rightarrow> bool" where
  "wf_Balances b \<longleftrightarrow> distinct (map fst (accounts b)) \<and>
     list_all (\<lambda>(_, _, _, v). fits_i64 v) (accounts b)"

definition wf_entries :: "Entry list \<Rightarrow> bool" where
  "wf_entries es \<longleftrightarrow> list_all (\<lambda>e. fits_i64 (entry_amount e)) es \<and> vec_len es"

lemma known_iff: "known b a \<longleftrightarrow> (\<exists>ow cu v. map_of (accounts b) a = Some (ow, cu, v))"
  by (cases "map_of (accounts b) a") (auto simp: known_def)

lemma not_known_iff: "\<not> known b a \<longleftrightarrow> map_of (accounts b) a = None"
  by (cases "map_of (accounts b) a") (auto simp: known_def)

section \<open>The delta map\<close>

definition abs_total :: "('k \<times> int) list \<Rightarrow> int" where
  "abs_total m = sum_list (map (\<lambda>p. \<bar>snd p\<bar>) m)"

definition abs_amounts :: "Entry list \<Rightarrow> int" where
  "abs_amounts es = sum_list (map (\<lambda>e. \<bar>entry_amount e\<bar>) es)"

definition delta_map :: "Entry list \<Rightarrow> (account_id \<times> int) list \<Rightarrow> bool" where
  "delta_map es m \<longleftrightarrow> distinct (map fst m) \<and> fst ` set m = entry_account ` set es \<and>
     (\<forall>a. lookup0 m a = delta_of es a) \<and> abs_total m \<le> abs_amounts es"

lemma abs_total_update:
  "distinct (map fst m) \<Longrightarrow> abs_total (AList.update k v m) = abs_total m - \<bar>lookup0 m k\<bar> + \<bar>v\<bar>"
proof (induction m)
  case (Cons p m)
  obtain k' v' where p: "p = (k', v')" by force
  have "map_of m k' = None" using Cons.prems p by (simp add: map_of_eq_None_iff)
  then have "k' = k \<Longrightarrow> lookup0 m k = 0" by (simp add: lookup0_def)
  with Cons p show ?case by (auto simp: abs_total_def lookup0_def)
qed (simp add: abs_total_def lookup0_def)

lemma abs_amounts_bound:
  assumes "wf_entries es"
  shows "abs_amounts es \<le> 9223372036854775807 * 9223372036854775808"
proof -
  have "abs_amounts es \<le> int (length es) * 9223372036854775808"
    using assms unfolding wf_entries_def abs_amounts_def
    by (induction es) (auto simp: width_defs)
  moreover have "int (length es) \<le> 9223372036854775807"
    using assms unfolding wf_entries_def by linarith
  ultimately show ?thesis by linarith
qed

lemma abs_amounts_append: "abs_amounts (xs @ ys) = abs_amounts xs + abs_amounts ys"
  by (simp add: abs_amounts_def)

lemma abs_amounts_nonneg: "0 \<le> abs_amounts es"
  by (induction es) (auto simp: abs_amounts_def)

lemma delta_of_append: "delta_of (xs @ ys) a = delta_of xs a + delta_of ys a"
  by (simp add: delta_of_def)

lemma abs_delta_of: "\<bar>delta_of es a\<bar> \<le> abs_amounts es"
  by (induction es) (auto simp: delta_of_def abs_amounts_def)

lemma delta_of_untouched: "a \<notin> entry_account ` set es \<Longrightarrow> delta_of es a = 0"
  by (induction es) (auto simp: delta_of_def)

lemma deltas_ok:
  assumes "wf_entries es"
  shows "\<exists>m. try_fold add_delta es [] = Ok m \<and> delta_map es m"
proof (rule try_fold_total)
  show "delta_map [] []"
    by (simp add: delta_map_def lookup0_def delta_of_def abs_total_def abs_amounts_def)
next
  fix pre e suf m
  assume es: "es = pre @ e # suf" and m: "delta_map pre m"
  let ?v = "lookup0 m (entry_account e) + entry_amount e"
  have "abs_amounts (pre @ [e]) \<le> abs_amounts es"
    using abs_amounts_nonneg[of suf] by (simp add: es abs_amounts_def)
  then have "\<bar>?v\<bar> \<le> 9223372036854775807 * 9223372036854775808"
    using m abs_amounts_bound[OF assms] abs_delta_of[of "pre @ [e]" "entry_account e"]
    by (auto simp: delta_map_def delta_of_append) (simp_all add: delta_of_def)
  then have fits: "fits_i128 ?v" by (simp add: width_defs abs_le_iff)
  have "delta_map (pre @ [e]) (AList.update (entry_account e) ?v m)"
    using m by (auto simp: delta_map_def distinct_update lookup0_update delta_of_append dom_update
        abs_total_update abs_amounts_append, simp_all add: delta_of_def abs_amounts_def)
  with fits show "\<exists>m'. add_delta m e = Ok m' \<and> delta_map (pre @ [e]) m'"
    by (simp add: add_delta_def)
qed

section \<open>The per-currency check\<close>

definition pair_sum :: "Balances \<Rightarrow> (account_id \<times> int) list \<Rightarrow> Currency \<Rightarrow> int" where
  "pair_sum b xs c = sum_list (map snd (filter (\<lambda>p. currency_of b (fst p) = Some c) xs))"

lemma sum_delta_of:
  assumes "finite A" "entry_account ` set es \<subseteq> A"
  shows "(\<Sum>a\<in>{a \<in> A. Q a}. delta_of es a) = sum_list (map entry_amount (filter (\<lambda>e. Q (entry_account e)) es))"
  using assms(2)
proof (induction es)
  case (Cons e es)
  have "delta_of (e # es) a = (if entry_account e = a then entry_amount e else 0) + delta_of es a" for a
    by (simp add: delta_of_def)
  moreover have "(\<Sum>a\<in>{a \<in> A. Q a}. if entry_account e = a then entry_amount e else 0) =
      (if Q (entry_account e) then entry_amount e else 0)"
    using assms(1) Cons.prems by (simp add: sum.delta')
  ultimately show ?case using Cons by (simp add: sum.distrib)
qed (simp add: delta_of_def)

lemma pair_sum_delta_map:
  assumes "delta_map es m"
  shows "pair_sum b m c = currency_sum b es c"
proof -
  let ?Q = "\<lambda>a. currency_of b a = Some c"
  let ?m = "filter (\<lambda>p. ?Q (fst p)) m"
  have d: "distinct (map fst m)" using assms by (simp add: delta_map_def)
  have "snd p = delta_of es (fst p)" if "p \<in> set m" for p
    using assms lookup0_mem[OF d, of "fst p" "snd p"] that by (simp add: delta_map_def)
  then have "map snd ?m = map (delta_of es) (map fst ?m)" by simp
  moreover have "distinct (map fst ?m)" using d by (rule distinct_map_filter)
  ultimately have "pair_sum b m c = sum (delta_of es) (set (map fst ?m))"
    by (simp only: pair_sum_def sum_list_distinct_conv_sum_set)
  also have "set (map fst ?m) = {a \<in> fst ` set m. ?Q a}" by auto
  also have "sum (delta_of es) \<dots> = currency_sum b es c"
    using assms unfolding currency_sum_def by (intro sum_delta_of) (auto simp: delta_map_def)
  finally show ?thesis .
qed

lemma pair_sum_bound: "\<bar>pair_sum b xs c\<bar> \<le> abs_total xs"
  by (induction xs) (auto simp: pair_sum_def abs_total_def)

lemma abs_total_append: "abs_total (xs @ ys) = abs_total xs + abs_total ys"
  by (simp add: abs_total_def)

lemma abs_total_nonneg: "0 \<le> abs_total xs"
  by (induction xs) (auto simp: abs_total_def)

lemma abs_total_order: "is_order f \<Longrightarrow> abs_total (f xs) = abs_total xs"
  by (simp add: abs_total_def sum_list_order)

abbreviation "i128_safe v \<equiv> v \<le> 9223372036854775807 * (9223372036854775808 :: int)"

lemma currencies_ok:
  assumes "\<forall>p \<in> set xs. known b (fst p)" "i128_safe (abs_total xs)"
  shows "\<exists>pc. try_fold (add_currency b) xs [] = Ok pc \<and>
    (distinct (map fst pc) \<and> (\<forall>c. lookup0 pc c = pair_sum b xs c))"
proof (rule try_fold_total)
  show "distinct (map fst []) \<and> (\<forall>c. lookup0 [] c = pair_sum b [] c)"
    by (simp add: lookup0_def pair_sum_def)
next
  fix pre p suf pc
  assume xs: "xs = pre @ p # suf"
    and pc: "distinct (map fst pc) \<and> (\<forall>c. lookup0 pc c = pair_sum b pre c)"
  from assms(1) xs obtain ow cu v where kn: "map_of (accounts b) (fst p) = Some (ow, cu, v)"
    by (auto simp: known_iff)
  let ?v = "lookup0 pc cu + snd p"
  have v: "?v = pair_sum b (pre @ [p]) cu"
    using pc kn by (simp add: pair_sum_def currency_of_def)
  have "abs_total (pre @ [p]) \<le> abs_total xs"
    using abs_total_nonneg[of suf] by (simp add: xs abs_total_def)
  then have "i128_safe \<bar>?v\<bar>" using pair_sum_bound[of b "pre @ [p]" cu] assms(2) v by linarith
  then have "fits_i128 ?v" by (simp add: width_defs abs_le_iff)
  with pc kn v show "\<exists>pc'. add_currency b pc p = Ok pc' \<and>
      (distinct (map fst pc') \<and> (\<forall>c. lookup0 pc' c = pair_sum b (pre @ [p]) c))"
    by (simp add: add_currency_def lookup0_update distinct_update)
       (simp add: pair_sum_def currency_of_def)
qed

lemma currencies_unknown:
  assumes "p \<in> set xs" "\<not> known b (fst p)" "i128_safe (abs_total xs)"
  shows "try_fold (add_currency b) xs [] = Err UnknownAccount"
proof -
  from assms(1,2) have "\<exists>q \<in> set xs. \<not> known b (fst q)" by blast
  then obtain pre q suf where xs: "xs = pre @ q # suf" and q: "\<not> known b (fst q)"
    and pre: "\<forall>r \<in> set pre. known b (fst r)"
    by (drule_tac split_list_first_prop) auto
  have "i128_safe (abs_total pre)"
    using assms(3) abs_total_nonneg[of suf] by (simp add: xs abs_total_def)
  from currencies_ok[OF pre this] obtain pc where "try_fold (add_currency b) pre [] = Ok pc" by blast
  moreover from q have "map_of (accounts b) (fst q) = None" by (simp add: not_known_iff)
  ultimately show ?thesis by (simp add: xs try_fold_append add_currency_def)
qed

lemma check_currencies_Ok: "check_currencies xs = Ok u \<longleftrightarrow> (\<forall>p \<in> set xs. snd p = 0)"
  by (induction xs rule: check_currencies.induct) auto

lemma check_currencies_Err:
  "check_currencies xs = Err e \<Longrightarrow> \<exists>c s. (c, s) \<in> set xs \<and> s \<noteq> 0 \<and> e = UnbalancedCurrency c s"
  by (induction xs rule: check_currencies.induct) (auto split: if_splits)

lemma check_currencies_not_Panic: "check_currencies xs \<noteq> Panic"
  by (induction xs rule: check_currencies.induct) auto

lemma all_zero_lookup0:
  "distinct (map fst m) \<Longrightarrow> (\<forall>p \<in> set m. snd p = 0) \<longleftrightarrow> (\<forall>k. lookup0 m k = 0)"
  by (fastforce simp: lookup0_def split: option.splits dest: map_of_SomeD)

section \<open>Posting\<close>

lemma post_balance_known:
  assumes "map_of (accounts b) a = Some (ow, cu, v)" "fits_i64 v" "i128_safe \<bar>d\<bar>"
  shows "post_balance b (a, d) =
    (if \<not> fits_i64 (v + d) then Err LedgerOverflow
     else if v + d < 0 \<and> ow \<noteq> External then Err (InsufficientFunds a)
     else Ok (a, v + d))"
proof -
  have "fits_i128 (v + d)" using assms(2,3) by (auto simp: width_defs abs_le_iff)
  with assms(1) show ?thesis by (auto simp: post_balance_def checked_def)
qed

lemma fold_write_post:
  assumes "distinct (map fst accts)" "distinct (map fst posts)" "fst ` set posts \<subseteq> fst ` set accts"
  shows "fold write_post posts accts =
    map (\<lambda>(a, ow, cu, v). (a, ow, cu, case map_of posts a of None \<Rightarrow> v | Some w \<Rightarrow> w)) accts"
  using assms
proof (induction posts arbitrary: accts)
  case Nil
  then show ?case by (simp add: case_prod_unfold)
next
  case (Cons p posts)
  obtain a w where p: "p = (a, w)" by force
  have mem: "a \<in> fst ` set accts" using Cons.prems(3) p by auto
  then have "map_of accts a \<noteq> None" by (simp add: map_of_eq_None_iff)
  then obtain ow cu v where slot: "map_of accts a = Some (ow, cu, v)" by auto
  have up: "write_post p accts = map (\<lambda>(k, x). (k, if k = a then (ow, cu, w) else x)) accts"
    using slot update_existing[OF Cons.prems(1) mem] by (simp add: write_post_def p)
  have keys: "map fst (write_post p accts) = map fst accts"
    unfolding up by (auto simp: case_prod_unfold)
  have "fst ` set (write_post p accts) = fst ` set accts"
    using keys by (metis list.set_map)
  then have "fold write_post (p # posts) accts =
      map (\<lambda>(a, ow, cu, v). (a, ow, cu, case map_of posts a of None \<Rightarrow> v | Some w \<Rightarrow> w)) (write_post p accts)"
    using Cons.prems keys by (simp add: Cons.IH)
  also have "\<dots> = map (\<lambda>(a, ow, cu, v). (a, ow, cu, case map_of (p # posts) a of None \<Rightarrow> v | Some w \<Rightarrow> w)) accts"
  proof -
    have "map_of posts a = None" using Cons.prems(2) p by (simp add: map_of_eq_None_iff)
    moreover have "x = (ow, cu, v)" if "(a, x) \<in> set accts" for x
      using that slot Cons.prems(1) by (metis map_of_is_SomeI option.inject)
    ultimately show ?thesis unfolding up by (fastforce simp: p)
  qed
  finally show ?case .
qed

section \<open>Applying a transaction refines the abstract specification\<close>

definition raw_balance :: "Balances \<Rightarrow> account_id \<Rightarrow> int" where
  "raw_balance b a = (case map_of (accounts b) a of None \<Rightarrow> 0 | Some (_, _, v) \<Rightarrow> v)"

definition post_allowed :: "Balances \<Rightarrow> Entry list \<Rightarrow> account_id \<Rightarrow> bool" where
  "post_allowed b es a \<longleftrightarrow>
     (\<exists>ow cu v. map_of (accounts b) a = Some (ow, cu, v) \<and> fits_i64 (v + delta_of es a) \<and>
        (0 \<le> v + delta_of es a \<or> ow = External))"

lemma acceptable_iff:
  "acceptable b es \<longleftrightarrow>
     (\<forall>e \<in> set es. known b (entry_account e)) \<and> (\<forall>c. currency_sum b es c = 0) \<and>
     (\<forall>e \<in> set es. post_allowed b es (entry_account e))"
proof -
  have "(\<forall>c. currency_sum b es c = 0) \<longleftrightarrow> currency_sum b es Usdc = 0 \<and> currency_sum b es UsdcCredit = 0"
    by (metis Currency.exhaust)
  moreover have "post_allowed b es a \<longleftrightarrow> (case map_of (accounts b) a of None \<Rightarrow> False
      | Some (ow, _, v) \<Rightarrow> fits_i64 (v + delta_of es a) \<and> (0 \<le> v + delta_of es a \<or> ow = External))" for a
    by (auto simp: post_allowed_def split: option.splits)
  ultimately show ?thesis by (simp add: acceptable_def list_all_iff)
qed

lemma wf_Balances_slot:
  "wf_Balances b \<Longrightarrow> map_of (accounts b) a = Some (ow, cu, v) \<Longrightarrow> fits_i64 v"
  by (auto simp: wf_Balances_def list_all_iff dest!: map_of_SomeD)

lemma delta_stage:
  assumes "wf_entries es" "is_order od"
  obtains m where "try_fold add_delta es [] = Ok m" "delta_map es m"
    "i128_safe (abs_total (od m))" "fst ` set (od m) = entry_account ` set es"
    "distinct (map fst (od m))" "\<And>p. p \<in> set (od m) \<Longrightarrow> snd p = delta_of es (fst p)"
proof -
  from deltas_ok[OF assms(1)] obtain m where m: "try_fold add_delta es [] = Ok m" "delta_map es m" by blast
  have "i128_safe (abs_total (od m))"
    using m(2) abs_amounts_bound[OF assms(1)] by (simp add: abs_total_order[OF assms(2)] delta_map_def)
  moreover have "fst ` set (od m) = entry_account ` set es" "distinct (map fst (od m))"
    using m(2) by (simp_all add: set_order[OF assms(2)] distinct_map_order[OF assms(2)] delta_map_def)
  moreover have "snd p = delta_of es (fst p)" if "p \<in> set (od m)" for p
    using m(2) that lookup0_mem[of m "fst p" "snd p"] by (simp add: set_order[OF assms(2)] delta_map_def)
  ultimately show ?thesis using m that by blast
qed

lemma post_balance_delta:
  assumes "wf_Balances b" "wf_entries es" "map_of (accounts b) a = Some (ow, cu, v)"
  shows "post_balance b (a, delta_of es a) =
    (if \<not> fits_i64 (v + delta_of es a) then Err LedgerOverflow
     else if v + delta_of es a < 0 \<and> ow \<noteq> External then Err (InsufficientFunds a)
     else Ok (a, v + delta_of es a))"
  using assms(3) wf_Balances_slot[OF assms(1,3)]
proof (rule post_balance_known)
  show "i128_safe \<bar>delta_of es a\<bar>"
    using abs_delta_of[of es a] abs_amounts_bound[OF assms(2)] by linarith
qed

lemma posts_written:
  assumes "wf_Balances b" "distinct (map fst ps)" "fst ` set ps = entry_account ` set es"
    "\<And>p. p \<in> set ps \<Longrightarrow> snd p = delta_of es (fst p)" "\<forall>e \<in> set es. known b (entry_account e)"
  shows "fold write_post (map (\<lambda>p. (fst p, raw_balance b (fst p) + snd p)) ps) (accounts b) =
    accounts (posted b es)"
proof -
  let ?posts = "map (\<lambda>p. (fst p, raw_balance b (fst p) + snd p)) ps"
  have d: "distinct (map fst (accounts b))" using assms(1) by (simp add: wf_Balances_def)
  have keys: "map fst ?posts = map fst ps" by simp
  have sub: "fst ` set ?posts \<subseteq> fst ` set (accounts b)"
  proof
    fix a assume "a \<in> fst ` set ?posts"
    then have "a \<in> entry_account ` set es" using assms(3) by force
    then have "known b a" using assms(5) by auto
    then show "a \<in> fst ` set (accounts b)"
      using not_known_iff[of b a] by (auto simp: map_of_eq_None_iff)
  qed
  have post: "map_of ?posts a = (if a \<in> entry_account ` set es then Some (raw_balance b a + delta_of es a) else None)" for a
  proof (cases "a \<in> entry_account ` set es")
    case True
    then obtain p where p: "p \<in> set ps" "fst p = a" using assms(3) by (metis imageE)
    then have "(a, raw_balance b a + delta_of es a) \<in> set ?posts"
      using imageI[OF p(1), of "\<lambda>p. (fst p, raw_balance b (fst p) + snd p)"] assms(4)[OF p(1)] by simp
    with True keys assms(2) show ?thesis by (simp add: map_of_is_SomeI del: map_map)
  next
    case False
    then show ?thesis using assms(3) keys by (simp add: map_of_eq_None_iff image_image del: map_map)
  qed
  have "fold write_post ?posts (accounts b) =
      map (\<lambda>(a, ow, cu, v). (a, ow, cu, case map_of ?posts a of None \<Rightarrow> v | Some w \<Rightarrow> w)) (accounts b)"
    using d assms(2) sub by (intro fold_write_post) (simp_all only: keys)
  also have "\<dots> = map (\<lambda>(a, ow, cu, v). (a, ow, cu, v + delta_of es a)) (accounts b)"
  proof (rule map_cong[OF refl])
    fix x assume x: "x \<in> set (accounts b)"
    obtain a ow cu v where xe: "x = (a, ow, cu, v)" by (cases x) auto
    with x d have "raw_balance b a = v" by (simp add: raw_balance_def)
    with xe post[of a] delta_of_untouched[of a es]
    show "(\<lambda>(a, ow, cu, v). (a, ow, cu, case map_of ?posts a of None \<Rightarrow> v | Some w \<Rightarrow> w)) x =
        (\<lambda>(a, ow, cu, v). (a, ow, cu, v + delta_of es a)) x" by simp
  qed
  finally show ?thesis by (simp add: posted_def)
qed

lemma apply_txn_Ok_iff:
  assumes "wf_Balances b" "wf_entries (txn_entries t)" "is_order od" "is_order oc"
  shows "apply_txn od oc b t = Ok b' \<longleftrightarrow>
    acceptable b (txn_entries t) \<and> b' = posted b (txn_entries t)"
proof -
  let ?es = "txn_entries t"
  from delta_stage[OF assms(2,3)] obtain m where m: "try_fold add_delta ?es [] = Ok m" "delta_map ?es m"
    and safe: "i128_safe (abs_total (od m))" and keys: "fst ` set (od m) = entry_account ` set ?es"
    and dist: "distinct (map fst (od m))"
    and val: "\<And>p. p \<in> set (od m) \<Longrightarrow> snd p = delta_of ?es (fst p)"
    by blast
  have ball_keys: "(\<forall>p \<in> set (od m). Q (fst p)) \<longleftrightarrow> (\<forall>e \<in> set ?es. Q (entry_account e))" for Q
  proof -
    have "(\<forall>a \<in> fst ` set (od m). Q a) \<longleftrightarrow> (\<forall>a \<in> entry_account ` set ?es. Q a)" by (simp only: keys)
    then show ?thesis by simp
  qed
  show ?thesis
  proof (cases "\<forall>e \<in> set ?es. known b (entry_account e)")
    case False
    then obtain p where "p \<in> set (od m)" "\<not> known b (fst p)" using ball_keys[of "known b"] by blast
    from currencies_unknown[OF this safe] False m(1) show ?thesis
      by (simp add: apply_txn_def acceptable_iff)
  next
    case True
    then have kn: "\<forall>p \<in> set (od m). known b (fst p)" by (simp only: ball_keys)
    from currencies_ok[OF kn safe] obtain pc where pc: "try_fold (add_currency b) (od m) [] = Ok pc"
      "distinct (map fst pc)" "\<And>c. lookup0 pc c = pair_sum b (od m) c" by blast
    have sums: "pair_sum b (od m) c = currency_sum b ?es c" for c
      using pair_sum_delta_map[OF m(2)] by (simp add: pair_sum_def sum_list_filter_order[OF assms(3)])
    have chk: "check_currencies (oc pc) = Ok u \<longleftrightarrow> (\<forall>c. currency_sum b ?es c = 0)" for u
      using all_zero_lookup0[OF pc(2)] pc(3) sums by (simp add: check_currencies_Ok set_order[OF assms(4)])
    have post: "post_balance b p = Ok q \<longleftrightarrow>
        post_allowed b ?es (fst p) \<and> q = (fst p, raw_balance b (fst p) + snd p)"
      if p: "p \<in> set (od m)" for p q
    proof -
      from kn p obtain ow cu v where slot: "map_of (accounts b) (fst p) = Some (ow, cu, v)"
        by (auto simp: known_iff)
      have "p = (fst p, delta_of ?es (fst p))" using val[OF p] by (metis prod.collapse)
      then show ?thesis
        using post_balance_delta[OF assms(1,2) slot] slot val[OF p]
        by (auto simp: post_allowed_def raw_balance_def)
    qed
    have posts: "try_map (post_balance b) (od m) = Ok qs \<longleftrightarrow>
        (\<forall>e \<in> set ?es. post_allowed b ?es (entry_account e)) \<and>
        qs = map (\<lambda>p. (fst p, raw_balance b (fst p) + snd p)) (od m)" for qs
    proof -
      have "try_map (post_balance b) (od m) = Ok qs \<longleftrightarrow>
          (\<forall>p \<in> set (od m). post_allowed b ?es (fst p)) \<and>
          qs = map (\<lambda>p. (fst p, raw_balance b (fst p) + snd p)) (od m)"
        unfolding try_map_Ok_iff using post
        by (auto simp: list_all2_conv_all_nth list_eq_iff_nth_eq all_set_conv_all_nth)
      then show ?thesis by (simp only: ball_keys)
    qed
    show ?thesis
      using m(1) pc(1) chk posts True posts_written[OF assms(1) dist keys val True]
      by (auto simp: apply_txn_def acceptable_iff posted_def)
  qed
qed

lemma apply_txn_not_Panic: "apply_txn od oc b t \<noteq> Panic"
proof -
  have d: "add_delta m e \<noteq> Panic" for m e
    by (simp add: add_delta_def and_then_Panic_iff)
  have c: "add_currency b pc p \<noteq> Panic" for pc p
    by (auto simp: add_currency_def and_then_Panic_iff split: option.split)
  have p: "post_balance b p \<noteq> Panic" for p
    by (auto simp: post_balance_def and_then_Panic_iff split: option.split if_splits)
  show ?thesis
    using try_fold_not_Panic[of add_delta, OF d] try_fold_not_Panic[of "add_currency b", OF c]
      try_map_not_Panic[of _ "post_balance b", OF p] check_currencies_not_Panic
    by (simp add: apply_txn_def and_then_Panic_iff)
qed

text \<open>Every rejection names a cause that is present in the transaction.\<close>

section \<open>The ledger invariant\<close>

definition currency_total :: "Balances \<Rightarrow> Currency \<Rightarrow> int" where
  "currency_total b c = sum_list (map (\<lambda>(_, _, _, v). v) (filter (\<lambda>(_, _, cu, _). cu = c) (accounts b)))"

definition owned :: "Balances \<Rightarrow> OwnerType \<Rightarrow> Currency \<Rightarrow> (account_id \<times> slot) list" where
  "owned b ow c = filter (\<lambda>(_, ow', cu, _). ow' = ow \<and> cu = c) (accounts b)"

text \<open>
  Distinct accounts with balances in range, no internal account overdrawn, every currency summing
  to zero over all accounts, and at most one account per currency of each singleton class.
\<close>

definition ledger_inv :: "Balances \<Rightarrow> bool" where
  "ledger_inv b \<longleftrightarrow>
     wf_Balances b \<and>
     (\<forall>(_, ow, _, v) \<in> set (accounts b). ow \<noteq> External \<longrightarrow> 0 \<le> v) \<and>
     (\<forall>c. currency_total b c = 0) \<and>
     (\<forall>ow c. ow = External \<or> is_money_singleton ow \<longrightarrow> length (owned b ow c) \<le> 1)"

lemma ledger_inv_default: "ledger_inv Balances_default"
  by (simp add: ledger_inv_def Balances_default_def wf_Balances_def currency_total_def owned_def)

lemma update_fresh: "map_of m k = None \<Longrightarrow> AList.update k v m = m @ [(k, v)]"
  by (induction m) (auto split: if_splits)

lemma owned_none:
  "\<not> list_ex (\<lambda>(_, ow', cu, _). ow' = ow \<and> cu = c) (accounts b) \<longleftrightarrow> owned b ow c = []"
  by (auto simp: owned_def list_ex_iff filter_empty_conv)

lemma ledger_inv_open:
  assumes "ledger_inv b" "open_account b a ow c = Ok b'"
  shows "ledger_inv b'"
proof (cases "map_of (accounts b) a")
  case (Some x)
  with assms show ?thesis by (simp add: open_account_def)
next
  case None
  with assms(2) have b': "b' = b\<lparr>accounts := accounts b @ [(a, ow, c, 0)]\<rparr>"
    and fresh: "ow = External \<or> is_money_singleton ow \<Longrightarrow> owned b ow c = []"
    using owned_none[of External c b] owned_none[of ow c b]
    by (auto simp: open_account_def update_fresh split: if_splits)
  have "owned b' ow' c' = owned b ow' c' @ (if ow' = ow \<and> c' = c then [(a, ow, c, 0)] else [])" for ow' c'
    by (simp add: owned_def b')
  then have "\<forall>ow' c'. ow' = External \<or> is_money_singleton ow' \<longrightarrow> length (owned b' ow' c') \<le> 1"
    using assms(1) fresh by (auto simp: ledger_inv_def)
  moreover have "wf_Balances b'"
    using assms(1) None by (auto simp: ledger_inv_def wf_Balances_def b' map_of_eq_None_iff width_defs)
  moreover have "currency_total b' c' = currency_total b c'" for c'
    by (simp add: currency_total_def b')
  ultimately show ?thesis using assms(1) unfolding ledger_inv_def by (auto simp: b')
qed

lemma currency_total_posted:
  assumes "wf_Balances b" "\<forall>e \<in> set es. known b (entry_account e)"
  shows "currency_total (posted b es) c = currency_total b c + currency_sum b es c"
proof -
  let ?f = "filter (\<lambda>(_, _, cu, _). cu = c) (accounts b)"
  have d: "distinct (map fst (accounts b))" using assms(1) by (simp add: wf_Balances_def)
  have "currency_total (posted b es) c = sum_list (map (\<lambda>(a, _, _, v). v + delta_of es a) ?f)"
    by (simp add: currency_total_def posted_def filter_map o_def case_prod_unfold)
  also have "\<dots> = currency_total b c + sum_list (map (delta_of es) (map fst ?f))"
    by (simp add: currency_total_def case_prod_unfold sum_list_addf o_def)
  also have "sum_list (map (delta_of es) (map fst ?f)) = sum (delta_of es) (set (map fst ?f))"
    using d by (intro sum_list_distinct_conv_sum_set distinct_map_filter)
  also have "set (map fst ?f) = {a \<in> fst ` set (accounts b). currency_of b a = Some c}"
    using d by (force simp: currency_of_def)
  also have "sum (delta_of es) \<dots> = currency_sum b es c"
    unfolding currency_sum_def
  proof (intro sum_delta_of)
    show "entry_account ` set es \<subseteq> fst ` set (accounts b)"
      using assms(2) not_known_iff by (fastforce simp: map_of_eq_None_iff)
  qed simp
  finally show ?thesis .
qed

lemma ledger_inv_posted:
  assumes "ledger_inv b" "acceptable b es"
  shows "ledger_inv (posted b es)"
proof -
  have wf: "wf_Balances b" using assms(1) by (simp add: ledger_inv_def)
  have d: "distinct (map fst (accounts b))" using wf by (simp add: wf_Balances_def)
  have slot: "fits_i64 (v + delta_of es a) \<and> (ow \<noteq> External \<longrightarrow> 0 \<le> v + delta_of es a)"
    if "(a, ow, cu, v) \<in> set (accounts b)" for a ow cu v
  proof (cases "a \<in> entry_account ` set es")
    case True
    then have "post_allowed b es a" using assms(2) by (auto simp: acceptable_iff)
    then show ?thesis using that d by (auto simp: post_allowed_def)
  next
    case False
    then show ?thesis
      using that assms(1) delta_of_untouched[OF False]
      by (auto simp: ledger_inv_def wf_Balances_def list_all_iff)
  qed
  have "distinct (map fst (accounts (posted b es)))"
    using d by (simp add: posted_def case_prod_unfold o_def)
  moreover have "list_all (\<lambda>(_, _, _, v). fits_i64 v) (accounts (posted b es))"
    using slot by (auto simp: posted_def list_all_iff)
  ultimately have "wf_Balances (posted b es)" by (simp add: wf_Balances_def)
  moreover have "length (owned (posted b es) ow c) = length (owned b ow c)" for ow c
    by (simp add: owned_def posted_def filter_map o_def case_prod_unfold)
  moreover have "currency_total (posted b es) c = 0" for c
    using assms currency_total_posted[OF wf, of es c] by (simp add: acceptable_iff ledger_inv_def)
  ultimately show ?thesis
    using assms(1) slot unfolding ledger_inv_def by (fastforce simp: posted_def)
qed

lemma internal_total_inv:
  assumes "ledger_inv b"
  shows "internal_total b c =
    Ok (min i64_MAX (- sum_list (map (\<lambda>(_, _, _, v). v) (owned b External c))))"
proof -
  let ?val = "\<lambda>(_, _, _, v :: int). v"
  let ?int = "filter (\<lambda>(_, ow, cu, _). cu = c \<and> ow \<noteq> External) (accounts b)"
  have split: "sum_list (map ?val (filter (\<lambda>(_, _, cu, _). cu = c) xs)) =
      sum_list (map ?val (filter (\<lambda>(_, ow, cu, _). cu = c \<and> ow \<noteq> External) xs)) +
      sum_list (map ?val (filter (\<lambda>(_, ow, cu, _). ow = External \<and> cu = c) xs))" for xs :: "(account_id \<times> slot) list"
    by (induction xs) auto
  have sum: "sum_list (map ?val ?int) = - sum_list (map ?val (owned b External c))"
    using assms split[of "accounts b"] by (simp add: ledger_inv_def currency_total_def owned_def)
  have nonneg: "list_all (\<lambda>x. 0 \<le> x) (map ?val ?int)"
    using assms by (fastforce simp: ledger_inv_def list_all_iff)
  have "length (owned b External c) \<le> 1" using assms by (simp add: ledger_inv_def)
  then consider "owned b External c = []" | x where "owned b External c = [x]"
    by (cases "owned b External c") auto
  then have bound: "-9223372036854775808 \<le> sum_list (map ?val (owned b External c))"
  proof cases
    case 2
    then have "x \<in> set (accounts b)" by (auto simp: owned_def filter_eq_Cons_iff)
    then show ?thesis
      using assms 2 by (auto simp: ledger_inv_def wf_Balances_def list_all_iff width_defs)
  qed simp
  have "sum_i128 (map ?val ?int) = Ok (sum_list (map ?val ?int))"
    using nonneg bound sum by (intro sum_i128_nonneg) auto
  moreover have "0 \<le> sum_list (map ?val ?int)"
    using nonneg by (intro sum_list_nonneg) (auto simp: list_all_iff)
  ultimately show ?thesis using sum by (auto simp: internal_total_def width_defs checked_def)
qed

section \<open>Reachable ledgers\<close>

text \<open>Any sequence of openings and applied transactions, in any hash order.\<close>

inductive ledger_reachable :: "Balances \<Rightarrow> bool" where
  start: "ledger_reachable Balances_default"
| opened: "ledger_reachable b \<Longrightarrow> open_account b a ow c = Ok b' \<Longrightarrow> ledger_reachable b'"
| applied: "ledger_reachable b \<Longrightarrow> Transaction_new kind es = Ok t \<Longrightarrow> wf_entries es \<Longrightarrow>
    is_order od \<Longrightarrow> is_order oc \<Longrightarrow> apply_txn od oc b t = Ok b' \<Longrightarrow> ledger_reachable b'"

lemma Transaction_new_Ok:
  "Transaction_new kind es = Ok t \<Longrightarrow> t = \<lparr>txn_kind = kind, txn_entries = es\<rparr>"
  by (auto simp: Transaction_new_def split: if_splits)

lemma ledger_inv_apply:
  assumes "ledger_inv b" "wf_entries (txn_entries t)" "is_order od" "is_order oc"
    "apply_txn od oc b t = Ok b'"
  shows "ledger_inv b'"
proof -
  have "wf_Balances b" using assms(1) by (simp add: ledger_inv_def)
  then show ?thesis
    using assms ledger_inv_posted by (simp add: apply_txn_Ok_iff)
qed

lemma ledger_reachable_inv: "ledger_reachable b \<Longrightarrow> ledger_inv b"
proof (induction rule: ledger_reachable.induct)
  case start
  show ?case by (rule ledger_inv_default)
next
  case (opened b a ow c b')
  then show ?case by (blast intro: ledger_inv_open)
next
  case (applied b kind es t od oc b')
  then have "txn_entries t = es" by (simp add: Transaction_new_Ok[OF applied.hyps(2)])
  with applied show ?case by (blast intro: ledger_inv_apply)
qed

lemma balance_posted:
  assumes "wf_Balances b"
  shows "balance (posted b es) a = map_option (\<lambda>v. v + delta_of es a) (balance b a)"
proof -
  have "map_of (map (\<lambda>(a, ow, c, v). (a, ow, c, v + delta_of es a)) xs) a =
      map_option (\<lambda>(ow, c, v). (ow, c, v + delta_of es a)) (map_of xs a)" for xs :: "(account_id \<times> slot) list"
    by (induction xs) auto
  then show ?thesis
    by (cases "map_of (accounts b) a") (auto simp: balance_def posted_def)
qed

section \<open>The ledger as its clients see it\<close>

text \<open>
  What the use cases rely on: a successful application keeps the invariant, adds to every account
  exactly what the entries say, and leaves the set of accounts alone. Everything a client needs
  about batches of transactions follows from these laws.
\<close>

locale ledger_book =
  fixes app :: "'b \<Rightarrow> Transaction \<Rightarrow> (LedgerError, 'b) outcome"
    and bal :: "'b \<Rightarrow> account_id \<Rightarrow> int option"
    and inv :: "'b \<Rightarrow> bool"
  assumes app_inv: "inv b \<Longrightarrow> wf_entries (txn_entries t) \<Longrightarrow> app b t = Ok b' \<Longrightarrow> inv b'"
    and app_bal: "inv b \<Longrightarrow> wf_entries (txn_entries t) \<Longrightarrow> app b t = Ok b' \<Longrightarrow>
      bal b' a = map_option (\<lambda>v. v + delta_of (txn_entries t) a) (bal b a)"
    and app_total: "app b t \<noteq> Panic"
begin

lemma batch_inv:
  "inv b \<Longrightarrow> list_all (\<lambda>t. wf_entries (txn_entries t)) ts \<Longrightarrow> try_fold app ts b = Ok b' \<Longrightarrow> inv b'"
  by (induction ts arbitrary: b) (auto intro: app_inv)

lemma batch_bal:
  "inv b \<Longrightarrow> list_all (\<lambda>t. wf_entries (txn_entries t)) ts \<Longrightarrow> try_fold app ts b = Ok b' \<Longrightarrow>
     bal b' a = map_option (\<lambda>v. v + sum_list (map (\<lambda>t. delta_of (txn_entries t) a) ts)) (bal b a)"
proof (induction ts arbitrary: b)
  case (Cons t ts)
  then obtain b1 where b1: "app b t = Ok b1" "try_fold app ts b1 = Ok b'" by auto
  with Cons have "bal b' a = map_option (\<lambda>v. v + sum_list (map (\<lambda>t. delta_of (txn_entries t) a) ts)) (bal b1 a)"
    by (auto intro: app_inv)
  also have "bal b1 a = map_option (\<lambda>v. v + delta_of (txn_entries t) a) (bal b a)"
    using Cons.prems b1(1) by (intro app_bal) auto
  finally show ?case by (simp add: option.map_comp o_def algebra_simps)
qed (simp add: option.map_ident)

lemma batch_total: "try_fold app ts b \<noteq> Panic"
  by (rule try_fold_not_Panic) (rule app_total)

end

text \<open>The laws hold for every hash order; clients run the executable insertion order.\<close>

locale hash_ledger =
  fixes od :: "(account_id \<times> i128) list \<Rightarrow> (account_id \<times> i128) list"
    and oc :: "(Currency \<times> i128) list \<Rightarrow> (Currency \<times> i128) list"
  assumes order_d: "is_order od" and order_c: "is_order oc"

sublocale hash_ledger \<subseteq> book: ledger_book "apply_txn od oc" balance ledger_inv
proof
  fix b t b' a
  assume inv: "ledger_inv b" and wf: "wf_entries (txn_entries t)" and ok: "apply_txn od oc b t = Ok b'"
  show "ledger_inv b'" using inv wf order_d order_c ok by (rule ledger_inv_apply)
  have wb: "wf_Balances b" using inv by (simp add: ledger_inv_def)
  then have "b' = posted b (txn_entries t)" using wf order_d order_c ok by (simp add: apply_txn_Ok_iff)
  with wb show "balance b' a = map_option (\<lambda>v. v + delta_of (txn_entries t) a) (balance b a)"
    by (simp add: balance_posted)
next
  fix b t show "apply_txn od oc b t \<noteq> Panic" by (rule apply_txn_not_Panic)
qed

interpretation insertion: hash_ledger "\<lambda>xs. xs" "\<lambda>xs. xs"
  by unfold_locales (rule is_order_id)+

section \<open>Properties\<close>

text \<open>
  C3. \<open>Balances::apply\<close> refines the abstract ledger: whatever the iteration order of its hash maps, it
  returns a new balance map exactly when the transaction is acceptable (all accounts known, every
  currency summing to zero, no post-balance out of range, no internal account overdrawn after
  aggregating repeated accounts), the new map is the old one plus the entries, and it never panics.
\<close>

theorem apply_txn_refines:
  assumes "wf_Balances b" "wf_entries (txn_entries t)" "is_order od" "is_order oc"
  shows "(\<forall>b'. apply_txn od oc b t = Ok b' \<longleftrightarrow>
            acceptable b (txn_entries t) \<and> b' = posted b (txn_entries t)) \<and>
         apply_txn od oc b t \<noteq> Panic"
  using apply_txn_Ok_iff[OF assms] apply_txn_not_Panic by blast

definition example_ledger :: Balances where
  "example_ledger = \<lparr>accounts =
     [(1, External, Usdc, -10), (2, User, Usdc, 10), (3, User, Usdc, 0), (4, User, UsdcCredit, 0)]\<rparr>"

definition example_transfer :: "i64 \<Rightarrow> i64 \<Rightarrow> Transaction" where
  "example_transfer x y = \<lparr>txn_kind = Trade, txn_entries =
     [\<lparr>entry_account = 2, entry_amount = - x\<rparr>, \<lparr>entry_account = 2, entry_amount = - y\<rparr>,
      \<lparr>entry_account = 3, entry_amount = x + y\<rparr>]\<rparr>"

lemma example_wf: "wf_Balances example_ledger" "wf_entries (txn_entries (example_transfer 3 4))"
    "wf_entries (txn_entries (example_transfer 7 6))"
  by (code_simp, simp_all add: wf_entries_def example_transfer_def width_defs)

theorem apply_txn_refines_witness:
  "apply_txn rev rev example_ledger (example_transfer 3 4) =
     Ok (posted example_ledger (txn_entries (example_transfer 3 4)))"
proof -
  have "acceptable example_ledger (txn_entries (example_transfer 3 4))" by code_simp
  with apply_txn_refines[OF example_wf(1,2) is_order_rev is_order_rev] show ?thesis by blast
qed

text \<open>
  C21. A rejected transaction is rejected for a cause it has: an entry on an unopened account, a
  currency whose entries do not sum to zero (with that sum reported), an internal account whose
  aggregated post-balance is negative (that account reported), or a post-balance outside \<open>i64\<close>.
\<close>

theorem apply_txn_rejects:
  assumes "wf_Balances b" "wf_entries (txn_entries t)" "is_order od" "is_order oc"
    and "apply_txn od oc b t = Err e"
  shows "(e = UnknownAccount \<and> (\<exists>x \<in> set (txn_entries t). \<not> known b (entry_account x))) \<or>
    (\<exists>c s. e = UnbalancedCurrency c s \<and> s = currency_sum b (txn_entries t) c \<and> s \<noteq> 0) \<or>
    (\<exists>x \<in> set (txn_entries t). \<exists>ow cu v. map_of (accounts b) (entry_account x) = Some (ow, cu, v) \<and>
       (e = InsufficientFunds (entry_account x) \<and> ow \<noteq> External \<and>
          v + delta_of (txn_entries t) (entry_account x) < 0 \<or>
        e = LedgerOverflow \<and> \<not> fits_i64 (v + delta_of (txn_entries t) (entry_account x))))"
proof -
  let ?es = "txn_entries t"
  from delta_stage[OF assms(2,3)] obtain m where m: "try_fold add_delta ?es [] = Ok m" "delta_map ?es m"
    and safe: "i128_safe (abs_total (od m))" and keys: "fst ` set (od m) = entry_account ` set ?es"
    and dist: "distinct (map fst (od m))"
    and val: "\<And>p. p \<in> set (od m) \<Longrightarrow> snd p = delta_of ?es (fst p)"
    by blast
  show ?thesis
  proof (cases "\<exists>p \<in> set (od m). \<not> known b (fst p)")
    case True
    then obtain p where p: "p \<in> set (od m)" "\<not> known b (fst p)" by blast
    then have "e = UnknownAccount" using currencies_unknown[OF p safe] m(1) assms(5) by (simp add: apply_txn_def)
    moreover have "fst p \<in> entry_account ` set ?es" using p(1) by (simp flip: keys)
    ultimately show ?thesis using p(2) by auto
  next
    case False
    then have kn: "\<forall>p \<in> set (od m). known b (fst p)" by blast
    from currencies_ok[OF kn safe] obtain pc where pc: "try_fold (add_currency b) (od m) [] = Ok pc"
      "distinct (map fst pc)" "\<And>c. lookup0 pc c = pair_sum b (od m) c" by blast
    have sums: "pair_sum b (od m) c = currency_sum b ?es c" for c
      using pair_sum_delta_map[OF m(2)] by (simp add: pair_sum_def sum_list_filter_order[OF assms(3)])
    from assms(5) m(1) pc(1) consider
      (cur) "check_currencies (oc pc) = Err e" | (post) "try_map (post_balance b) (od m) = Err e"
      by (auto simp: apply_txn_def and_then_Err_iff)
    then show ?thesis
    proof cases
      case cur
      from check_currencies_Err[OF this] obtain c s where "(c, s) \<in> set pc" "s \<noteq> 0" "e = UnbalancedCurrency c s"
        by (auto simp: set_order[OF assms(4)])
      moreover from this have "s = currency_sum b ?es c"
        using lookup0_mem[OF pc(2)] pc(3)[of c] sums[of c] by simp
      ultimately show ?thesis by blast
    next
      case post
      from try_map_Err[OF this] obtain p where p: "p \<in> set (od m)" "post_balance b p = Err e" by blast
      have "fst p \<in> entry_account ` set ?es" using p(1) by (simp flip: keys)
      then obtain x where x: "x \<in> set ?es" "fst p = entry_account x" by blast
      from kn p(1) obtain ow cu v where slot: "map_of (accounts b) (fst p) = Some (ow, cu, v)"
        by (auto simp: known_iff)
      have "p = (fst p, delta_of ?es (fst p))" using val[OF p(1)] by (metis prod.collapse)
      with post_balance_delta[OF assms(1,2) slot] p(2)
      have "e = LedgerOverflow \<and> \<not> fits_i64 (v + delta_of ?es (fst p)) \<or>
          e = InsufficientFunds (fst p) \<and> ow \<noteq> External \<and> v + delta_of ?es (fst p) < 0"
        by (auto split: if_splits)
      then have "\<exists>ow cu v. map_of (accounts b) (entry_account x) = Some (ow, cu, v) \<and>
         (e = InsufficientFunds (entry_account x) \<and> ow \<noteq> External \<and> v + delta_of ?es (entry_account x) < 0 \<or>
          e = LedgerOverflow \<and> \<not> fits_i64 (v + delta_of ?es (entry_account x)))"
        using slot x(2) by auto
      with x(1) show ?thesis by blast
    qed
  qed
qed

theorem apply_txn_rejects_witness:
  "apply_txn (\<lambda>xs. xs) rev example_ledger (example_transfer 7 6) = Err (InsufficientFunds 2) \<and>
   raw_balance example_ledger 2 + delta_of (txn_entries (example_transfer 7 6)) 2 < 0"
proof -
  have e: "apply_txn (\<lambda>xs. xs) rev example_ledger (example_transfer 7 6) = Err (InsufficientFunds 2)"
    by code_simp
  from apply_txn_rejects[OF example_wf(1,3) is_order_id is_order_rev e]
  show ?thesis using e by (auto simp: raw_balance_def)
qed

text \<open>
  C2. In every ledger reachable by opening accounts and applying transactions, no account but an
  External one is overdrawn, each currency sums to zero over all accounts, each currency has at most
  one External, Withheld, DepositSuspense and BonusReserve account, and \<open>internal_total\<close> is the negated
  External balance, saturated at \<open>i64::MAX\<close>.
\<close>

theorem ledger_conservation:
  assumes "ledger_reachable b"
  shows "(\<forall>(_, ow, _, v) \<in> set (accounts b). ow = External \<or> 0 \<le> v) \<and>
    (\<forall>c. currency_total b c = 0) \<and>
    (\<forall>c. length (owned b External c) \<le> 1 \<and> length (owned b Withheld c) \<le> 1 \<and>
       length (owned b DepositSuspense c) \<le> 1 \<and> length (owned b BonusReserve c) \<le> 1) \<and>
    (\<forall>c. internal_total b c =
       Ok (min i64_MAX (- sum_list (map (\<lambda>(_, _, _, v). v) (owned b External c)))))"
  using ledger_reachable_inv[OF assms] internal_total_inv
  by (auto simp: ledger_inv_def is_money_singleton_def)

lemma reachable_full_external:
  defines "b \<equiv> \<lparr>accounts = [(1, External, Usdc, i64_MIN), (2, User, Usdc, i64_MAX), (3, User, Usdc, 1)]\<rparr>"
  shows "ledger_reachable b"
proof -
  let ?b3 = "\<lparr>accounts = [(1, External, Usdc, 0), (2, User, Usdc, 0), (3, User, Usdc, 0)]\<rparr>"
  let ?es = "[\<lparr>entry_account = 1, entry_amount = - i64_MAX\<rparr>, \<lparr>entry_account = 1, entry_amount = -1\<rparr>,
     \<lparr>entry_account = 2, entry_amount = i64_MAX\<rparr>, \<lparr>entry_account = 3, entry_amount = 1\<rparr>]"
  have "ledger_reachable \<lparr>accounts = [(1, External, Usdc, 0)]\<rparr>"
    by (rule ledger_reachable.opened[OF ledger_reachable.start, of 1 External Usdc]) code_simp
  then have "ledger_reachable \<lparr>accounts = [(1, External, Usdc, 0), (2, User, Usdc, 0)]\<rparr>"
    by (rule ledger_reachable.opened[of _ 2 User Usdc]) code_simp
  then have "ledger_reachable ?b3"
    by (rule ledger_reachable.opened[of _ 3 User Usdc]) code_simp
  then show ?thesis unfolding b_def
  proof (rule ledger_reachable.applied[OF _ _ _ is_order_id is_order_id])
    show "Transaction_new Deposit ?es = Ok \<lparr>txn_kind = Deposit, txn_entries = ?es\<rparr>" by code_simp
    show "wf_entries ?es" by (simp add: wf_entries_def width_defs)
    show "apply_txn (\<lambda>xs. xs) (\<lambda>xs. xs) ?b3 \<lparr>txn_kind = Deposit, txn_entries = ?es\<rparr> =
      Ok \<lparr>accounts = [(1, External, Usdc, i64_MIN), (2, User, Usdc, i64_MAX), (3, User, Usdc, 1)]\<rparr>"
      by code_simp
  qed
qed

text \<open>The witness is the ledger whose External account sits at \<open>i64::MIN\<close>, where the total saturates.\<close>

theorem ledger_conservation_witness:
  "internal_total \<lparr>accounts = [(1, External, Usdc, i64_MIN), (2, User, Usdc, i64_MAX), (3, User, Usdc, 1)]\<rparr> Usdc
     = Ok i64_MAX"
  using ledger_conservation[OF reachable_full_external] by (simp add: owned_def)

end
