(* ===== verification/Resolution.thy ===== *)
theory Resolution
  imports Amm Ledger
begin

text \<open>
  Model of \<open>src/crates/domain/src/resolution.rs\<close>: redemption values, the payout of one holding and the
  settlement of a whole market against its escrow. The lemmas show that settlement succeeds exactly on
  complete, non-empty holdings, that it conserves the escrow up to less than one micro-dollar per
  holding, and that it never overflows or panics.
\<close>

section \<open>Definitions\<close>

type_synonym holding = "account_id \<times> Side \<times> micro_shares"

record Settlement =
  payouts :: "(account_id \<times> micro_usd) list"
  dust :: micro_usd

datatype ResolutionError =
    ResolutionOverflow
  | ConservationViolated micro_usd micro_usd
  | ActualOutOfRange
  | HoldingsIncomplete micro_shares micro_shares

definition redemptions :: "int \<Rightarrow> (ResolutionError, micro_usd \<times> micro_usd) outcome" where
  "redemptions actual_yes_bps =
     (if 10000 < actual_yes_bps then Err ActualOutOfRange
      else
        and_then (arith fits_i64 (actual_yes_bps * 100)) (\<lambda>yes.
        and_then (arith fits_i64 (1000000 - yes)) (\<lambda>no.
        Ok (yes, no))))"

definition position_payout :: "micro_shares \<Rightarrow> micro_usd \<Rightarrow> (ResolutionError, micro_usd) outcome" where
  "position_payout shares redemption_per_share =
     (if shares < 0 \<or> redemption_per_share < 0 then Err ResolutionOverflow
      else
        and_then (arith fits_i128 (shares * redemption_per_share)) (\<lambda>product.
        ok_or (checked fits_i64 (product div 1000000)) ResolutionOverflow))"

fun add_presented :: "i128 \<times> i128 \<Rightarrow> holding \<Rightarrow> (ResolutionError, i128 \<times> i128) outcome" where
  "add_presented (yes_presented, no_presented) (_, side, shares) =
     (if shares < 0 then Err ResolutionOverflow
      else case side of
        Yes \<Rightarrow> and_then (ok_or (checked fits_i128 (yes_presented + shares)) ResolutionOverflow)
                 (\<lambda>t. Ok (t, no_presented))
      | No \<Rightarrow> and_then (ok_or (checked fits_i128 (no_presented + shares)) ResolutionOverflow)
                (\<lambda>t. Ok (yes_presented, t)))"

definition check_presented :: "micro_shares \<Rightarrow> i128 \<Rightarrow> (ResolutionError, unit) outcome" where
  "check_presented minted presented =
     (if presented \<noteq> minted
      then and_then (ok_or (checked fits_i64 presented) ResolutionOverflow)
             (\<lambda>presented. Err (HoldingsIncomplete minted presented))
      else Ok ())"

fun add_payout ::
  "micro_usd \<times> micro_usd \<Rightarrow> (account_id \<times> micro_usd) list \<times> i128 \<Rightarrow> holding \<Rightarrow>
     (ResolutionError, (account_id \<times> micro_usd) list \<times> i128) outcome" where
  "add_payout (yes_redemption, no_redemption) (paid, payout_sum) (account, side, shares) =
     and_then (position_payout shares (case side of Yes \<Rightarrow> yes_redemption | No \<Rightarrow> no_redemption)) (\<lambda>payout.
     and_then (ok_or (checked fits_i128 (payout_sum + payout)) ResolutionOverflow) (\<lambda>payout_sum.
     Ok (paid @ [(account, payout)], payout_sum)))"

definition settle_market ::
  "holding list \<Rightarrow> int \<Rightarrow> micro_usd \<Rightarrow> (ResolutionError, Settlement) outcome" where
  "settle_market holdings actual_yes_bps escrow =
     and_then (redemptions actual_yes_bps) (\<lambda>reds.
     if escrow < 0 then Err ResolutionOverflow else
     and_then (try_fold add_presented holdings (0, 0)) (\<lambda>presented.
     and_then (check_presented escrow (fst presented)) (\<lambda>_.
     and_then (check_presented escrow (snd presented)) (\<lambda>_.
     and_then (try_fold (add_payout reds) holdings ([], 0)) (\<lambda>paid.
     and_then (arith fits_i128 (escrow - snd paid)) (\<lambda>dust_i128.
     and_then (ok_or (checked fits_i64 dust_i128) ResolutionOverflow) (\<lambda>dust_i64.
     and_then (ok_or (checked fits_i128 (snd paid + dust_i128)) ResolutionOverflow) (\<lambda>recombined.
     and_then (ok_or (checked fits_i128 (int (length holdings))) ResolutionOverflow) (\<lambda>holding_count.
     if recombined \<noteq> escrow \<or> holding_count \<le> dust_i128
     then and_then (ok_or (checked fits_i64 recombined) ResolutionOverflow)
            (\<lambda>got. Err (ConservationViolated escrow got))
     else Ok \<lparr>payouts = fst paid, dust = dust_i64\<rparr>)))))))))"

section \<open>Abstract settlement\<close>

definition side_total :: "Side \<Rightarrow> holding list \<Rightarrow> int" where
  "side_total s hs = sum_list (map (\<lambda>(_, side, shares). if side = s then shares else 0) hs)"

definition redemption_of :: "int \<Rightarrow> Side \<Rightarrow> int" where
  "redemption_of bps s = (case s of Yes \<Rightarrow> bps * 100 | No \<Rightarrow> 1000000 - bps * 100)"

definition payout_of :: "int \<Rightarrow> holding \<Rightarrow> account_id \<times> int" where
  "payout_of bps h = (case h of (a, s, x) \<Rightarrow> (a, x * redemption_of bps s div 1000000))"

definition complete_sets :: "holding list \<Rightarrow> int \<Rightarrow> bool" where
  "complete_sets hs escrow \<longleftrightarrow> list_all (\<lambda>(_, _, x). 0 \<le> x) hs \<and>
     side_total Yes hs = escrow \<and> side_total No hs = escrow"

definition wf_holdings :: "holding list \<Rightarrow> bool" where
  "wf_holdings hs \<longleftrightarrow> list_all (\<lambda>(_, _, x). fits_i64 x) hs \<and> vec_len hs"

definition settled :: "holding list \<Rightarrow> int \<Rightarrow> int \<Rightarrow> Settlement" where
  "settled hs bps escrow =
     \<lparr>payouts = map (payout_of bps) hs, dust = escrow - sum_list (map (snd \<circ> payout_of bps) hs)\<rparr>"

lemma redemptions_eq:
  "fits_u16 bps \<Longrightarrow> redemptions bps =
     (if 10000 < bps then Err ActualOutOfRange else Ok (redemption_of bps Yes, redemption_of bps No))"
  by (simp add: redemptions_def redemption_of_def width_defs)

lemma redemption_range: "0 \<le> bps \<Longrightarrow> bps \<le> 10000 \<Longrightarrow> 0 \<le> redemption_of bps s \<and> redemption_of bps s \<le> 1000000"
  by (simp add: redemption_of_def split: Side.split)

lemma payout_range:
  fixes x r :: int
  assumes "0 \<le> x" "0 \<le> r" "r \<le> 1000000"
  shows "0 \<le> x * r div 1000000" "x * r div 1000000 \<le> x"
proof -
  show "0 \<le> x * r div 1000000" using assms by (simp add: pos_imp_zdiv_nonneg_iff)
  have "x * r \<le> x * 1000000" using assms by (intro mult_left_mono) auto
  then have "x * r div 1000000 \<le> x * 1000000 div 1000000" by (intro zdiv_mono1) auto
  then show "x * r div 1000000 \<le> x" by simp
qed

lemma position_payout_eq:
  assumes "fits_i64 x" "0 \<le> x" "0 \<le> r" "r \<le> 1000000"
  shows "position_payout x r = Ok (x * r div 1000000)"
proof -
  have "0 \<le> x * r" "x * r \<le> i64_MAX * 1000000"
    using assms mult_mono[of x i64_MAX r 1000000] by (auto simp: width_defs)
  then show ?thesis using assms payout_range[OF assms(2-4)] by (simp add: position_payout_def width_defs)
qed

section \<open>The two passes over the holdings\<close>

lemma side_total_Cons [simp]:
  "side_total s [] = 0" "side_total s ((a, side, x) # hs) = (if side = s then x else 0) + side_total s hs"
  by (simp_all add: side_total_def)

lemma add_presented_pass:
  assumes "list_all (\<lambda>(_, _, x). fits_i64 x) hs" "0 \<le> y" "0 \<le> n"
    "y + int (length hs) * i64_MAX \<le> 170141183460469231731687303715884105727"
    "n + int (length hs) * i64_MAX \<le> 170141183460469231731687303715884105727"
  shows "try_fold add_presented hs (y, n) =
    (if list_all (\<lambda>(_, _, x). 0 \<le> x) hs then Ok (y + side_total Yes hs, n + side_total No hs)
     else Err ResolutionOverflow)"
  using assms
proof (induction hs arbitrary: y n)
  case (Cons h hs)
  obtain a side x where h: "h = (a, side, x)" by (cases h) auto
  have x: "x \<le> i64_MAX" using Cons.prems(1) h by (simp add: width_defs)
  have b: "y + i64_MAX + int (length hs) * i64_MAX \<le> 170141183460469231731687303715884105727"
    "n + i64_MAX + int (length hs) * i64_MAX \<le> 170141183460469231731687303715884105727"
    using Cons.prems(4,5) by (simp_all add: algebra_simps)
  have "0 \<le> int (length hs) * i64_MAX" by simp
  with b x have f: "0 \<le> x \<Longrightarrow> fits_i128 (y + x)" "0 \<le> x \<Longrightarrow> fits_i128 (n + x)"
    using Cons.prems(2,3) unfolding width_defs by linarith+
  show ?case
    using Cons.prems(1-3) Cons.IH[of "y + x" n] Cons.IH[of y "n + x"] b x f
    by (cases side) (auto simp: h)
qed simp

lemma add_payout_pass:
  assumes "list_all (\<lambda>(_, _, x). fits_i64 x \<and> 0 \<le> x) hs" "0 \<le> bps" "bps \<le> 10000" "0 \<le> s"
    "s + int (length hs) * i64_MAX \<le> 170141183460469231731687303715884105727"
  shows "try_fold (add_payout (redemption_of bps Yes, redemption_of bps No)) hs (ps, s) =
    Ok (ps @ map (payout_of bps) hs, s + sum_list (map (snd \<circ> payout_of bps) hs))"
  using assms
proof (induction hs arbitrary: ps s)
  case (Cons h hs)
  obtain a side x where h: "h = (a, side, x)" by (cases h) auto
  let ?r = "redemption_of bps side" and ?p = "x * redemption_of bps side div 1000000"
  have x: "fits_i64 x" "0 \<le> x" using Cons.prems(1) h by auto
  have r: "0 \<le> ?r" "?r \<le> 1000000" using redemption_range[OF Cons.prems(2,3)] by auto
  have p: "position_payout x ?r = Ok ?p" "0 \<le> ?p" "?p \<le> i64_MAX"
    using position_payout_eq[OF x r] payout_range[OF x(2) r] x(1) by (auto simp: width_defs)
  have b: "s + i64_MAX + int (length hs) * i64_MAX \<le> 170141183460469231731687303715884105727"
    using Cons.prems(5) by (simp add: algebra_simps)
  moreover have "0 \<le> int (length hs) * i64_MAX" by simp
  ultimately have f: "fits_i128 (s + ?p)" using Cons.prems(4) p unfolding width_defs by linarith
  have red: "(case side of Yes \<Rightarrow> redemption_of bps Yes | No \<Rightarrow> redemption_of bps No) = ?r"
    by (cases side) simp_all
  show ?case
    using Cons.prems Cons.IH[of "s + ?p" "ps @ [(a, ?p)]"] b p f
    by (simp add: h red payout_of_def add.assoc)
qed simp

section \<open>Dust\<close>

lemma total_value:
  "sum_list (map (\<lambda>(_, s, x). x * redemption_of bps s) hs) =
     side_total Yes hs * redemption_of bps Yes + side_total No hs * redemption_of bps No"
proof (induction hs)
  case (Cons h hs)
  obtain a side x where "h = (a, side, x)" by (cases h) auto
  with Cons show ?case by (cases side) (simp_all add: algebra_simps)
qed simp

lemma floor_sum:
  fixes f :: "'a \<Rightarrow> int"
  assumes "hs \<noteq> []"
  shows "sum_list (map (\<lambda>h. f h div 1000000) hs) * 1000000 \<le> sum_list (map f hs)"
    "sum_list (map f hs) < (sum_list (map (\<lambda>h. f h div 1000000) hs) + int (length hs)) * 1000000"
proof -
  show "sum_list (map (\<lambda>h. f h div 1000000) hs) * 1000000 \<le> sum_list (map f hs)"
    by (induction hs) auto
  show "sum_list (map f hs) < (sum_list (map (\<lambda>h. f h div 1000000) hs) + int (length hs)) * 1000000"
    using assms by (induction hs rule: list_nonempty_induct) (auto simp: algebra_simps)
qed

lemma dust_bounds:
  assumes "complete_sets hs escrow" "hs \<noteq> []"
  shows "0 \<le> dust (settled hs bps escrow)" "dust (settled hs bps escrow) < int (length hs)"
proof -
  let ?f = "\<lambda>(_, s, x). x * redemption_of bps s"
  have "sum_list (map ?f hs) = escrow * (redemption_of bps Yes + redemption_of bps No)"
    using assms(1) total_value[of bps hs] by (simp add: complete_sets_def distrib_left)
  then have v: "sum_list (map ?f hs) = escrow * 1000000" by (simp add: redemption_of_def)
  have e: "map (snd \<circ> payout_of bps) hs = map (\<lambda>h. ?f h div 1000000) hs"
    by (auto simp: payout_of_def split_beta)
  show "0 \<le> dust (settled hs bps escrow)" "dust (settled hs bps escrow) < int (length hs)"
    using floor_sum[OF assms(2), of ?f] v unfolding settled_def Settlement.simps e by auto
qed

section \<open>Settlement\<close>

definition incomplete :: "int \<Rightarrow> int \<Rightarrow> ResolutionError" where
  "incomplete escrow tot = (if fits_i64 tot then HoldingsIncomplete escrow tot else ResolutionOverflow)"

definition settle_spec :: "holding list \<Rightarrow> int \<Rightarrow> int \<Rightarrow> (ResolutionError, Settlement) outcome" where
  "settle_spec hs bps escrow =
     (if 10000 < bps then Err ActualOutOfRange
      else if escrow < 0 \<or> \<not> list_all (\<lambda>(_, _, x). 0 \<le> x) hs then Err ResolutionOverflow
      else if side_total Yes hs \<noteq> escrow then Err (incomplete escrow (side_total Yes hs))
      else if side_total No hs \<noteq> escrow then Err (incomplete escrow (side_total No hs))
      else if hs = [] then Err (ConservationViolated 0 0)
      else Ok (settled hs bps escrow))"

lemma wf_holdings_len:
  "wf_holdings hs \<Longrightarrow> int (length hs) * i64_MAX \<le> 170141183460469231731687303715884105727"
  "wf_holdings hs \<Longrightarrow> fits_i128 (int (length hs))"
proof -
  assume "wf_holdings hs"
  then have l: "int (length hs) \<le> i64_MAX" by (simp add: wf_holdings_def)
  then show "fits_i128 (int (length hs))" by (simp add: width_defs)
  from l have "int (length hs) * i64_MAX \<le> i64_MAX * i64_MAX" by (rule mult_right_mono) simp
  then show "int (length hs) * i64_MAX \<le> 170141183460469231731687303715884105727" by simp
qed

lemma check_presented_eq:
  "check_presented minted tot = (if tot = minted then Ok () else Err (incomplete minted tot))"
  by (simp add: check_presented_def incomplete_def checked_def)

lemma settle_market_eq:
  assumes "wf_holdings hs" "fits_u16 bps" "fits_i64 escrow"
  shows "settle_market hs bps escrow = settle_spec hs bps escrow"
proof (cases "bps \<le> 10000 \<and> 0 \<le> escrow \<and> complete_sets hs escrow")
  case False
  have pass: "try_fold add_presented hs (0, 0) =
    (if list_all (\<lambda>(_, _, x). 0 \<le> x) hs then Ok (side_total Yes hs, side_total No hs) else Err ResolutionOverflow)"
    using add_presented_pass[of hs 0 0] assms(1) wf_holdings_len[OF assms(1)] by (simp add: wf_holdings_def)
  show ?thesis using False
    by (auto simp: settle_market_def settle_spec_def redemptions_eq[OF assms(2)] pass check_presented_eq complete_sets_def)
next
  case True
  have pass: "try_fold add_presented hs (0, 0) = Ok (escrow, escrow)"
    using add_presented_pass[of hs 0 0] assms(1) wf_holdings_len[OF assms(1)] True
    by (simp add: wf_holdings_def complete_sets_def)
  let ?sum = "sum_list (map (snd \<circ> payout_of bps) hs)"
  have pay: "try_fold (add_payout (redemption_of bps Yes, redemption_of bps No)) hs ([], 0) =
      Ok (map (payout_of bps) hs, ?sum)"
    using add_payout_pass[of hs bps 0 "[]"] assms(1,2) wf_holdings_len[OF assms(1)] True
    by (simp add: wf_holdings_def complete_sets_def list_all_iff split_beta width_defs)
  have d: "hs \<noteq> [] \<Longrightarrow> 0 \<le> escrow - ?sum \<and> escrow - ?sum < int (length hs)"
    using dust_bounds[of hs escrow bps] True by (simp add: settled_def)
  have "hs = [] \<Longrightarrow> escrow = 0" using True by (simp add: complete_sets_def)
  moreover have "fits_i128 (escrow - ?sum)" "fits_i64 (escrow - ?sum)" if "hs \<noteq> []"
    using d[OF that] assms(1) by (simp_all add: wf_holdings_def width_defs)
  ultimately show ?thesis using True d assms(3) wf_holdings_len(2)[OF assms(1)] fits_i64_i128[OF assms(3)]
    by (cases "hs = []")
      (simp_all add: settle_market_def settle_spec_def redemptions_eq[OF assms(2)] pass check_presented_eq pay
        complete_sets_def settled_def width_defs)
qed

lemma side_total_nonneg: "list_all (\<lambda>(_, _, x). 0 \<le> x) hs \<Longrightarrow> 0 \<le> side_total s hs"
  by (induction hs) auto

section \<open>Properties\<close>

text \<open>
  C7. Settlement pays out exactly the escrow: on complete, non-empty holdings (every outstanding share of
  both sides presented, as many of each as micro-dollars in escrow) it always succeeds, pays every holding
  the floor of its redemption value in order, and payouts and dust add up to the escrow with the dust
  non-negative and below the number of holdings. It never panics, and no payout list ever fails the
  conservation check but that of a market with no holdings at all.
\<close>

theorem settlement_conserves:
  assumes "wf_holdings hs" "fits_u16 bps" "fits_i64 escrow"
  shows "(settle_market hs bps escrow = Ok s \<longleftrightarrow>
      bps \<le> 10000 \<and> complete_sets hs escrow \<and> hs \<noteq> [] \<and>
      payouts s = map (payout_of bps) hs \<and> sum_list (map snd (payouts s)) + dust s = escrow) \<and>
    (settle_market hs bps escrow = Ok s \<longrightarrow>
      0 \<le> dust s \<and> dust s < int (length hs) \<and> list_all (\<lambda>(_, x). 0 \<le> x) (payouts s)) \<and>
    settle_market hs bps escrow \<noteq> Panic \<and>
    (\<forall>x y. settle_market hs bps escrow = Err (ConservationViolated x y) \<longrightarrow> hs = [])"
proof -
  have nonneg: "complete_sets hs escrow \<Longrightarrow> hs \<noteq> [] \<Longrightarrow> 0 \<le> escrow"
    using side_total_nonneg[of hs Yes] by (simp add: complete_sets_def)
  have "s = settled hs bps escrow \<longleftrightarrow>
      payouts s = map (payout_of bps) hs \<and> sum_list (map snd (payouts s)) + dust s = escrow"
    by (cases s) (auto simp: settled_def)
  moreover have "list_all (\<lambda>(_, x). 0 \<le> x) (payouts (settled hs bps escrow))"
    if "complete_sets hs escrow" "bps \<le> 10000"
    using that assms(2) redemption_range[of bps]
    by (auto simp: settled_def list_all_iff complete_sets_def payout_of_def width_defs intro!: payout_range)
  ultimately show ?thesis
    using nonneg dust_bounds[of hs escrow bps]
    by (auto simp: settle_market_eq[OF assms] settle_spec_def complete_sets_def incomplete_def)
qed

definition example_holdings :: "holding list" where
  "example_holdings = [(1, Yes, 60), (1, No, 55), (2, Yes, 40), (3, No, 45)]"

theorem settlement_conserves_witness:
  "\<exists>s. settle_market example_holdings 3333 100 = Ok s \<and> sum_list (map snd (payouts s)) + dust s = 100 \<and>
     0 \<le> dust s \<and> dust s < 4"
proof -
  have h: "wf_holdings example_holdings" "fits_u16 3333" "fits_i64 100"
    by (simp_all add: wf_holdings_def example_holdings_def width_defs)
  have "is_ok (settle_market example_holdings 3333 100)" by code_simp
  then obtain s where s: "settle_market example_holdings 3333 100 = Ok s"
    by (cases "settle_market example_holdings 3333 100") auto
  then show ?thesis using settlement_conserves[OF h, of s] by (auto simp: example_holdings_def)
qed

text \<open>
  C24. Every rejected settlement has its cause, tested in the code's order: a result above 10,000 basis
  points, a negative escrow or holding, then the first side whose total differs from the minted sets, with
  both numbers reported (or an overflow when that total does not fit), and last the empty market.
\<close>

theorem settle_market_closed_form:
  assumes "wf_holdings hs" "fits_u16 bps" "fits_i64 escrow"
  shows "settle_market hs bps escrow = settle_spec hs bps escrow"
  using assms by (rule settle_market_eq)

theorem settle_market_closed_form_witness:
  "settle_market [(1, Yes, 60), (2, No, 61)] 5000 60 = Err (HoldingsIncomplete 60 61)"
proof -
  have "wf_holdings [(1, Yes, 60), (2, No, 61)]" "fits_u16 5000" "fits_i64 60"
    by (simp_all add: wf_holdings_def width_defs)
  from settle_market_closed_form[OF this] show ?thesis
    by (simp add: settle_spec_def incomplete_def width_defs)
qed

end
