(* ===== verification/Market.thy ===== *)
theory Market
  imports Prelude
begin

text \<open>
  Model of \<open>src/crates/domain/src/market.rs\<close>: the market lifecycle. The locale \<open>lifecycle\<close> collects what
  any state machine whose accepted events raise a rank has: bounded histories and no way back. The market
  is an instance of it.
\<close>

section \<open>Definitions\<close>

datatype MarketState =
    Draft | Scheduled | Live | Closing | Closed | Resolving | Resolved | Paid | Voided

datatype MarketEvent =
    Approve | GoLive | EnterCloseWindow | Close | StartIntegritySweep | Resolve | Pay
  | VoidLowParticipation | VoidByAdmin

datatype TransitionError = Illegal MarketState MarketEvent

fun transition :: "MarketState \<Rightarrow> MarketEvent \<Rightarrow> (TransitionError, MarketState) outcome" where
  "transition Draft Approve = Ok Scheduled"
| "transition Scheduled GoLive = Ok Live"
| "transition Live EnterCloseWindow = Ok Closing"
| "transition Closing Close = Ok Closed"
| "transition Closed StartIntegritySweep = Ok Resolving"
| "transition Closed Resolve = Ok Resolved"
| "transition Resolving Resolve = Ok Resolved"
| "transition Resolved Pay = Ok Paid"
| "transition Closed VoidLowParticipation = Ok Voided"
| "transition Resolving VoidLowParticipation = Ok Voided"
| "transition Draft VoidByAdmin = Ok Voided"
| "transition Scheduled VoidByAdmin = Ok Voided"
| "transition Live VoidByAdmin = Ok Voided"
| "transition Closing VoidByAdmin = Ok Voided"
| "transition Closed VoidByAdmin = Ok Voided"
| "transition Resolving VoidByAdmin = Ok Voided"
| "transition Resolved VoidByAdmin = Ok Voided"
| "transition from event = Err (Illegal from event)"

section \<open>State machines whose events raise a rank\<close>

locale lifecycle =
  fixes step :: "'s \<Rightarrow> 'v \<Rightarrow> ('e, 's) outcome"
    and rank :: "'s \<Rightarrow> nat"
  assumes step_rank: "step s v = Ok s' \<Longrightarrow> rank s < rank s'"
begin

lemma run_rank: "try_fold step vs s = Ok s' \<Longrightarrow> rank s + length vs \<le> rank s'"
proof (induction vs arbitrary: s)
  case (Cons v vs)
  then obtain s1 where "step s v = Ok s1" "try_fold step vs s1 = Ok s'" by auto
  with Cons.IH[of s1] step_rank[of s v s1] show ?case by simp
qed simp

lemma no_return: "try_fold step vs s = Ok s \<Longrightarrow> vs = []"
  using run_rank[of vs s s] by simp

lemma histories_bounded:
  "try_fold step vs s = Ok s' \<Longrightarrow> (\<And>t. rank t \<le> n) \<Longrightarrow> length vs \<le> n - rank s"
  using run_rank[of vs s s'] by (metis add_leD2 le_add_diff_inverse le_diff_conv2 le_trans add_leD1 add.commute)

end

fun market_rank :: "MarketState \<Rightarrow> nat" where
  "market_rank Draft = 0"
| "market_rank Scheduled = 1"
| "market_rank Live = 2"
| "market_rank Closing = 3"
| "market_rank Closed = 4"
| "market_rank Resolving = 5"
| "market_rank Resolved = 6"
| "market_rank Paid = 7"
| "market_rank Voided = 7"

lemma transition_rank: "transition s v = Ok s' \<Longrightarrow> market_rank s < market_rank s'"
  by (induction s v rule: transition.induct) auto

interpretation market: lifecycle transition market_rank
  by unfold_locales (rule transition_rank)

lemma market_rank_le: "market_rank s \<le> 7"
  by (cases s) simp_all

section \<open>Histories\<close>

text \<open>The only event sequence that leads from Draft to each state that is not Voided; the integrity
  sweep is optional.\<close>

definition to_close :: "MarketEvent list" where
  "to_close = [Approve, GoLive, EnterCloseWindow, Close]"

fun histories :: "MarketState \<Rightarrow> MarketEvent list list" where
  "histories Draft = [[]]"
| "histories Scheduled = [[Approve]]"
| "histories Live = [[Approve, GoLive]]"
| "histories Closing = [[Approve, GoLive, EnterCloseWindow]]"
| "histories Closed = [to_close]"
| "histories Resolving = [to_close @ [StartIntegritySweep]]"
| "histories Resolved = [to_close @ [Resolve], to_close @ [StartIntegritySweep, Resolve]]"
| "histories Paid = [to_close @ [Resolve, Pay], to_close @ [StartIntegritySweep, Resolve, Pay]]"
| "histories Voided = []"

lemma histories_step:
  "transition s v = Ok s' \<Longrightarrow> s' \<noteq> Voided \<Longrightarrow> vs \<in> set (histories s) \<Longrightarrow> vs @ [v] \<in> set (histories s')"
  by (induction s v rule: transition.induct) (auto simp: to_close_def)

lemma histories_sound: "vs \<in> set (histories s) \<Longrightarrow> try_fold transition vs Draft = Ok s"
  by (cases s) (auto simp: to_close_def)

lemma voided_final: "transition Voided v \<noteq> Ok s"
  by (cases v) simp_all

lemma histories_complete:
  "try_fold transition vs Draft = Ok s \<Longrightarrow> s \<noteq> Voided \<Longrightarrow> vs \<in> set (histories s)"
proof (induction vs arbitrary: s rule: rev_induct)
  case (snoc v vs)
  then obtain s1 where s1: "try_fold transition vs Draft = Ok s1" "transition s1 v = Ok s"
    by (auto simp: try_fold_append)
  moreover have "s1 \<noteq> Voided" using s1(2) voided_final by auto
  ultimately show ?case using snoc.IH histories_step snoc.prems(2) by blast
qed simp



end
