(* ===== verification/Voting.thy ===== *)
theory Voting
  imports Amm
begin

text \<open>
  Models of \<open>src/crates/domain/src/scoring.rs\<close> (the published vote score), \<open>reputation.rs\<close> (the
  fixed-point moving average and the tier mapping) and \<open>ranking.rs\<close> (the hot score). The score is
  computed in \<open>u16\<close> as in the source, on machine words that wrap around; the lemmas show that no
  intermediate value does.
\<close>

section \<open>Vote score\<close>

record VoteScore =
  accuracy_bp :: "16 word"
  majority_bp :: "16 word"
  score_bp :: "16 word"

datatype ScoringError = GuessOutOfRange | ScoreActualOutOfRange

definition abs_diff :: "16 word \<Rightarrow> 16 word \<Rightarrow> 16 word" where
  "abs_diff a b = (if a < b then b - a else a - b)"

definition saturating_sub_u16 :: "16 word \<Rightarrow> 16 word \<Rightarrow> 16 word" where
  "saturating_sub_u16 a b = (if a < b then 0 else a - b)"

definition score_vote :: "Side \<Rightarrow> 8 word \<Rightarrow> 16 word \<Rightarrow> (ScoringError, VoteScore) outcome" where
  "score_vote side crowd_guess_pct actual_yes_bps =
     (if 100 < crowd_guess_pct then Err GuessOutOfRange
      else if 10000 < actual_yes_bps then Err ScoreActualOutOfRange
      else
        let guessed_yes_bps = ucast crowd_guess_pct * 100;
            diff = abs_diff guessed_yes_bps actual_yes_bps;
            accuracy = saturating_sub_u16 10000 (diff * 4);
            wins_majority = (actual_yes_bps = 5000 \<or> side = Yes \<and> 5000 < actual_yes_bps
              \<or> side = No \<and> actual_yes_bps < 5000);
            majority = (if wins_majority then 10000 else 0);
            score = (3 * accuracy + majority) div 4
        in Ok \<lparr>accuracy_bp = accuracy, majority_bp = majority, score_bp = score\<rparr>)"

section \<open>Reputation\<close>

datatype HalfLife = H10 | H20 | H40

fun k_ppm :: "HalfLife \<Rightarrow> int" where
  "k_ppm H10 = 933033"
| "k_ppm H20 = 965936"
| "k_ppm H40 = 982821"

datatype RepError = OperandOutOfRange

definition update_rep :: "i64 \<Rightarrow> i64 \<Rightarrow> HalfLife \<Rightarrow> (RepError, i64) outcome" where
  "update_rep rep_micro score_micro h =
     (if \<not> (0 \<le> rep_micro \<and> rep_micro \<le> 1000000) \<or> \<not> (0 \<le> score_micro \<and> score_micro \<le> 1000000)
      then Err OperandOutOfRange
      else
        let k = k_ppm h in
        and_then (arith fits_i128 (rep_micro * k)) (\<lambda>kept.
        and_then (arith fits_i128 (1000000 - k)) (\<lambda>weight.
        and_then (arith fits_i128 (score_micro * weight)) (\<lambda>fresh.
        and_then (arith fits_i128 (kept + fresh)) (\<lambda>numerator.
        and_then (arith fits_i128 (numerator + 500000)) (\<lambda>shifted.
        ok_or (checked fits_i64 (shifted div 1000000)) OperandOutOfRange))))))"

definition tier_for :: "i64 \<Rightarrow> i64 list \<Rightarrow> int" where
  "tier_for rep_micro thresholds =
     fold (\<lambda>threshold tier. tier + (if threshold \<le> rep_micro then 1 else 0)) thresholds 0"

section \<open>Hot ranking\<close>

datatype RankError = FutureTimestamp

definition hot_score :: "i32 \<Rightarrow> i64 \<Rightarrow> (RankError, i64) outcome" where
  "hot_score score age_secs =
     (if age_secs < 0 then Err FutureTimestamp
      else
        and_then (arith fits_i128 ((max score 0 + 1) * 1000000)) (\<lambda>score_num.
        let age_hours = age_secs div 3600 in
        and_then (arith fits_i128 ((age_hours + 2) * (age_hours + 2))) (\<lambda>denominator.
        Ok (case checked fits_i64 (score_num div denominator) of Some v \<Rightarrow> v | None \<Rightarrow> i64_MAX))))"

section \<open>The score in unbounded integers\<close>

definition accuracy_of :: "int \<Rightarrow> int \<Rightarrow> int" where
  "accuracy_of pct actual = max 0 (10000 - 4 * \<bar>pct * 100 - actual\<bar>)"

definition majority_of :: "Side \<Rightarrow> int \<Rightarrow> int" where
  "majority_of side actual =
     (if actual = 5000 \<or> (side = Yes \<longleftrightarrow> 5000 < actual) then 10000 else 0)"

lemma uint_sub_small: "uint b \<le> uint a \<Longrightarrow> uint (a - b) = uint a - uint b"
  by (rule uint_sub_lem[THEN iffD1])

lemma abs_diff_uint: "uint (abs_diff a b) = \<bar>uint a - uint b\<bar>"
  by (simp add: abs_diff_def word_less_def uint_sub_small)

lemma saturating_sub_uint: "uint (saturating_sub_u16 a b) = max 0 (uint a - uint b)"
  by (simp add: saturating_sub_u16_def word_less_def uint_sub_small)

lemma uint_mult_small: "uint a * uint b < 65536 \<Longrightarrow> uint (a * b) = uint a * uint b" for a b :: "16 word"
  using uint_mult_lem[of a b] by simp

lemma uint_add_small: "uint a + uint b < 65536 \<Longrightarrow> uint (a + b) = uint a + uint b" for a b :: "16 word"
  using uint_add_lem[of a b] by simp

lemma score_vote_eq:
  assumes "pct \<le> 100" "actual \<le> 10000"
  shows "\<exists>v. score_vote side pct actual = Ok v \<and>
    uint (accuracy_bp v) = accuracy_of (uint pct) (uint actual) \<and>
    uint (majority_bp v) = majority_of side (uint actual) \<and>
    uint (score_bp v) = (75 * accuracy_of (uint pct) (uint actual) + 25 * majority_of side (uint actual)) div 100"
proof -
  define g :: "16 word" where "g = ucast pct * 100"
  define d where "d = abs_diff g actual"
  define acc where "acc = saturating_sub_u16 10000 (d * 4)"
  define maj :: "16 word" where "maj = (if actual = 5000 \<or> side = Yes \<and> 5000 < actual \<or> side = No \<and> actual < 5000 then 10000 else 0)"
  have p: "uint pct \<le> 100" "uint actual \<le> 10000" using assms by (simp_all add: word_le_def)
  have "uint (ucast pct :: 16 word) = uint pct" by (simp add: uint_up_ucast is_up)
  then have g: "uint g = uint pct * 100" unfolding g_def using p uint_mult_small[of "ucast pct" 100] by simp
  then have d: "uint d = \<bar>uint pct * 100 - uint actual\<bar>" unfolding d_def abs_diff_uint by simp
  then have "uint d \<le> 10000" using p uint_ge_0[of pct] uint_ge_0[of actual] by linarith
  then have "uint (d * 4) = uint d * 4" using uint_mult_small[of d 4] by simp
  then have acc: "uint acc = accuracy_of (uint pct) (uint actual)"
    unfolding acc_def saturating_sub_uint accuracy_of_def d by simp
  have maj: "uint maj = majority_of side (uint actual)"
    by (cases side) (auto simp: maj_def majority_of_def word_less_def word_uint_eq_iff)
  have a: "0 \<le> uint acc" "uint acc \<le> 10000" "uint maj \<in> {0, 10000}"
    unfolding acc maj by (auto simp: accuracy_of_def majority_of_def)
  have "uint (3 * acc) = 3 * uint acc" using a uint_mult_small[of 3 acc] by simp
  then have "uint (3 * acc + maj) = 3 * uint acc + uint maj" using a uint_add_small[of "3 * acc" maj] by auto
  then have s: "uint ((3 * acc + maj) div 4) = (3 * uint acc + uint maj) div 4" by (simp add: uint_div)
  have "(25 * (3 * uint acc + uint maj)) div (25 * 4) = (3 * uint acc + uint maj) div 4"
    by (rule div_mult_mult1) simp
  then have "(75 * uint acc + 25 * uint maj) div 100 = (3 * uint acc + uint maj) div 4" by simp
  then show ?thesis using assms s acc maj
    unfolding score_vote_def Let_def g_def[symmetric] d_def[symmetric] acc_def[symmetric] maj_def[symmetric]
    by (simp add: not_less)
qed

lemma score_vote_errors:
  "100 < pct \<Longrightarrow> score_vote side pct actual = Err GuessOutOfRange"
  "pct \<le> 100 \<Longrightarrow> 10000 < actual \<Longrightarrow> score_vote side pct actual = Err ScoreActualOutOfRange"
  by (simp_all add: score_vote_def not_less)

text \<open>
  C25. The vote score computed in wrapping 16-bit arithmetic is the published formula: 75% accuracy (10,000
  less four times the distance of the guess from the result, at least 0) plus 25% majority, rounded down,
  with no intermediate overflow; each component lies between 0 and 10,000, guesses above 100% and results
  above 10,000 are rejected, and swapping the sides (with guess and result mirrored) leaves the score
  unchanged.
\<close>

theorem score_vote_published:
  "case score_vote side pct actual of
      Ok v \<Rightarrow> pct \<le> 100 \<and> actual \<le> 10000 \<and>
        uint (accuracy_bp v) = accuracy_of (uint pct) (uint actual) \<and>
        uint (majority_bp v) = majority_of side (uint actual) \<and>
        uint (score_bp v) =
          (75 * accuracy_of (uint pct) (uint actual) + 25 * majority_of side (uint actual)) div 100 \<and>
        uint (accuracy_bp v) \<le> 10000 \<and> uint (majority_bp v) \<le> 10000 \<and> uint (score_bp v) \<le> 10000 \<and>
        score_vote (case side of Yes \<Rightarrow> No | No \<Rightarrow> Yes) (100 - pct) (10000 - actual) = Ok v
    | Err e \<Rightarrow> e = GuessOutOfRange \<and> 100 < pct \<or> e = ScoreActualOutOfRange \<and> pct \<le> 100 \<and> 10000 < actual
    | Panic \<Rightarrow> False"
proof (cases "pct \<le> 100 \<and> actual \<le> 10000")
  case True
  let ?side = "case side of Yes \<Rightarrow> No | No \<Rightarrow> Yes"
  have u: "uint (100 - pct) = 100 - uint pct" "uint (10000 - actual) = 10000 - uint actual"
    using True by (auto simp: uint_sub_small word_le_def)
  then have le: "100 - pct \<le> 100" "10000 - actual \<le> 10000" by (simp_all add: word_le_def)
  have mirror: "accuracy_of (100 - x) (10000 - y) = accuracy_of x y" for x y
    by (auto simp: accuracy_of_def abs_if)
  have flip: "majority_of ?side (10000 - y) = majority_of side y" for y
    by (cases side) (auto simp: majority_of_def)
  from True score_vote_eq[of pct actual side] obtain v where v: "score_vote side pct actual = Ok v"
    "uint (accuracy_bp v) = accuracy_of (uint pct) (uint actual)"
    "uint (majority_bp v) = majority_of side (uint actual)"
    "uint (score_bp v) = (75 * accuracy_of (uint pct) (uint actual) + 25 * majority_of side (uint actual)) div 100"
    by blast
  from score_vote_eq[OF le, of ?side] obtain w where w: "score_vote ?side (100 - pct) (10000 - actual) = Ok w"
    "uint (accuracy_bp w) = accuracy_of (uint pct) (uint actual)"
    "uint (majority_bp w) = majority_of side (uint actual)"
    "uint (score_bp w) = (75 * accuracy_of (uint pct) (uint actual) + 25 * majority_of side (uint actual)) div 100"
    unfolding u mirror flip by blast
  have "w = v" using v(2-4) w(2-4) by (simp add: word_uint_eq_iff)
  moreover have "0 \<le> accuracy_of (uint pct) (uint actual)" "accuracy_of (uint pct) (uint actual) \<le> 10000"
    "majority_of side (uint actual) \<in> {0, 10000}" by (auto simp: accuracy_of_def majority_of_def)
  ultimately show ?thesis using True v w(1) by auto
next
  case False
  then show ?thesis by (cases "pct \<le> 100") (auto simp: not_le score_vote_errors)
qed

section \<open>Reputation\<close>

text \<open>\<open>round_half_up n\<close> is \<open>n / 1,000,000\<close> to the nearest integer, halves up.\<close>

definition round_half_up :: "int \<Rightarrow> int" where
  "round_half_up n = (n + 500000) div 1000000"

lemma round_half_up_bounds: "n - 500000 < round_half_up n * 1000000" "round_half_up n * 1000000 \<le> n + 500000"
  unfolding round_half_up_def by auto

lemma round_half_up_near: "2 * \<bar>round_half_up n * 1000000 - n\<bar> \<le> 1000000"
  using round_half_up_bounds[of n] by (simp add: abs_if)

lemma round_half_up_mono: "m \<le> n \<Longrightarrow> round_half_up m \<le> round_half_up n"
  unfolding round_half_up_def by (intro zdiv_mono1) auto

lemma round_half_up_exact: "round_half_up (x * 1000000) = x"
  unfolding round_half_up_def by simp

lemma k_ppm_range: "0 < k_ppm h" "k_ppm h < 1000000"
  by (cases h; simp)+

definition blend :: "int \<Rightarrow> int \<Rightarrow> HalfLife \<Rightarrow> int" where
  "blend r s h = r * k_ppm h + s * (1000000 - k_ppm h)"

lemma blend_mono: "r \<le> r' \<Longrightarrow> s \<le> s' \<Longrightarrow> blend r s h \<le> blend r' s' h"
  unfolding blend_def using k_ppm_range[of h] by (intro add_mono mult_right_mono) auto

lemma blend_same: "blend x x h = x * 1000000"
  by (simp add: blend_def algebra_simps)

lemma blend_bounds:
  "min r s * 1000000 \<le> blend r s h" "blend r s h \<le> max r s * 1000000"
  using blend_mono[of "min r s" r "min r s" s h] blend_mono[of r "max r s" s "max r s" h]
  by (simp_all add: blend_same)

lemma rounded_between: "min r s \<le> round_half_up (blend r s h)" "round_half_up (blend r s h) \<le> max r s"
  using round_half_up_mono[OF blend_bounds(1)[of r s h]] round_half_up_mono[OF blend_bounds(2)[of r s h]]
  unfolding round_half_up_exact by simp_all

lemma update_rep_eq:
  assumes "0 \<le> r" "r \<le> 1000000" "0 \<le> s" "s \<le> 1000000"
  shows "update_rep r s h = Ok (round_half_up (blend r s h))"
proof -
  have k: "0 < k_ppm h" "k_ppm h < 1000000" by (rule k_ppm_range)+
  have p: "0 \<le> r * k_ppm h" "r * k_ppm h \<le> 1000000 * 1000000" "0 \<le> s * (1000000 - k_ppm h)"
    "s * (1000000 - k_ppm h) \<le> 1000000 * 1000000"
    using assms k mult_mono[of r 1000000 "k_ppm h" 1000000] mult_mono[of s 1000000 "1000000 - k_ppm h" 1000000] by auto
  then have f: "fits_i128 (r * k_ppm h)" "fits_i128 (1000000 - k_ppm h)" "fits_i128 (s * (1000000 - k_ppm h))"
    "fits_i128 (blend r s h)" "fits_i128 (blend r s h + 500000)"
    using k unfolding blend_def width_defs by linarith+
  have "fits_i64 (round_half_up (blend r s h))"
    using rounded_between[of r s h] assms by (auto simp: width_defs)
  then show ?thesis using assms f by (simp add: update_rep_def Let_def blend_def round_half_up_def)
qed

text \<open>
  C26. On operands in the unit interval the reputation update never fails and lands between the old
  reputation and the score; it is within half a micro-unit of the exact weighted mean (halves rounded
  up), monotone in both operands, leaves a reputation equal to the score unchanged, and moves strictly
  towards a score at least 30 micro-units away, so no coefficient freezes it. Operands outside the interval
  are rejected.
\<close>

theorem update_rep_converges:
  "case update_rep r s h of
     Ok v \<Rightarrow> 0 \<le> r \<and> r \<le> 1000000 \<and> 0 \<le> s \<and> s \<le> 1000000 \<and>
       min r s \<le> v \<and> v \<le> max r s \<and>
       2 * \<bar>v * 1000000 - (r * k_ppm h + s * (1000000 - k_ppm h))\<bar> \<le> 1000000 \<and>
       (r = s \<longrightarrow> v = r) \<and> (r + 30 \<le> s \<longrightarrow> r < v) \<and> (s + 30 \<le> r \<longrightarrow> v < r) \<and>
       (\<forall>r' s' v'. r \<le> r' \<and> s \<le> s' \<and> update_rep r' s' h = Ok v' \<longrightarrow> v \<le> v')
   | Err e \<Rightarrow> \<not> (0 \<le> r \<and> r \<le> 1000000 \<and> 0 \<le> s \<and> s \<le> 1000000)
   | Panic \<Rightarrow> False"
proof (cases "0 \<le> r \<and> r \<le> 1000000 \<and> 0 \<le> s \<and> s \<le> 1000000")
  case True
  let ?v = "round_half_up (blend r s h)"
  have b: "blend r s h = r * 1000000 + (s - r) * (1000000 - k_ppm h)" by (simp add: blend_def algebra_simps)
  have w: "17179 \<le> 1000000 - k_ppm h" by (cases h) simp_all
  have up: "r < ?v" if "r + 30 \<le> s"
  proof -
    have "30 * 17179 \<le> (s - r) * (1000000 - k_ppm h)" using that w by (intro mult_mono) auto
    then show ?thesis using b round_half_up_bounds(1)[of "blend r s h"] by simp
  qed
  have down: "?v < r" if "s + 30 \<le> r"
  proof -
    have "30 * 17179 \<le> (r - s) * (1000000 - k_ppm h)" using that w by (intro mult_mono) auto
    then show ?thesis using b round_half_up_bounds(2)[of "blend r s h"] by (simp add: algebra_simps)
  qed
  have mono: "?v \<le> v'" if "r \<le> r'" "s \<le> s'" "update_rep r' s' h = Ok v'" for r' s' v'
  proof -
    have "0 \<le> r' \<and> r' \<le> 1000000 \<and> 0 \<le> s' \<and> s' \<le> 1000000"
      using that(3) by (auto simp: update_rep_def split: if_splits)
    then show ?thesis using that update_rep_eq[of r' s' h] blend_mono[OF that(1,2)] round_half_up_mono by auto
  qed
  have near: "2 * \<bar>?v * 1000000 - (r * k_ppm h + s * (1000000 - k_ppm h))\<bar> \<le> 1000000"
    using round_half_up_near[of "blend r s h"] by (simp only: blend_def)
  show ?thesis using True update_rep_eq[of r s h] rounded_between[of r s h] near up down mono
    by (auto simp: blend_same round_half_up_exact)
next
  case False
  then show ?thesis by (auto simp: update_rep_def)
qed

theorem update_rep_converges_witness:
  "update_rep 0 1000000 H10 = Ok 66967 \<and> (0 :: int) < 66967"
proof -
  have e: "update_rep 0 1000000 H10 = Ok 66967" by code_simp
  show ?thesis using e update_rep_converges[of 0 1000000 H10] by simp
qed

section \<open>Tiers\<close>

lemma tier_fold: "fold (\<lambda>t n. n + (if t \<le> r then 1 else 0)) ts n = n + int (length (filter (\<lambda>t. t \<le> r) ts))"
  by (induction ts arbitrary: n) auto

lemma tier_for_count: "tier_for r ts = int (length (filter (\<lambda>t. t \<le> r) ts))"
  by (simp add: tier_for_def tier_fold)

lemma filter_le_mono: "r \<le> (r' :: int) \<Longrightarrow> length (filter (\<lambda>t. t \<le> r) ts) \<le> length (filter (\<lambda>t. t \<le> r') ts)"
  by (induction ts) auto

lemma sorted_filter_le:
  fixes r :: int
  shows "sorted ts \<Longrightarrow> i < length ts \<Longrightarrow> i < length (filter (\<lambda>t. t \<le> r) ts) \<longleftrightarrow> ts ! i \<le> r"
proof (induction ts arbitrary: i)
  case (Cons t ts)
  show ?case
  proof (cases "t \<le> r")
    case True
    then show ?thesis using Cons by (cases i) auto
  next
    case False
    then have "filter (\<lambda>t. t \<le> r) (t # ts) = []" using Cons.prems(1) by (auto simp: filter_empty_conv)
    moreover have "t \<le> (t # ts) ! i" using Cons.prems by (cases i) auto
    ultimately show ?thesis using False by simp
  qed
qed simp

text \<open>
  C34. With its four thresholds \<open>tier_for\<close> returns a tier between 0 and 4, never lower for a higher
  reputation; when the thresholds are in order, tier \<open>i + 1\<close> or above is reached exactly at the inclusive
  lower bound \<open>thresholds[i]\<close>.
\<close>

theorem tier_for_thresholds:
  assumes "length thresholds = 4"
  shows "0 \<le> tier_for r thresholds \<and> tier_for r thresholds \<le> 4 \<and>
    (r \<le> r' \<longrightarrow> tier_for r thresholds \<le> tier_for r' thresholds) \<and>
    (sorted thresholds \<longrightarrow> (\<forall>i < 4. int i < tier_for r thresholds \<longleftrightarrow> thresholds ! i \<le> r))"
  using assms length_filter_le[of "\<lambda>t. t \<le> r" thresholds] filter_le_mono[of r r' thresholds]
    sorted_filter_le[of thresholds _ r]
  by (auto simp: tier_for_count)

theorem tier_for_thresholds_witness:
  "tier_for 500 [100, 500, 700, 900] = 2 \<and> [100, 500, 700, 900] ! 1 \<le> (500 :: int) \<and>
   \<not> [100, 500, 700, 900] ! 2 \<le> (500 :: int)"
proof -
  let ?ts = "[100, 500, 700, 900] :: int list"
  have t: "tier_for 500 ?ts = 2" by code_simp
  have "int i < tier_for 500 ?ts \<longleftrightarrow> ?ts ! i \<le> 500" if "i < 4" for i
    using tier_for_thresholds[of ?ts 500] that by simp
  from this[of 1] this[of 2] show ?thesis using t by simp
qed

section \<open>Hot score\<close>

lemma hot_score_eq:
  assumes "fits_i32 score" "fits_i64 age" "0 \<le> age"
  shows "hot_score score age =
    Ok ((max score 0 + 1) * 1000000 div ((age div 3600 + 2) * (age div 3600 + 2)))"
    "0 \<le> (max score 0 + 1) * 1000000 div ((age div 3600 + 2) * (age div 3600 + 2))"
proof -
  let ?n = "(max score 0 + 1) * 1000000" and ?h = "age div 3600 + 2"
  have n: "0 \<le> ?n" "?n \<le> 2147483648000000" using assms(1) by (auto simp: width_defs)
  have h: "2 \<le> ?h" "?h \<le> i64_MAX" using assms(2,3) by (auto simp: width_defs)
  have d: "4 \<le> ?h * ?h" "?h * ?h \<le> i64_MAX * i64_MAX"
    using h mult_mono[of 2 ?h 2 ?h] mult_mono[of ?h i64_MAX ?h i64_MAX] by simp_all
  show q: "0 \<le> ?n div (?h * ?h)" using n d by (simp add: pos_imp_zdiv_nonneg_iff)
  have "?n div (?h * ?h) \<le> ?n" using n d zdiv_mono2[of ?n 1 "?h * ?h"] by simp
  then have "fits_i64 (?n div (?h * ?h))" using q n unfolding width_defs by linarith
  moreover have "fits_i128 ?n" "fits_i128 (?h * ?h)" using n d by (simp_all add: width_defs)
  ultimately show "hot_score score age = Ok (?n div (?h * ?h))"
    using assms(3) by (simp add: hot_score_def Let_def)
qed

text \<open>
  C35. The hot score never overflows or saturates: for every \<open>i32\<close> score and non-negative age it is the
  floor of its rational formula, it never decreases with the score and never increases with the age;
  a negative age is rejected.
\<close>

theorem hot_score_monotone:
  assumes "fits_i32 score" "fits_i32 score'" "fits_i64 age" "fits_i64 age'" "score \<le> score'" "0 \<le> age'" "age' \<le> age"
  shows "\<exists>v v'. hot_score score age = Ok v \<and> hot_score score' age' = Ok v' \<and> 0 \<le> v \<and> v \<le> v' \<and>
    v = (max score 0 + 1) * 1000000 div (age div 3600 + 2)\<^sup>2 \<and>
    (\<forall>a < 0. hot_score score a = Err FutureTimestamp)"
proof -
  let ?h = "\<lambda>a. (a div 3600 + 2) * (a div 3600 + 2)" and ?n = "\<lambda>s. (max s 0 + 1) * 1000000 :: int"
  have le: "age' div 3600 \<le> age div 3600" "0 \<le> age' div 3600" using assms by (auto intro: zdiv_mono1)
  then have "?h age' \<le> ?h age" "0 < ?h age'" by (auto intro!: mult_mono)
  then have "?n score div ?h age \<le> ?n score div ?h age'" by (intro zdiv_mono2) auto
  also have "\<dots> \<le> ?n score' div ?h age'" using assms(5) \<open>0 < ?h age'\<close> by (intro zdiv_mono1) auto
  finally have v: "?n score div ?h age \<le> ?n score' div ?h age'" .
  have "0 \<le> age" using assms(6,7) by simp
  note e = hot_score_eq[OF assms(1,3) this] hot_score_eq(1)[OF assms(2,4,6)]
  have "hot_score score a = Err FutureTimestamp" if "a < 0" for a using that by (simp add: hot_score_def)
  then show ?thesis unfolding power2_eq_square using v e by blast
qed

theorem hot_score_monotone_witness:
  "\<exists>v v'. hot_score 7 9000 = Ok v \<and> hot_score 12 4000 = Ok v' \<and> v \<le> v'"
proof -
  have "fits_i32 7" "fits_i32 12" "fits_i64 9000" "fits_i64 4000" "(7 :: int) \<le> 12" "(0 :: int) \<le> 4000"
    "(4000 :: int) \<le> 9000" by (simp_all add: width_defs)
  from hot_score_monotone[OF this] show ?thesis by blast
qed

end
