(* ===== verification/Integrity.thy ===== *)
theory Integrity
  imports Prelude
begin

text \<open>
  Model of \<open>src/crates/domain/src/integrity.rs\<close>: the anomaly checks of the pre-payout sweep and their
  verdict. All counters are \<open>u32\<close>; the products are taken in \<open>u64\<close> and \<open>u128\<close>, where (lemma
  \<open>integrity_products_fit\<close>) those of two counters and the unit always fit, so they are plain integer
  products here; \<open>try_from(..).unwrap_or(MAX)\<close> is \<open>min MAX\<close> and a division is guarded as in the source.
\<close>

section \<open>Definitions\<close>

record VoteStats =
  vs_total :: u32
  last_window :: u32
  prior_windows_total :: u32
  prior_horizon_windows :: u32
  young_accounts :: u32
  subnet_observed :: u32
  top_subnet_count :: u32
  device_observed :: u32
  top_device_count :: u32

record SweepThresholds =
  burst_multiplier_ppm :: u32
  young_account_share_max_ppm :: u32
  subnet_share_max_ppm :: u32
  device_share_max_ppm :: u32
  min_votes_for_ratios :: u32
  min_metadata_coverage_ppm :: u32

datatype Strength = Weak | Medium

record CheckResult =
  check_name :: string
  value_ppm :: u64
  threshold_ppm :: u64
  check_coverage_ppm :: u32
  strength :: Strength
  flagged :: bool
  check_note :: string

datatype Verdict = Pass | Flag

definition ratio_ppm :: "u32 \<Rightarrow> u32 \<Rightarrow> u64" where
  "ratio_ppm numerator denominator =
     (if denominator = 0 then 0 else min u64_MAX (numerator * 1000000 div denominator))"

definition coverage_ppm :: "u32 \<Rightarrow> u32 \<Rightarrow> u32" where
  "coverage_ppm observed total' = min u32_MAX (ratio_ppm observed total')"

definition low_votes :: "string \<Rightarrow> u32 \<Rightarrow> Strength \<Rightarrow> CheckResult" where
  "low_votes name threshold st =
     \<lparr>check_name = name, value_ppm = 0, threshold_ppm = threshold, check_coverage_ppm = 1000000,
      strength = st, flagged = False,
      check_note = ''skipped: fewer than the configured minimum votes''\<rparr>"

definition vote_burst :: "VoteStats \<Rightarrow> SweepThresholds \<Rightarrow> CheckResult" where
  "vote_burst s t =
     (if vs_total s < min_votes_for_ratios t
      then low_votes ''vote_burst'' (burst_multiplier_ppm t) Medium
      else if prior_windows_total s = 0
      then \<lparr>check_name = ''vote_burst'', value_ppm = last_window s * 1000000,
            threshold_ppm = min_votes_for_ratios t * 1000000, check_coverage_ppm = 1000000,
            strength = Medium, flagged = min_votes_for_ratios t < last_window s,
            check_note = ''zero prior baseline; compares final-window count to minimum votes''\<rparr>
      else
        let ratio = last_window s * prior_horizon_windows s * 1000000 div prior_windows_total s;
            value = min u64_MAX ratio
        in \<lparr>check_name = ''vote_burst'', value_ppm = value, threshold_ppm = burst_multiplier_ppm t,
            check_coverage_ppm = 1000000, strength = Medium, flagged = burst_multiplier_ppm t < value,
            check_note = ''final close-anchored window versus prior-window average''\<rparr>)"

record ShareCheck =
  share_name :: string
  share_count :: u32
  share_denominator :: u32
  share_threshold :: u32
  min_coverage :: u32
  share_strength :: Strength
  share_note :: string

definition share_check :: "ShareCheck \<Rightarrow> u32 \<Rightarrow> u32 \<Rightarrow> CheckResult" where
  "share_check input total' min_votes =
     (if total' < min_votes then low_votes (share_name input) (share_threshold input) (share_strength input)
      else
        let coverage = coverage_ppm (share_denominator input) total' in
        if coverage < min_coverage input
        then \<lparr>check_name = share_name input, value_ppm = 0, threshold_ppm = share_threshold input,
              check_coverage_ppm = coverage, strength = share_strength input, flagged = False,
              check_note = ''skipped: metadata coverage below configured minimum''\<rparr>
        else
          let value = ratio_ppm (share_count input) (share_denominator input)
          in \<lparr>check_name = share_name input, value_ppm = value, threshold_ppm = share_threshold input,
              check_coverage_ppm = coverage, strength = share_strength input,
              flagged = share_threshold input < value, check_note = share_note input\<rparr>)"

definition sweep_checks :: "VoteStats \<Rightarrow> SweepThresholds \<Rightarrow> CheckResult list" where
  "sweep_checks s t =
     [vote_burst s t,
      share_check \<lparr>share_name = ''young_account_share'', share_count = young_accounts s,
         share_denominator = vs_total s, share_threshold = young_account_share_max_ppm t, min_coverage = 0,
         share_strength = Medium, share_note = ''account age at cast time''\<rparr>
        (vs_total s) (min_votes_for_ratios t),
      share_check \<lparr>share_name = ''subnet_concentration'', share_count = top_subnet_count s,
         share_denominator = subnet_observed s, share_threshold = subnet_share_max_ppm t,
         min_coverage = min_metadata_coverage_ppm t, share_strength = Weak,
         share_note = ''weak IP-prefix proxy: IPv4 /24, IPv6 /64''\<rparr>
        (vs_total s) (min_votes_for_ratios t),
      share_check \<lparr>share_name = ''device_concentration'', share_count = top_device_count s,
         share_denominator = device_observed s, share_threshold = device_share_max_ppm t,
         min_coverage = min_metadata_coverage_ppm t, share_strength = Weak,
         share_note = ''weak client-asserted device identifier''\<rparr>
        (vs_total s) (min_votes_for_ratios t)]"

definition verdict :: "CheckResult list \<Rightarrow> Verdict" where
  "verdict results = (if 2 \<le> length (filter flagged results) then Flag else Pass)"

section \<open>What the checks test\<close>

definition fits_VoteStats :: "VoteStats \<Rightarrow> bool" where
  "fits_VoteStats s \<longleftrightarrow> list_all fits_u32 [vs_total s, last_window s, prior_windows_total s,
     prior_horizon_windows s, young_accounts s, subnet_observed s, top_subnet_count s, device_observed s,
     top_device_count s]"

definition fits_SweepThresholds :: "SweepThresholds \<Rightarrow> bool" where
  "fits_SweepThresholds t \<longleftrightarrow> list_all fits_u32 [burst_multiplier_ppm t, young_account_share_max_ppm t,
     subnet_share_max_ppm t, device_share_max_ppm t, min_votes_for_ratios t, min_metadata_coverage_ppm t]"

lemma integrity_products_fit:
  assumes "fits_u32 a" "fits_u32 b"
  shows "fits_u64 (a * 1000000)" "fits_u128 (a * 1000000)" "fits_u128 (a * b)" "fits_u128 (a * b * 1000000)"
  using assms mult_mono[of a u32_MAX b u32_MAX] by (auto simp: width_defs)

lemma ratio_less:
  fixes n d t :: int
  assumes "fits_u32 t" "0 < d"
  shows "t < min u64_MAX (n div d) \<longleftrightarrow> (t + 1) * d \<le> n"
proof -
  have "t < n div d \<longleftrightarrow> t + 1 \<le> n div d" by auto
  also have "\<dots> \<longleftrightarrow> (t + 1) * d \<le> n" using assms(2) by (rule le_zdiv_iff)
  finally show ?thesis using assms(1) by (auto simp: width_defs)
qed

definition share_above :: "int \<Rightarrow> int \<Rightarrow> int \<Rightarrow> bool" where
  "share_above n d t \<longleftrightarrow> 0 < d \<and> (t + 1) * d \<le> n * 1000000"

definition covered :: "int \<Rightarrow> int \<Rightarrow> int \<Rightarrow> bool" where
  "covered observed tot m \<longleftrightarrow> m = 0 \<or> 0 < tot \<and> m * tot \<le> observed * 1000000"

lemma ratio_above:
  assumes "fits_u32 t" "fits_u32 d" "fits_u32 n"
  shows "t < ratio_ppm n d \<longleftrightarrow> share_above n d t"
proof (cases "d = 0")
  case True
  then show ?thesis using assms by (simp add: ratio_ppm_def share_above_def width_defs)
next
  case False
  then have "0 < d" using assms(2) by (simp add: width_defs)
  then show ?thesis using ratio_less[OF assms(1), of d "n * 1000000"] by (simp add: ratio_ppm_def share_above_def)
qed

lemma coverage_at_least:
  assumes "fits_u32 m" "fits_u32 d" "fits_u32 tot"
  shows "m \<le> coverage_ppm d tot \<longleftrightarrow> covered d tot m"
proof (cases "tot = 0")
  case True
  then show ?thesis using assms by (auto simp: coverage_ppm_def ratio_ppm_def covered_def width_defs)
next
  case False
  then have p: "0 < tot" using assms(3) by (simp add: width_defs)
  have "0 \<le> d * 1000000 div tot" using p assms(2) by (simp add: pos_imp_zdiv_nonneg_iff width_defs)
  then show ?thesis using p assms(1) le_zdiv_iff[OF p, of m "d * 1000000"]
    by (auto simp: coverage_ppm_def ratio_ppm_def covered_def width_defs)
qed

lemma share_check_flagged:
  assumes "fits_u32 (share_threshold i)" "fits_u32 (share_denominator i)" "fits_u32 (share_count i)"
    "fits_u32 (min_coverage i)" "fits_u32 tot"
  shows "flagged (share_check i tot m) \<longleftrightarrow> m \<le> tot \<and>
    covered (share_denominator i) tot (min_coverage i) \<and>
    share_above (share_count i) (share_denominator i) (share_threshold i)"
  using ratio_above[OF assms(1-3)] coverage_at_least[OF assms(4,2,5)]
  by (auto simp: share_check_def low_votes_def Let_def)

lemma vote_burst_flagged:
  assumes "fits_VoteStats s" "fits_SweepThresholds t"
  shows "flagged (vote_burst s t) \<longleftrightarrow> min_votes_for_ratios t \<le> vs_total s \<and>
    (if prior_windows_total s = 0 then min_votes_for_ratios t < last_window s
     else share_above (last_window s * prior_horizon_windows s) (prior_windows_total s) (burst_multiplier_ppm t))"
proof -
  have "fits_u32 (burst_multiplier_ppm t)" "0 \<le> prior_windows_total s"
    using assms by (simp_all add: fits_VoteStats_def fits_SweepThresholds_def width_defs)
  then show ?thesis
    using ratio_less[of "burst_multiplier_ppm t" "prior_windows_total s" "last_window s * prior_horizon_windows s * 1000000"]
    by (auto simp: vote_burst_def low_votes_def Let_def share_above_def)
qed

text \<open>The conditions the four checks stand for, as exact inequalities over the integers.\<close>

definition sweep_conditions :: "VoteStats \<Rightarrow> SweepThresholds \<Rightarrow> bool list" where
  "sweep_conditions s t =
      [if prior_windows_total s = 0 then min_votes_for_ratios t < last_window s
       else share_above (last_window s * prior_horizon_windows s) (prior_windows_total s) (burst_multiplier_ppm t),
       share_above (young_accounts s) (vs_total s) (young_account_share_max_ppm t),
       covered (subnet_observed s) (vs_total s) (min_metadata_coverage_ppm t) \<and>
         share_above (top_subnet_count s) (subnet_observed s) (subnet_share_max_ppm t),
       covered (device_observed s) (vs_total s) (min_metadata_coverage_ppm t) \<and>
         share_above (top_device_count s) (device_observed s) (device_share_max_ppm t)]"

lemma zero_coverage [simp]: "fits_u32 0" "covered d tot 0"
  by (simp_all add: covered_def width_defs)

lemma sweep_flags:
  assumes "fits_VoteStats s" "fits_SweepThresholds t"
  shows "map flagged (sweep_checks s t) = map (\<lambda>c. min_votes_for_ratios t \<le> vs_total s \<and> c) (sweep_conditions s t)"
  using assms
  by (simp add: sweep_checks_def sweep_conditions_def vote_burst_flagged share_check_flagged fits_VoteStats_def
        fits_SweepThresholds_def)

lemma two_of_four:
  "(\<exists>i j. i < j \<and> j < 4 \<and> P i \<and> P j) \<longleftrightarrow>
     P 0 \<and> P 1 \<or> P 0 \<and> P 2 \<or> P 0 \<and> P 3 \<or> P 1 \<and> P 2 \<or> P 1 \<and> P 3 \<or> P 2 \<and> P 3" for P :: "nat \<Rightarrow> bool"
  by (auto simp: less_Suc_eq numeral_eq_Suc)

text \<open>
  C27. The integer arithmetic of the sweep is exact for all counters and thresholds: below the minimum
  number of votes nothing is flagged; otherwise the burst check flags exactly when the final window exceeds
  the multiple of the prior average (or, with no prior votes, the minimum), each share check exactly when
  its metadata coverage suffices and the share exceeds its threshold, with no saturation or division by
  zero affecting an outcome; and the verdict is Flag exactly when two of the four checks are flagged.
\<close>

theorem sweep_checks_exact:
  assumes "fits_VoteStats s" "fits_SweepThresholds t"
  shows "map flagged (sweep_checks s t) =
      map (\<lambda>c. min_votes_for_ratios t \<le> vs_total s \<and> c) (sweep_conditions s t) \<and>
    (verdict (sweep_checks s t) = Flag \<longleftrightarrow>
      (\<exists>i j. i < j \<and> j < 4 \<and> flagged (sweep_checks s t ! i) \<and> flagged (sweep_checks s t ! j))) \<and>
    (vs_total s < min_votes_for_ratios t \<longrightarrow> verdict (sweep_checks s t) = Pass)"
proof (intro conjI impI)
  show e: "map flagged (sweep_checks s t) =
      map (\<lambda>c. min_votes_for_ratios t \<le> vs_total s \<and> c) (sweep_conditions s t)"
    using assms by (rule sweep_flags)
  show "verdict (sweep_checks s t) = Pass" if "vs_total s < min_votes_for_ratios t"
    using e that by (simp add: sweep_checks_def sweep_conditions_def verdict_def)
  obtain a b c d where l: "sweep_checks s t = [a, b, c, d]" by (simp add: sweep_checks_def)
  show "verdict (sweep_checks s t) = Flag \<longleftrightarrow>
      (\<exists>i j. i < j \<and> j < 4 \<and> flagged (sweep_checks s t ! i) \<and> flagged (sweep_checks s t ! j))"
    unfolding l two_of_four by (simp add: verdict_def)
qed

definition example_stats :: VoteStats where
  "example_stats = \<lparr>vs_total = 100, last_window = 40, prior_windows_total = 60, prior_horizon_windows = 12,
     young_accounts = 70, subnet_observed = 90, top_subnet_count = 10, device_observed = 20, top_device_count = 20\<rparr>"

definition example_thresholds :: SweepThresholds where
  "example_thresholds = \<lparr>burst_multiplier_ppm = 5000000, young_account_share_max_ppm = 600000,
     subnet_share_max_ppm = 300000, device_share_max_ppm = 100000, min_votes_for_ratios = 50,
     min_metadata_coverage_ppm = 500000\<rparr>"

theorem sweep_checks_exact_witness:
  "map flagged (sweep_checks example_stats example_thresholds) = [True, True, False, False] \<and>
   verdict (sweep_checks example_stats example_thresholds) = Flag"
proof -
  have h: "fits_VoteStats example_stats" "fits_SweepThresholds example_thresholds"
    by (simp_all add: fits_VoteStats_def fits_SweepThresholds_def example_stats_def example_thresholds_def width_defs)
  have "verdict (sweep_checks example_stats example_thresholds) = Flag" by code_simp
  then show ?thesis using sweep_checks_exact[OF h]
    by (simp add: sweep_conditions_def example_stats_def example_thresholds_def covered_def share_above_def)
qed

end
