(* ===== verification/Text.thy ===== *)
theory Text
  imports Prelude
begin

text \<open>
  Rust strings and their standard-library operations as the sources use them, and the model of
  \<open>src/crates/domain/src/mentions.rs\<close>. A \<open>char\<close> is its code point, a \<open>String\<close> the list of its
  characters; code that works on bytes (\<open>as_bytes\<close>, byte slices) is modelled on the list of bytes, with a
  slice off a character boundary as a panic. \<open>lit\<close> reads an ASCII literal.
\<close>

section \<open>Characters and strings\<close>

type_synonym uchar = nat
type_synonym ustring = "uchar list"
type_synonym byte = nat

definition lit :: "string \<Rightarrow> ustring" where
  "lit s = map of_char s"

text \<open>\<open>char::is_whitespace\<close> (the Unicode property White\_Space), \<open>char::is_control\<close> (category Cc).\<close>

definition is_whitespace :: "uchar \<Rightarrow> bool" where
  "is_whitespace c \<longleftrightarrow> 9 \<le> c \<and> c \<le> 13 \<or> c \<in> {32, 133, 160, 5760, 8232, 8233, 8239, 8287, 12288} \<or>
     8192 \<le> c \<and> c \<le> 8202"

definition is_control :: "uchar \<Rightarrow> bool" where
  "is_control c \<longleftrightarrow> c < 32 \<or> 127 \<le> c \<and> c < 160"

definition is_ascii_alphanumeric :: "nat \<Rightarrow> bool" where
  "is_ascii_alphanumeric c \<longleftrightarrow> 48 \<le> c \<and> c \<le> 57 \<or> 65 \<le> c \<and> c \<le> 90 \<or> 97 \<le> c \<and> c \<le> 122"

definition to_ascii_lowercase :: "nat \<Rightarrow> nat" where
  "to_ascii_lowercase c = (if 65 \<le> c \<and> c \<le> 90 then c + 32 else c)"

definition trim_start :: "ustring \<Rightarrow> ustring" where
  "trim_start s = dropWhile is_whitespace s"

definition trim :: "ustring \<Rightarrow> ustring" where
  "trim s = rev (trim_start (rev (trim_start s)))"

function split_whitespace :: "ustring \<Rightarrow> ustring list" where
  "split_whitespace [] = []"
| "split_whitespace (c # cs) =
     (if is_whitespace c then split_whitespace cs
      else (c # takeWhile (\<lambda>d. \<not> is_whitespace d) cs) #
        split_whitespace (dropWhile (\<lambda>d. \<not> is_whitespace d) cs))"
  by pat_completeness auto
termination by (relation "measure length") (auto simp: le_imp_less_Suc length_dropWhile_le)

function chunks :: "nat \<Rightarrow> 'a list \<Rightarrow> 'a list list" where
  "chunks n xs = (if xs = [] \<or> n = 0 then [] else take n xs # chunks n (drop n xs))"
  by auto
termination by (relation "measure (\<lambda>(_, xs). length xs)") auto

declare chunks.simps [simp del]

lemma trim_empty_iff: "trim s = [] \<longleftrightarrow> list_all is_whitespace s"
proof -
  have "(\<forall>c \<in> set (dropWhile is_whitespace s). is_whitespace c) \<longleftrightarrow> (\<forall>c \<in> set s. is_whitespace c)"
    by (induction s) auto
  then show ?thesis by (simp add: trim_def trim_start_def list_all_iff)
qed

lemma chunks_concat: "0 < n \<Longrightarrow> concat (chunks n xs) = xs"
  by (induction n xs rule: chunks.induct) (simp add: chunks.simps)

lemma chunks_lengths:
  "0 < n \<Longrightarrow> ch \<in> set (chunks n xs) \<Longrightarrow> ch \<noteq> [] \<and> length ch \<le> n \<and> set ch \<subseteq> set xs"
proof (induction n xs rule: chunks.induct)
  case (1 n xs)
  then show ?case
    by (subst (asm) chunks.simps) (auto split: if_splits dest: in_set_takeD in_set_dropD)
qed

lemma list_all_takeWhile: "list_all P (takeWhile P xs)"
  by (induction xs) auto

lemma split_whitespace_words:
  "list_all (\<lambda>w. w \<noteq> [] \<and> list_all (\<lambda>c. \<not> is_whitespace c) w) (split_whitespace s)"
  by (induction s rule: split_whitespace.induct) (simp_all add: list_all_takeWhile)

lemma split_whitespace_concat:
  "concat (split_whitespace s) = filter (\<lambda>c. \<not> is_whitespace c) s"
proof (induction s rule: split_whitespace.induct)
  case (2 c cs)
  have "filter (\<lambda>c. \<not> is_whitespace c) cs = takeWhile (\<lambda>d. \<not> is_whitespace d) cs @
      filter (\<lambda>c. \<not> is_whitespace c) (dropWhile (\<lambda>d. \<not> is_whitespace d) cs)"
    by (induction cs) auto
  with 2 show ?case by auto
qed simp

section \<open>Mentions\<close>

text \<open>The parameters of the loop of \<open>parse_mentions\<close>: bytes 96 and 64 are the backtick and the at sign.\<close>

definition handle_byte :: "byte \<Rightarrow> bool" where
  "handle_byte b \<longleftrightarrow> is_ascii_alphanumeric b \<or> b = 95"

definition is_char_boundary :: "byte list \<Rightarrow> nat \<Rightarrow> bool" where
  "is_char_boundary bytes i \<longleftrightarrow>
     i = 0 \<or> i = length bytes \<or> i < length bytes \<and> \<not> (128 \<le> bytes ! i \<and> bytes ! i < 192)"

definition str_slice :: "byte list \<Rightarrow> nat \<Rightarrow> nat \<Rightarrow> (unit, byte list) outcome" where
  "str_slice bytes start stop =
     (if start \<le> stop \<and> is_char_boundary bytes start \<and> is_char_boundary bytes stop
      then Ok (take (stop - start) (drop start bytes)) else Panic)"

function handle_end :: "byte list \<Rightarrow> nat \<Rightarrow> nat" where
  "handle_end bytes stop =
     (if stop < length bytes \<and> handle_byte (bytes ! stop) then handle_end bytes (stop + 1) else stop)"
  by auto
termination by (relation "measure (\<lambda>(bytes, stop). length bytes - stop)") auto

declare handle_end.simps [simp del]

lemma handle_end_ge: "stop \<le> handle_end bytes stop"
  by (induction bytes stop rule: handle_end.induct) (subst handle_end.simps, auto)

function mention_loop ::
  "byte list \<Rightarrow> nat \<Rightarrow> bool \<Rightarrow> nat \<Rightarrow> byte list list \<Rightarrow> byte list list \<Rightarrow> (unit, byte list list) outcome" where
  "mention_loop bytes limit in_code index seen mentions =
     (if \<not> index < length bytes then Ok mentions
      else if bytes ! index = 96 then mention_loop bytes limit (\<not> in_code) (index + 1) seen mentions
      else if in_code \<or> bytes ! index \<noteq> 64 then mention_loop bytes limit in_code (index + 1) seen mentions
      else
        let start = index + 1;
            stop = handle_end bytes start;
            len = stop - start
        in
        if 3 \<le> len \<and> len \<le> 32 then
          (case str_slice bytes start stop of
             Panic \<Rightarrow> Panic
           | Err e \<Rightarrow> Err e
           | Ok raw \<Rightarrow>
               let handle = map to_ascii_lowercase raw in
               if handle \<notin> set seen then
                 if length (mentions @ [handle]) = limit then Ok (mentions @ [handle])
                 else mention_loop bytes limit in_code (max stop (index + 1)) (handle # seen) (mentions @ [handle])
               else mention_loop bytes limit in_code (max stop (index + 1)) seen mentions)
        else mention_loop bytes limit in_code (max stop (index + 1)) seen mentions)"
  by pat_completeness auto
termination
  by (relation "measure (\<lambda>(bytes, _, _, index, _). length bytes - index)") auto

declare mention_loop.simps [simp del]

definition parse_mentions :: "byte list \<Rightarrow> nat \<Rightarrow> (unit, byte list list) outcome" where
  "parse_mentions body limit = (if limit = 0 then Ok [] else mention_loop body limit False 0 [] [])"

section \<open>Mentions as a pipeline\<close>

text \<open>What UTF-8 promises and the slice relies on: no continuation byte follows an ASCII byte.\<close>

definition utf8_boundaries :: "byte list \<Rightarrow> bool" where
  "utf8_boundaries bytes \<longleftrightarrow>
     list_all (\<lambda>i. bytes ! i < 128 \<longrightarrow> \<not> (128 \<le> bytes ! Suc i \<and> bytes ! Suc i < 192)) [0..<length bytes - 1]"

text \<open>The runs of handle bytes after each at sign outside code spans, then those of legal length in lower
  case, the first occurrence of each, and at most the limit.\<close>

function mention_runs :: "bool \<Rightarrow> byte list \<Rightarrow> byte list list" where
  "mention_runs in_code [] = []"
| "mention_runs in_code (b # bs) =
     (if b = 96 then mention_runs (\<not> in_code) bs
      else if in_code \<or> b \<noteq> 64 then mention_runs in_code bs
      else takeWhile handle_byte bs # mention_runs in_code (dropWhile handle_byte bs))"
  by pat_completeness auto
termination by (relation "measure (\<lambda>(_, bs). length bs)") (auto simp: le_imp_less_Suc length_dropWhile_le)

definition legal_handles :: "byte list list \<Rightarrow> byte list list" where
  "legal_handles runs = map (map to_ascii_lowercase) (filter (\<lambda>r. 3 \<le> length r \<and> length r \<le> 32) runs)"

fun add_new :: "'a list \<Rightarrow> 'a list \<Rightarrow> 'a list" where
  "add_new acc [] = acc"
| "add_new acc (h # hs) = (if h \<in> set acc then add_new acc hs else add_new (acc @ [h]) hs)"

lemma add_new_prefix: "\<exists>ys. add_new acc hs = acc @ ys"
proof (induction hs arbitrary: acc)
  case (Cons h hs)
  obtain ys zs where "add_new acc hs = acc @ ys" "add_new (acc @ [h]) hs = (acc @ [h]) @ zs"
    using Cons[of acc] Cons[of "acc @ [h]"] by auto
  then show ?case by auto
qed simp

lemma take_add_new: "length acc = n \<Longrightarrow> take n (add_new acc hs) = acc"
  using add_new_prefix[of acc hs] by auto

lemma add_new_distinct: "distinct acc \<Longrightarrow> distinct (add_new acc hs)"
  by (induction hs arbitrary: acc) auto

lemma add_new_set: "set (add_new acc hs) = set acc \<union> set hs"
  by (induction hs arbitrary: acc) auto

lemma handle_end_takeWhile:
  "i \<le> length bytes \<Longrightarrow> handle_end bytes i = i + length (takeWhile handle_byte (drop i bytes))"
proof (induction bytes i rule: handle_end.induct)
  case (1 bytes i)
  show ?case
  proof (cases "i < length bytes")
    case True
    then have "drop i bytes = bytes ! i # drop (Suc i) bytes" by (simp add: Cons_nth_drop_Suc)
    then show ?thesis using 1 True by (subst handle_end.simps) auto
  next
    case False
    then show ?thesis by (simp add: handle_end.simps)
  qed
qed

lemma handle_byte_ascii: "handle_byte b \<Longrightarrow> b < 128"
  by (auto simp: handle_byte_def is_ascii_alphanumeric_def)

lemma slice_run:
  assumes "utf8_boundaries bytes" "i \<le> length bytes" "takeWhile handle_byte (drop i bytes) \<noteq> []"
  shows "str_slice bytes i (handle_end bytes i) = Ok (takeWhile handle_byte (drop i bytes))"
proof -
  let ?r = "takeWhile handle_byte (drop i bytes)"
  let ?s = "i + length ?r"
  have len: "length ?r \<le> length bytes - i" using length_takeWhile_le[of handle_byte "drop i bytes"] by simp
  have nth: "handle_byte (bytes ! (i + k))" if "k < length ?r" for k
    using that takeWhile_nth[OF that] set_takeWhileD[OF nth_mem[OF that]] len assms(2) by simp
  have "handle_byte (bytes ! i)" "i < length bytes"
    using nth[of 0] assms(3) by (simp, cases "i < length bytes") auto
  then have "is_char_boundary bytes i" using handle_byte_ascii by (force simp: is_char_boundary_def)
  moreover have "is_char_boundary bytes ?s"
  proof (cases "?s < length bytes")
    case True
    obtain j where j: "?s = Suc j" "handle_byte (bytes ! j)"
      using nth[of "length ?r - 1"] assms(3) by (cases "length ?r") auto
    then show ?thesis using True assms(1) handle_byte_ascii[OF j(2)]
      by (auto simp: is_char_boundary_def utf8_boundaries_def list_all_iff)
  next
    case False
    then have "?s = length bytes" using len assms(2) by simp
    then show ?thesis by (simp only: is_char_boundary_def) simp
  qed
  ultimately show ?thesis using assms(2)
    by (simp add: str_slice_def handle_end_takeWhile takeWhile_eq_take[symmetric])
qed

lemma mention_loop_pipeline:
  assumes "utf8_boundaries bytes" "set seen = set mentions" "length mentions < limit"
  shows "mention_loop bytes limit in_code i seen mentions =
    Ok (take limit (add_new mentions (legal_handles (mention_runs in_code (drop i bytes)))))"
  using assms(2,3)
proof (induction "length bytes - i" arbitrary: in_code i seen mentions rule: less_induct)
  case less
  show ?case
  proof (cases "i < length bytes")
    case False
    then show ?thesis using less(3) by (simp add: mention_loop.simps legal_handles_def)
  next
    case True
    then have d: "drop i bytes = bytes ! i # drop (Suc i) bytes" by (simp add: Cons_nth_drop_Suc)
    let ?r = "takeWhile handle_byte (drop (Suc i) bytes)"
    let ?n = "Suc (i + length ?r)" and ?h = "map to_ascii_lowercase ?r"
    have stop: "handle_end bytes (Suc i) = ?n" using True by (simp add: handle_end_takeWhile)
    have rest: "drop ?n bytes = dropWhile handle_byte (drop (Suc i) bytes)"
      by (simp add: dropWhile_eq_drop add.commute)
    have IH: "mention_loop bytes limit c j sn ms = Ok (take limit (add_new ms (legal_handles (mention_runs c (drop j bytes)))))"
      if "i < j" "set sn = set ms" "length ms < limit" for c j sn ms
      using less(1)[of j sn ms c] that True by auto
    consider (tick) "bytes ! i = 96" | (skip) "bytes ! i \<noteq> 96" "in_code \<or> bytes ! i \<noteq> 64"
      | (long) "\<not> in_code" "bytes ! i = 64" "\<not> (3 \<le> length ?r \<and> length ?r \<le> 32)"
      | (mention) "\<not> in_code" "bytes ! i = 64" "3 \<le> length ?r" "length ?r \<le> 32" by blast
    then show ?thesis
    proof cases
      case tick
      then show ?thesis using True less(2,3) by (subst mention_loop.simps) (simp add: d IH)
    next
      case skip
      then show ?thesis using True less(2,3) by (subst mention_loop.simps) (simp add: d IH)
    next
      case long
      have "legal_handles (?r # rs) = legal_handles rs" for rs using long(3) by (simp add: legal_handles_def)
      then show ?thesis using long True less(2,3)
        by (subst mention_loop.simps) (auto simp: stop Let_def IH d rest)
    next
      case mention
      have l: "legal_handles (?r # rs) = ?h # legal_handles rs" for rs using mention(3,4) by (simp add: legal_handles_def)
      have "?r \<noteq> []" using mention(3) by auto
      then have sl: "str_slice bytes (Suc i) ?n = Ok ?r"
        using slice_run[OF assms(1), of "Suc i"] mention(3) True stop by auto
      let ?rs = "mention_runs in_code (dropWhile handle_byte (drop (Suc i) bytes))"
      have runs: "legal_handles (mention_runs in_code (drop i bytes)) = ?h # legal_handles ?rs"
        using mention(1,2) by (simp add: d l)
      have step: "mention_loop bytes limit in_code i seen mentions =
          (if ?h \<notin> set seen then
             if length (mentions @ [?h]) = limit then Ok (mentions @ [?h])
             else mention_loop bytes limit in_code ?n (?h # seen) (mentions @ [?h])
           else mention_loop bytes limit in_code ?n seen mentions)"
        using mention True sl by (subst mention_loop.simps) (simp add: stop Let_def)
      show ?thesis using less(2,3) unfolding step runs
        by (auto simp: IH rest take_add_new)
    qed
  qed
qed

text \<open>
  C28. \<open>parse_mentions\<close> is a pipeline: the runs of letters, digits and underscores after the at signs
  outside backtick code, those of 3 to 32 bytes in lower case, each handle once at its first occurrence,
  cut at the limit. On UTF-8 input its byte slices are on character boundaries, so it never panics, and
  the scan always ends; the result has no duplicates, at most \<open>max\<close> handles, all of legal length.
\<close>

theorem parse_mentions_pipeline:
  assumes "utf8_boundaries body"
  shows "\<exists>hs. parse_mentions body limit = Ok hs \<and>
    hs = take limit (add_new [] (legal_handles (mention_runs False body))) \<and>
    distinct hs \<and> length hs \<le> limit \<and> (\<forall>h \<in> set hs. 3 \<le> length h \<and> length h \<le> 32)"
proof -
  let ?hs = "take limit (add_new [] (legal_handles (mention_runs False body)))"
  have "parse_mentions body limit = Ok ?hs"
    using mention_loop_pipeline[OF assms, of "[]" "[]" limit False 0] by (simp add: parse_mentions_def)
  moreover have "\<forall>h \<in> set ?hs. 3 \<le> length h \<and> length h \<le> 32"
    by (auto dest!: in_set_takeD simp: add_new_set legal_handles_def)
  ultimately show ?thesis by (simp add: add_new_distinct)
qed

theorem parse_mentions_pipeline_witness:
  "parse_mentions (lit ''hi @Bob_1, @ab `@code` @bob_1 @carol'') 5 = Ok [lit ''bob_1'', lit ''carol'']"
proof -
  have "utf8_boundaries (lit ''hi @Bob_1, @ab `@code` @bob_1 @carol'')" by code_simp
  from parse_mentions_pipeline[OF this, of 5]
  have "parse_mentions (lit ''hi @Bob_1, @ab `@code` @bob_1 @carol'') 5 =
    Ok (take 5 (add_new [] (legal_handles (mention_runs False (lit ''hi @Bob_1, @ab `@code` @bob_1 @carol'')))))"
    by blast
  also have "\<dots> = Ok [lit ''bob_1'', lit ''carol'']" by code_simp
  finally show ?thesis .
qed

end
