(* ===== verification/Rendering.thy ===== *)
theory Rendering
  imports Text
begin

text \<open>
  Models of \<open>src/crates/domain/src/render_spec.rs\<close> (escaping, formatting, wrapping and the three card
  layouts) and \<open>moderation.rs\<close> (comment normalisation and screening). The external functions are
  parameters: \<open>sha256\<close> (sha2), \<open>nfkc\<close> (unicode-normalization), \<open>is_format\<close> (the category test of
  unicode-general-category) and \<open>to_lowercase\<close> (the Unicode tables of the standard library). No lemma
  assumes anything about them but that a digest has 32 bytes.
\<close>

section \<open>Render specifications\<close>

record TextRun =
  run_x :: i32
  run_y :: i32
  run_size :: int
  run_color :: ustring
  run_text :: ustring

record RenderSpec =
  spec_version :: int
  spec_width :: u32
  spec_height :: u32
  background :: ustring
  runs :: "TextRun list"

record ShareCardInput =
  card_handle :: ustring
  card_question :: ustring
  side_yes :: bool
  payout_micro :: i64
  return_bps :: i64

definition escape_char :: "uchar \<Rightarrow> ustring" where
  "escape_char ch =
     (if ch = 38 then lit ''&amp;''
      else if ch = 60 then lit ''&lt;''
      else if ch = 62 then lit ''&gt;''
      else if ch = 34 then lit ''&quot;''
      else if ch = 39 then lit ''&apos;''
      else [ch])"

definition escape_text :: "ustring \<Rightarrow> ustring" where
  "escape_text input = concat (map escape_char input)"

text \<open>Decimal printing of unsigned integers, and \<open>{:02}\<close>.\<close>

function dec :: "nat \<Rightarrow> ustring" where
  "dec n = (if n < 10 then [48 + n] else dec (n div 10) @ [48 + n mod 10])"
  by auto
termination by (relation "measure id") auto

declare dec.simps [simp del]

definition dec02 :: "nat \<Rightarrow> ustring" where
  "dec02 n = (if n < 10 then 48 # dec n else dec n)"

definition format_micro_usd :: "i64 \<Rightarrow> ustring" where
  "format_micro_usd micro =
     (let cents_total = nat \<bar>micro\<bar> div 10000;
          sign = (if micro < 0 then lit ''-'' else [])
      in sign @ lit ''$'' @ dec (cents_total div 100) @ lit ''.'' @ dec02 (cents_total mod 100))"

definition format_return_bps :: "i64 \<Rightarrow> ustring" where
  "format_return_bps bps =
     (let tenths = nat \<bar>bps\<bar> div 10;
          sign = (if bps < 0 then lit ''-'' else lit ''+'')
      in sign @ dec (tenths div 10) @ lit ''.'' @ dec (tenths mod 10) @ lit ''%'')"

text \<open>One step of the loop over the words; the state is the finished lines, the current line and its
  length in characters.\<close>

fun wrap_chunk :: "nat \<Rightarrow> ustring list \<times> ustring \<times> nat \<Rightarrow> ustring \<Rightarrow> ustring list \<times> ustring \<times> nat" where
  "wrap_chunk max_chars (lines, line, line_len) chunk =
     (if length chunk = max_chars then (lines @ [chunk], line, line_len)
      else (lines, chunk, length chunk))"

fun wrap_word :: "nat \<Rightarrow> ustring list \<times> ustring \<times> nat \<Rightarrow> ustring \<Rightarrow> ustring list \<times> ustring \<times> nat" where
  "wrap_word max_chars (lines, line, line_len) word =
     (if max_chars < length word then
        foldl (wrap_chunk max_chars)
          (if 0 < line_len then (lines @ [line], [], 0) else (lines, line, line_len))
          (chunks max_chars word)
      else if line_len = 0 then (lines, word, length word)
      else if line_len + 1 + length word \<le> max_chars
      then (lines, line @ lit '' '' @ word, line_len + 1 + length word)
      else (lines @ [line], word, length word))"

definition wrap_chars :: "ustring \<Rightarrow> nat \<Rightarrow> (unit, ustring list) outcome" where
  "wrap_chars input max_chars =
     (if max_chars = 0 then Panic
      else case foldl (wrap_word max_chars) ([], [], 0) (split_whitespace input) of
        (lines, line, line_len) \<Rightarrow> Ok (if 0 < line_len then lines @ [line] else lines))"

definition hex_digit :: "nat \<Rightarrow> uchar" where
  "hex_digit d = (if d < 10 then 48 + d else 87 + d)"

definition hex_byte :: "byte \<Rightarrow> ustring" where
  "hex_byte b = [hex_digit (b div 16), hex_digit (b mod 16)]"

definition sha256_hex :: "(byte list \<Rightarrow> byte list) \<Rightarrow> byte list \<Rightarrow> ustring" where
  "sha256_hex sha256 bytes = concat (map hex_byte (sha256 bytes))"

definition run_of :: "i32 \<Rightarrow> i32 \<Rightarrow> int \<Rightarrow> string \<Rightarrow> ustring \<Rightarrow> TextRun" where
  "run_of x y size' color txt =
     \<lparr>run_x = x, run_y = y, run_size = size', run_color = lit color, run_text = escape_text txt\<rparr>"

definition line_runs :: "i32 \<Rightarrow> i32 \<Rightarrow> int \<Rightarrow> string \<Rightarrow> ustring list \<Rightarrow> TextRun list" where
  "line_runs y step size' color ls =
     map (\<lambda>(index, line). run_of 64 (y + int index * step) size' color line) (enumerate 0 ls)"

definition poster_spec :: "ustring \<Rightarrow> (unit, RenderSpec) outcome" where
  "poster_spec question =
     and_then (wrap_chars question 24) (\<lambda>ls.
     Ok \<lparr>spec_version = 1, spec_width = 1080, spec_height = 1350, background = lit ''#0B0B0F'',
         runs = [run_of 64 120 40 ''#7C5CFF'' (lit ''OPINIONS'')] @
           line_runs 300 90 72 ''#FFFFFF'' (take 8 ls) @
           [run_of 64 1290 32 ''#9A9AA5'' (lit ''opinions.market'')]\<rparr>)"

definition video_spec :: "ustring \<Rightarrow> (unit, RenderSpec) outcome" where
  "video_spec question =
     and_then (wrap_chars question 22) (\<lambda>ls.
     Ok \<lparr>spec_version = 1, spec_width = 1080, spec_height = 1920, background = lit ''#0B0B0F'',
         runs = [run_of 64 160 44 ''#7C5CFF'' (lit ''OPINIONS'')] @
           line_runs 420 100 80 ''#FFFFFF'' (take 10 ls) @
           [run_of 64 1840 36 ''#9A9AA5'' (lit ''opinions.market'')]\<rparr>)"

definition share_card_spec :: "ShareCardInput \<Rightarrow> (unit, RenderSpec) outcome" where
  "share_card_spec input =
     and_then (wrap_chars (card_question input) 38) (\<lambda>ls.
     let (side, side_color) = (if side_yes input then (''YES'', ''#2ECC71'') else (''NO'', ''#E74C3C'')) in
     Ok \<lparr>spec_version = 1, spec_width = 1200, spec_height = 630, background = lit ''#0B0B0F'',
         runs = [run_of 64 90 36 ''#7C5CFF'' (lit ''OPINIONS''),
                 run_of 64 170 44 ''#FFFFFF'' (lit ''@'' @ card_handle input)] @
           line_runs 250 52 40 ''#9A9AA5'' (take 3 ls) @
           [run_of 64 470 48 side_color (lit side),
            run_of 64 540 40 ''#FFFFFF'' (lit ''Payout '' @ format_micro_usd (payout_micro input)),
            run_of 64 600 40 ''#FFFFFF'' (lit ''Return '' @ format_return_bps (return_bps input))]\<rparr>)"

section \<open>Moderation\<close>

record ModerationRules =
  max_comment_len_chars :: u32
  max_links :: int
  max_comments_per_window :: u32

datatype Screen = Visible | Shadow string | Blocked string

definition retained_control :: "uchar \<Rightarrow> bool" where
  "retained_control character \<longleftrightarrow> character = 10 \<or> character = 9"

definition removed_character :: "(uchar \<Rightarrow> bool) \<Rightarrow> uchar \<Rightarrow> bool" where
  "removed_character is_format character \<longleftrightarrow>
     is_format character \<or> is_control character \<and> \<not> retained_control character"

fun normalize_step :: "ustring \<times> bool \<Rightarrow> uchar \<Rightarrow> ustring \<times> bool" where
  "normalize_step (normalized, pending_space) character =
     (if is_whitespace character then (normalized, normalized \<noteq> [])
      else if pending_space then (normalized @ lit '' '' @ [character], False)
      else (normalized @ [character], pending_space))"

definition normalize_body ::
  "(ustring \<Rightarrow> ustring) \<Rightarrow> (uchar \<Rightarrow> ustring) \<Rightarrow> (uchar \<Rightarrow> bool) \<Rightarrow> ustring \<Rightarrow> ustring" where
  "normalize_body nfkc to_lowercase is_format body =
     fst (foldl normalize_step ([], False)
       (filter (\<lambda>c. \<not> removed_character is_format c) (concat (map to_lowercase (nfkc body)))))"

definition sanitize_for_storage :: "(uchar \<Rightarrow> bool) \<Rightarrow> ustring \<Rightarrow> ustring" where
  "sanitize_for_storage is_format body = filter (\<lambda>c. \<not> removed_character is_format c) body"

definition utf8_char :: "uchar \<Rightarrow> byte list" where
  "utf8_char c =
     (if c < 128 then [c]
      else if c < 2048 then [192 + c div 64, 128 + c mod 64]
      else if c < 65536 then [224 + c div 4096, 128 + c div 64 mod 64, 128 + c mod 64]
      else [240 + c div 262144, 128 + c div 4096 mod 64, 128 + c div 64 mod 64, 128 + c mod 64])"

definition body_hash ::
  "(byte list \<Rightarrow> byte list) \<Rightarrow> (ustring \<Rightarrow> ustring) \<Rightarrow> (uchar \<Rightarrow> ustring) \<Rightarrow> (uchar \<Rightarrow> bool) \<Rightarrow>
   ustring \<Rightarrow> ustring" where
  "body_hash sha256 nfkc to_lowercase is_format body =
     concat (map hex_byte (sha256 (concat (map utf8_char (normalize_body nfkc to_lowercase is_format body)))))"

text \<open>\<open>match_indices(p).count()\<close>: matches are found from the left and do not overlap.\<close>

function match_count :: "ustring \<Rightarrow> ustring \<Rightarrow> nat" where
  "match_count p [] = 0"
| "match_count p (c # cs) =
     (if p \<noteq> [] \<and> take (length p) (c # cs) = p then Suc (match_count p (drop (length p) (c # cs)))
      else match_count p cs)"
  by pat_completeness auto
termination by (relation "measure (\<lambda>(_, s). length s)") auto

definition link_count :: "ustring \<Rightarrow> u32" where
  "link_count normalized =
     min u32_MAX (int (match_count (lit ''http://'') normalized + match_count (lit ''https://'') normalized))"

definition screen ::
  "(ustring \<Rightarrow> ustring) \<Rightarrow> (uchar \<Rightarrow> ustring) \<Rightarrow> (uchar \<Rightarrow> bool) \<Rightarrow>
   ustring \<Rightarrow> u32 \<Rightarrow> u32 \<Rightarrow> ModerationRules \<Rightarrow> Screen" where
  "screen nfkc to_lowercase is_format body recent_same_hash author_posts_in_window rules =
     (let normalized = normalize_body nfkc to_lowercase is_format body in
      if normalized = [] then Blocked ''empty''
      else if max_comment_len_chars rules < min u32_MAX (int (length body)) then Blocked ''too_long''
      else if max_comments_per_window rules \<le> author_posts_in_window then Blocked ''rate''
      else if max_links rules < link_count normalized then Shadow ''links''
      else if 0 < recent_same_hash then Shadow ''duplicate''
      else Visible)"

section \<open>Escaping\<close>

text \<open>The reference decoder of the five entities.\<close>

definition entities :: "(uchar \<times> ustring) list" where
  "entities = [(38, lit ''&amp;''), (60, lit ''&lt;''), (62, lit ''&gt;''), (34, lit ''&quot;''), (39, lit ''&apos;'')]"

definition entity_at :: "ustring \<Rightarrow> (uchar \<times> ustring) option" where
  "entity_at s = find (\<lambda>(_, e). take (length e) s = e) entities"

lemma entity_at_length: "entity_at s = Some (c, e) \<Longrightarrow> e \<noteq> []"
  by (auto simp: entity_at_def entities_def lit_def split: if_splits)

function unescape :: "ustring \<Rightarrow> ustring" where
  "unescape [] = []"
| "unescape (c # cs) =
     (case entity_at (c # cs) of
        Some (ch, e) \<Rightarrow> ch # unescape (drop (length e) (c # cs))
      | None \<Rightarrow> c # unescape cs)"
  by pat_completeness auto
termination by (relation "measure length") (auto dest!: entity_at_length)

definition markup :: "uchar list" where
  "markup = [60, 62, 34, 39]"

definition inert :: "ustring \<Rightarrow> bool" where
  "inert s \<longleftrightarrow> list_all (\<lambda>c. c \<notin> set markup) s"

lemma unescape_char: "unescape (escape_char ch @ rest) = ch # unescape rest"
  by (simp add: escape_char_def lit_def entity_at_def entities_def)

lemma unescape_escape: "unescape (escape_text s) = s"
  by (induction s) (simp_all add: escape_text_def unescape_char)

lemma inert_escape: "inert (escape_text s)"
proof -
  have "inert (escape_char c)" for c by (simp add: escape_char_def inert_def markup_def lit_def)
  then show ?thesis by (induction s) (simp_all add: escape_text_def inert_def)
qed

section \<open>Wrapping\<close>

definition wrap_inv :: "nat \<Rightarrow> ustring list \<times> ustring \<times> nat \<Rightarrow> ustring \<Rightarrow> bool" where
  "wrap_inv n st content \<longleftrightarrow> (case st of (lines, line, len) \<Rightarrow>
     len = length line \<and> len \<le> n \<and> list_all (\<lambda>l. l \<noteq> [] \<and> length l \<le> n) lines \<and>
     filter (\<lambda>c. \<not> is_whitespace c) (concat lines @ line) = content)"

lemma filter_nonspace: "list_all (\<lambda>c. \<not> is_whitespace c) w \<Longrightarrow> filter (\<lambda>c. \<not> is_whitespace c) w = w"
  by (simp add: list_all_iff)

lemma list_all_take_drop: "list_all P xs \<Longrightarrow> list_all P (take n xs) \<and> list_all P (drop n xs)"
  by (auto simp: list_all_iff dest: in_set_takeD in_set_dropD)

lemma wrap_chunks:
  "0 < n \<Longrightarrow> list_all (\<lambda>c. \<not> is_whitespace c) w \<Longrightarrow> wrap_inv n (lines, [], 0) content \<Longrightarrow>
     wrap_inv n (foldl (wrap_chunk n) (lines, [], 0) (chunks n w)) (content @ w)"
proof (induction n w arbitrary: lines content rule: chunks.induct)
  case (1 n w)
  show ?case
  proof (cases "w = []")
    case True
    then show ?thesis using 1(4) by (simp add: chunks.simps)
  next
    case False
    note td = list_all_take_drop[OF 1(3), of n]
    show ?thesis
    proof (cases "n \<le> length w")
      case True
      have "wrap_inv n (lines @ [take n w], [], 0) (content @ take n w)"
        using 1(2,4) True td False by (simp add: wrap_inv_def filter_nonspace)
      then have "wrap_inv n (foldl (wrap_chunk n) (lines @ [take n w], [], 0) (chunks n (drop n w)))
          ((content @ take n w) @ drop n w)"
        using 1(1,2) False td by blast
      then show ?thesis using False True 1(2) by (subst chunks.simps) simp
    next
      case short: False
      then have "chunks n w = [w]" using False 1(2) by (simp add: chunks.simps)
      then show ?thesis using short 1(3,4) by (simp add: wrap_inv_def filter_nonspace)
    qed
  qed
qed

lemma wrap_word_inv:
  assumes "0 < n" "wrap_inv n st content" "w \<noteq> []" "list_all (\<lambda>c. \<not> is_whitespace c) w"
  shows "wrap_inv n (wrap_word n st w) (content @ w)"
proof -
  obtain lines line len where st: "st = (lines, line, len)" by (cases st)
  have space: "is_whitespace 32" by (simp add: is_whitespace_def)
  show ?thesis
  proof (cases "n < length w")
    case True
    let ?s = "if 0 < len then lines @ [line] else lines"
    have "wrap_inv n (?s, [], 0) content" using assms(2) by (auto simp: st wrap_inv_def)
    from wrap_chunks[OF assms(1,4) this] show ?thesis
      using True assms(2) by (auto simp: st wrap_inv_def split: if_splits)
  next
    case False
    then show ?thesis using assms space
      by (auto simp: st wrap_inv_def filter_nonspace lit_def)
  qed
qed

lemma wrap_fold_inv:
  "0 < n \<Longrightarrow> list_all (\<lambda>w. w \<noteq> [] \<and> list_all (\<lambda>c. \<not> is_whitespace c) w) ws \<Longrightarrow> wrap_inv n st content \<Longrightarrow>
     wrap_inv n (foldl (wrap_word n) st ws) (content @ concat ws)"
proof (induction ws arbitrary: st content)
  case (Cons w ws)
  then show ?case using wrap_word_inv[of n st content w] Cons.IH[of "wrap_word n st w" "content @ w"] by simp
qed simp

lemma wrap_chars_ok:
  assumes "0 < n"
  obtains ls where "wrap_chars s n = Ok ls" "list_all (\<lambda>l. l \<noteq> [] \<and> length l \<le> n) ls"
    "filter (\<lambda>c. \<not> is_whitespace c) (concat ls) = filter (\<lambda>c. \<not> is_whitespace c) s"
proof -
  obtain lines line len where st: "foldl (wrap_word n) ([], [], 0) (split_whitespace s) = (lines, line, len)"
    by (cases "foldl (wrap_word n) ([], [], 0) (split_whitespace s)")
  have "wrap_inv n (lines, line, len) (concat (split_whitespace s))"
    using wrap_fold_inv[OF assms split_whitespace_words, of "([], [], 0)" "[]" s] st by (simp add: wrap_inv_def)
  then show thesis using assms
    by (intro that[of "if 0 < len then lines @ [line] else lines"])
      (auto simp: wrap_chars_def st wrap_inv_def split_whitespace_concat)
qed

text \<open>
  C29. Escaping is sound and lossless: the escaped form of any text contains none of the characters \<open><\<close>,
  \<open>>\<close>, \<open>"\<close> and \<open>'\<close>, and decoding the five entities gives the original back; so no text closes or opens an
  element of the rendered card, and different texts stay different.
\<close>

theorem escape_text_lossless:
  "inert (escape_text s) \<and> unescape (escape_text s) = s"
  by (simp add: inert_escape unescape_escape)

text \<open>
  C30. Word wrapping at a positive width returns (it panics at zero): every line is non-empty and at most
  as wide as asked, over-long words included, and the lines carry exactly the non-space characters of the
  text in order.
\<close>

theorem wrap_chars_preserves:
  "case wrap_chars s n of
     Ok ls \<Rightarrow> list_all (\<lambda>l. l \<noteq> [] \<and> length l \<le> n) ls \<and>
       filter (\<lambda>c. \<not> is_whitespace c) (concat ls) = filter (\<lambda>c. \<not> is_whitespace c) s
   | Err _ \<Rightarrow> False
   | Panic \<Rightarrow> n = 0"
proof (cases "n = 0")
  case True
  then show ?thesis by (simp add: wrap_chars_def)
next
  case False
  then obtain ls where "wrap_chars s n = Ok ls" "list_all (\<lambda>l. l \<noteq> [] \<and> length l \<le> n) ls"
    "filter (\<lambda>c. \<not> is_whitespace c) (concat ls) = filter (\<lambda>c. \<not> is_whitespace c) s"
    using wrap_chars_ok[of n s] by blast
  then show ?thesis by simp
qed

section \<open>Amounts\<close>

definition undec :: "ustring \<Rightarrow> nat" where
  "undec s = foldl (\<lambda>v c. v * 10 + (c - 48)) 0 s"

lemma dec_digits: "list_all (\<lambda>c. 48 \<le> c \<and> c \<le> 57) (dec n)"
proof (induction n rule: dec.induct)
  case (1 n)
  then show ?case by (subst dec.simps) auto
qed

lemma undec_dec: "undec (dec n) = n"
proof (induction n rule: dec.induct)
  case (1 n)
  then show ?case by (subst dec.simps) (auto simp: undec_def)
qed

lemma dec_not_Nil: "dec n \<noteq> []"
  by (subst dec.simps) simp

lemma dec02_reads: "n < 100 \<Longrightarrow> length (dec02 n) = 2 \<and> undec (dec02 n) = n"
proof -
  assume n: "n < 100"
  have "undec (48 # dec n) = undec (dec n)" by (simp add: undec_def)
  moreover have "n div 10 < 10" using n by simp
  then have "length (dec n) = (if n < 10 then 1 else 2)"
    by (subst dec.simps) (simp add: dec.simps[of "n div 10"])
  ultimately show ?thesis by (simp add: dec02_def undec_dec)
qed

lemma digits_takeWhile:
  "list_all (\<lambda>c. 48 \<le> c \<and> c \<le> 57) d \<Longrightarrow> takeWhile (\<lambda>c. c \<noteq> 46) (d @ 46 # r) = d \<and>
     dropWhile (\<lambda>c. c \<noteq> 46) (d @ 46 # r) = 46 # r"
  for d r :: ustring
  by (induction d) auto

text \<open>Reading a displayed amount back: the sign, and the amount in cents.\<close>

definition read_usd :: "ustring \<Rightarrow> bool \<times> nat" where
  "read_usd s =
     (let neg = (take 1 s = lit ''-''); r = (if neg then drop 2 s else drop 1 s);
          whole = takeWhile (\<lambda>c. c \<noteq> 46) r; cents = drop 1 (dropWhile (\<lambda>c. c \<noteq> 46) r)
      in (neg, undec whole * 100 + undec cents))"

lemma read_usd_format: "read_usd (format_micro_usd m) = (m < 0, nat \<bar>m\<bar> div 10000)"
proof -
  define c where "c = nat \<bar>m\<bar> div 10000"
  define d e where "d = dec (c div 100)" and "e = dec02 (c mod 100)"
  have v: "undec d * 100 + undec e = c" using dec02_reads[of "c mod 100"] by (simp add: d_def e_def undec_dec)
  have t: "takeWhile (\<lambda>c. c \<noteq> 46) (d @ 46 # e) = d" "dropWhile (\<lambda>c. c \<noteq> 46) (d @ 46 # e) = 46 # e"
    using digits_takeWhile[OF dec_digits[of "c div 100"], of e] by (simp_all add: d_def)
  have "format_micro_usd m = (if m < 0 then [45] else []) @ 36 # d @ 46 # e"
    by (simp add: format_micro_usd_def Let_def lit_def c_def d_def e_def)
  then show ?thesis unfolding c_def[symmetric] by (simp add: read_usd_def Let_def lit_def t v)
qed

section \<open>Cards\<close>

definition card_ok :: "nat \<Rightarrow> (unit, RenderSpec) outcome \<Rightarrow> bool" where
  "card_ok n r \<longleftrightarrow> (case r of
     Ok spec \<Rightarrow> length (runs spec) \<le> n \<and>
       list_all (\<lambda>t. 0 < run_y t \<and> run_y t < spec_height spec \<and> run_x t < spec_width spec \<and> inert (run_text t)) (runs spec)
   | _ \<Rightarrow> False)"

lemma line_runs_ok:
  assumes "0 < y" "0 < step" "y + int (length ls) * step \<le> h" "64 < w"
  shows "list_all (\<lambda>t. 0 < run_y t \<and> run_y t < h \<and> run_x t < w \<and> inert (run_text t)) (line_runs y step sz col ls)"
    "length (line_runs y step sz col ls) = length ls"
proof -
  have "y + int i * step < h" "0 < y + int i * step" if "i < length ls" for i
  proof -
    have "int i * step < int (length ls) * step" "0 \<le> int i * step" using that assms(2) by simp_all
    then show "y + int i * step < h" "0 < y + int i * step" using assms(1,3) by linarith+
  qed
  then show "list_all (\<lambda>t. 0 < run_y t \<and> run_y t < h \<and> run_x t < w \<and> inert (run_text t)) (line_runs y step sz col ls)"
    using assms(4) by (auto simp: line_runs_def list_all_iff run_of_def inert_escape in_set_enumerate_eq)
qed (simp add: line_runs_def)

lemma take_rows: "0 < step \<Longrightarrow> y + int k * step \<le> h \<Longrightarrow> y + int (length (take k ls)) * step \<le> h" for step y h :: int
proof -
  assume s: "0 < step" "y + int k * step \<le> h"
  have "int (length (take k ls)) * step \<le> int k * step" using s(1) by (intro mult_right_mono) auto
  then show ?thesis using s(2) by linarith
qed


text \<open>
  C37. The displayed payout reads back as the amount truncated to whole cents towards zero, with its sign,
  and always has exactly two decimals.
\<close>

theorem format_micro_usd_reads:
  "read_usd (format_micro_usd m) = (m < 0, nat \<bar>m\<bar> div 10000) \<and>
   length (dropWhile (\<lambda>c. c \<noteq> 46) (format_micro_usd m)) = 3"
proof
  show "read_usd (format_micro_usd m) = (m < 0, nat \<bar>m\<bar> div 10000)" by (rule read_usd_format)
  define c where "c = nat \<bar>m\<bar> div 10000"
  define d e where "d = dec (c div 100)" and "e = dec02 (c mod 100)"
  have "length e = 2" using dec02_reads[of "c mod 100"] by (simp add: e_def)
  moreover have "dropWhile (\<lambda>c. c \<noteq> 46) (d @ 46 # e) = 46 # e"
    using digits_takeWhile[OF dec_digits[of "c div 100"], of e] by (simp add: d_def)
  moreover have "format_micro_usd m = (if m < 0 then [45] else []) @ 36 # d @ 46 # e"
    by (simp add: format_micro_usd_def Let_def lit_def c_def d_def e_def)
  ultimately show "length (dropWhile (\<lambda>c. c \<noteq> 46) (format_micro_usd m)) = 3" by simp
qed

section \<open>Comments\<close>

fun join_words :: "ustring list \<Rightarrow> ustring" where
  "join_words [] = []"
| "join_words [w] = w"
| "join_words (w # v # vs) = w @ [32] @ join_words (v # vs)"

lemma join_words_merge: "join_words ((a @ 32 # w) # ws) = a @ 32 # join_words (w # ws)"
  by (cases ws) simp_all

lemma normalize_word:
  "list_all (\<lambda>c. \<not> is_whitespace c) w \<Longrightarrow> foldl normalize_step (n, False) w = (n @ w, False)"
  by (induction w arbitrary: n) simp_all

lemma normalize_boundary:
  assumes "rest = [] \<or> is_whitespace (hd rest)" "n \<noteq> []"
  shows "fst (foldl normalize_step (n, False) rest) = fst (foldl normalize_step (n, True) rest)"
  using assms by (cases rest) simp_all

lemma normalize_fold:
  "fst (foldl normalize_step (n, n \<noteq> []) s) =
     join_words ((if n = [] then [] else [n]) @ split_whitespace s)"
proof (induction s arbitrary: n rule: split_whitespace.induct)
  case 1
  then show ?case by simp
next
  case (2 c cs)
  show ?case
  proof (cases "is_whitespace c")
    case True
    then show ?thesis using 2(1)[OF True, of n] by simp
  next
    case False
    let ?w = "takeWhile (\<lambda>d. \<not> is_whitespace d) cs" and ?r = "dropWhile (\<lambda>d. \<not> is_whitespace d) cs"
    define m where "m = (if n = [] then [] else n @ [32]) @ c # ?w"
    have head: "normalize_step (n, n \<noteq> []) c = ((if n = [] then [] else n @ [32]) @ [c], False)"
      using False by (simp add: lit_def)
    have "foldl normalize_step (n, n \<noteq> []) (c # cs) = foldl normalize_step (foldl normalize_step (n, n \<noteq> []) (c # ?w)) ?r"
      by (simp flip: foldl_append)
    also have "foldl normalize_step (n, n \<noteq> []) (c # ?w) = (m, False)"
      using head normalize_word[OF list_all_takeWhile] by (simp add: m_def)
    finally have e: "foldl normalize_step (n, n \<noteq> []) (c # cs) = foldl normalize_step (m, False) ?r" .
    have mn: "m \<noteq> []" by (simp add: m_def)
    have b: "?r = [] \<or> is_whitespace (hd ?r)" using hd_dropWhile[of "\<lambda>d. \<not> is_whitespace d" cs] by blast
    have "fst (foldl normalize_step (n, n \<noteq> []) (c # cs)) = fst (foldl normalize_step (m, m \<noteq> []) ?r)"
      unfolding e using normalize_boundary[OF b mn] mn by simp
    also have "\<dots> = join_words (m # split_whitespace ?r)" using 2(2)[OF False, of m] by (simp add: m_def)
    also have "\<dots> = join_words ((if n = [] then [] else [n]) @ split_whitespace (c # cs))"
      using False by (simp add: m_def join_words_merge)
    finally show ?thesis .
  qed
qed

lemma normalize_body_words:
  "normalize_body nfkc to_lowercase is_format body = join_words (split_whitespace
     (filter (\<lambda>c. \<not> removed_character is_format c) (concat (map to_lowercase (nfkc body)))))"
  using normalize_fold[of "[]"] by (simp add: normalize_body_def)

lemma split_whitespace_word:
  assumes "w \<noteq> []" "list_all (\<lambda>c. \<not> is_whitespace c) w" "rest = [] \<or> is_whitespace (hd rest)"
  shows "split_whitespace (w @ rest) = w # split_whitespace rest"
proof -
  obtain c cs where w: "w = c # cs" using assms(1) by (cases w) auto
  have t: "takeWhile (\<lambda>d. \<not> is_whitespace d) (cs @ rest) = cs" "dropWhile (\<lambda>d. \<not> is_whitespace d) (cs @ rest) = rest"
    using assms(2,3) w by (simp_all add: list_all_iff takeWhile_append dropWhile_append) (cases rest; simp)+
  have "\<not> is_whitespace c" using assms(2) w by simp
  then show ?thesis by (simp add: w t)
qed

lemma split_join_words:
  "list_all (\<lambda>w. w \<noteq> [] \<and> list_all (\<lambda>c. \<not> is_whitespace c) w) ws \<Longrightarrow> split_whitespace (join_words ws) = ws"
proof (induction ws rule: join_words.induct)
  case (2 w)
  then show ?case using split_whitespace_word[of w "[]"] by simp
next
  case (3 w v vs)
  have "is_whitespace 32" by (simp add: is_whitespace_def)
  then show ?case using 3 split_whitespace_word[of w "32 # join_words (v # vs)"] by simp
qed simp

text \<open>
  C38. Normalising a comment (for any Unicode tables) yields the words of the cleaned text separated by
  single spaces, with no white space at either end: the words are those of the normalised, lower-cased
  text without format and control characters, and normalising the white space again changes nothing.
\<close>

theorem normalize_body_canonical:
  "normalize_body nfkc to_lowercase is_format body =
     join_words (split_whitespace (filter (\<lambda>c. \<not> removed_character is_format c) (concat (map to_lowercase (nfkc body))))) \<and>
   split_whitespace (normalize_body nfkc to_lowercase is_format body) =
     split_whitespace (filter (\<lambda>c. \<not> removed_character is_format c) (concat (map to_lowercase (nfkc body)))) \<and>
   fst (foldl normalize_step ([], False) (normalize_body nfkc to_lowercase is_format body)) =
     normalize_body nfkc to_lowercase is_format body"
proof (intro conjI)
  show e: "normalize_body nfkc to_lowercase is_format body =
     join_words (split_whitespace (filter (\<lambda>c. \<not> removed_character is_format c) (concat (map to_lowercase (nfkc body)))))"
    by (rule normalize_body_words)
  then show s: "split_whitespace (normalize_body nfkc to_lowercase is_format body) =
     split_whitespace (filter (\<lambda>c. \<not> removed_character is_format c) (concat (map to_lowercase (nfkc body))))"
    by (simp add: split_join_words split_whitespace_words)
  show "fst (foldl normalize_step ([], False) (normalize_body nfkc to_lowercase is_format body)) =
     normalize_body nfkc to_lowercase is_format body"
    using normalize_fold[of "[]" "normalize_body nfkc to_lowercase is_format body"] s e by simp
qed

text \<open>
  A comment is shown exactly when its normalised form is non-empty, it is no longer than the limit, its
  author is below the rate limit, its links are within the limit and no recent comment has the same hash;
  otherwise the first violated rule decides, and only links and duplicates are shadowed rather than
  blocked. The saturating conversions do not change this for limits below \<open>u32::MAX\<close>.
\<close>

theorem screen_rules:
  fixes nfkc to_lowercase is_format body
  assumes "0 \<le> max_comment_len_chars rules" "max_comment_len_chars rules < u32_MAX"
    and "0 \<le> max_links rules" "max_links rules \<le> 255" "0 \<le> recent"
  defines "n \<equiv> normalize_body nfkc to_lowercase is_format body"
  defines "links \<equiv> int (match_count (lit ''http://'') n + match_count (lit ''https://'') n)"
  shows "screen nfkc to_lowercase is_format body recent posts rules =
    (if n = [] then Blocked ''empty''
     else if max_comment_len_chars rules < int (length body) then Blocked ''too_long''
     else if max_comments_per_window rules \<le> posts then Blocked ''rate''
     else if max_links rules < links then Shadow ''links''
     else if recent \<noteq> 0 then Shadow ''duplicate''
     else Visible)"
  using assms(1-5) unfolding screen_def Let_def n_def[symmetric] link_count_def links_def[symmetric]
  by (auto simp: min_def)

theorem screen_rules_witness:
  "screen (\<lambda>s. s) (\<lambda>c. [to_ascii_lowercase c]) (\<lambda>c. c = 8203) (lit ''  Go  http://x '') 0 1
     \<lparr>max_comment_len_chars = 500, max_links = 0, max_comments_per_window = 3\<rparr> = Shadow ''links'' \<and>
   normalize_body (\<lambda>s. s) (\<lambda>c. [to_ascii_lowercase c]) (\<lambda>c. c = 8203) (lit ''  Go  http://x '') = lit ''go http://x''"
proof -
  let ?r = "\<lparr>max_comment_len_chars = 500, max_links = 0, max_comments_per_window = 3\<rparr>"
  have n: "normalize_body (\<lambda>s. s) (\<lambda>c. [to_ascii_lowercase c]) (\<lambda>c. c = 8203) (lit ''  Go  http://x '') = lit ''go http://x''"
    by (simp add: normalize_body_def lit_def removed_character_def is_whitespace_def is_control_def
        retained_control_def to_ascii_lowercase_def)
  have m: "match_count (lit ''http://'') (lit ''go http://x'') = 1" by (simp add: lit_def)
  have l: "lit ''go http://x'' \<noteq> []" "length (lit ''  Go  http://x '') = 15" by (simp_all add: lit_def)
  have "screen (\<lambda>s. s) (\<lambda>c. [to_ascii_lowercase c]) (\<lambda>c. c = 8203) (lit ''  Go  http://x '') 0 1 ?r = Shadow ''links''"
    by (subst screen_rules) (simp_all only: n m l if_False ModerationRules.simps, simp_all)
  then show ?thesis using n by blast
qed

end
