(* ===== verification/Drafting.thy ===== *)
theory Drafting
  imports Text Money
begin

text \<open>
  Model of \<open>src/crates/domain/src/drafting.rs\<close>: the shape and floor checks of a market draft and the
  daily and flash slot arithmetic. \<open>div_euclid\<close> and \<open>rem_euclid\<close> by a positive divisor are \<open>div\<close> and \<open>mod\<close>.
\<close>

section \<open>Definitions\<close>

datatype DraftingError =
    InvalidSlots | InvalidCadence | TimestampOverflow | EmptyQuestion | EmptyDescription
  | EmptyVideoScript | EmptySlug | InvalidSeed | InvalidFee | InvalidMinVotes | InvalidWindow
  | SeedBelowFloor | VotesBelowFloor

datatype DraftSource = Template | Llm

datatype DraftTier = Daily | Flash

record DraftSpec =
  draft_question :: ustring
  draft_description :: ustring
  video_script :: ustring
  slug :: ustring
  draft_tier :: DraftTier
  seed :: micro_usd
  draft_fee :: basis_points
  min_votes_to_resolve :: i32
  open_secs :: u64
  hidden_window_secs :: u64

definition validate :: "DraftSpec \<Rightarrow> (DraftingError, unit) outcome" where
  "validate self =
     (if trim (draft_question self) = [] then Err EmptyQuestion
      else if trim (draft_description self) = [] then Err EmptyDescription
      else if trim (video_script self) = [] then Err EmptyVideoScript
      else if trim (slug self) = [] then Err EmptySlug
      else if seed self \<le> 0 then Err InvalidSeed
      else if 10000 < draft_fee self then Err InvalidFee
      else if min_votes_to_resolve self \<le> 0 then Err InvalidMinVotes
      else if open_secs self = 0 \<or> open_secs self \<le> hidden_window_secs self then Err InvalidWindow
      else Ok ())"

definition validate_floors :: "DraftSpec \<Rightarrow> i64 \<Rightarrow> i32 \<Rightarrow> (DraftingError, unit) outcome" where
  "validate_floors self seed_floor_micro min_votes_floor =
     and_then (validate self) (\<lambda>_.
     if seed self < seed_floor_micro then Err SeedBelowFloor
     else if min_votes_to_resolve self < min_votes_floor then Err VotesBelowFloor
     else Ok ())"

definition next_daily_slot :: "i64 \<Rightarrow> int \<Rightarrow> (DraftingError, i64) outcome" where
  "next_daily_slot unix_seconds slots =
     (if slots = 0 then Err InvalidSlots
      else
        let day = unix_seconds div 86400;
            second = unix_seconds mod 86400
        in
        and_then (udiv 86400 slots) (\<lambda>interval.
        and_then (udiv second interval) (\<lambda>index.
        let next_index = index + 1 in
        and_then
          (if next_index < slots
           then and_then (arith fits_i128 (day * 86400)) (\<lambda>d.
                and_then (arith fits_i128 (next_index * interval)) (\<lambda>o'.
                arith fits_i128 (d + o')))
           else arith fits_i128 ((day + 1) * 86400))
          (\<lambda>next'. ok_or (checked fits_i64 next') TimestampOverflow))))"

definition next_flash_slot :: "i64 \<Rightarrow> u64 \<Rightarrow> (DraftingError, i64) outcome" where
  "next_flash_slot unix_seconds cadence_secs =
     (if cadence_secs = 0 then Err InvalidCadence
      else
        and_then (ok_or (checked fits_i128 ((unix_seconds div cadence_secs + 1) * cadence_secs)) TimestampOverflow)
          (\<lambda>next'. ok_or (checked fits_i64 next') TimestampOverflow))"

section \<open>Slots\<close>

definition daily_boundary :: "int \<Rightarrow> int \<Rightarrow> bool" where
  "daily_boundary slots t \<longleftrightarrow> (\<exists>d i. 0 \<le> i \<and> i < slots \<and> t = d * 86400 + i * (86400 div slots))"

definition least_after :: "(int \<Rightarrow> bool) \<Rightarrow> int \<Rightarrow> int \<Rightarrow> bool" where
  "least_after P now t \<longleftrightarrow> P t \<and> now < t \<and> (\<forall>b. P b \<and> now < b \<longrightarrow> t \<le> b)"

definition daily_next :: "int \<Rightarrow> int \<Rightarrow> int" where
  "daily_next now slots =
     (let iv = 86400 div slots; k = now mod 86400 div iv + 1
      in if k < slots then now div 86400 * 86400 + k * iv else (now div 86400 + 1) * 86400)"

lemma interval_range:
  fixes slots :: int
  assumes "0 < slots" "slots \<le> 86400"
  shows "1 \<le> 86400 div slots" "slots * (86400 div slots) \<le> 86400" "86400 div slots \<le> 86400"
proof -
  show "1 \<le> 86400 div slots" using assms le_zdiv_iff[of slots 1 86400] by simp
  show "slots * (86400 div slots) \<le> 86400"
    using le_zdiv_iff[OF assms(1), of "86400 div slots" 86400] by (simp add: mult.commute)
  show "86400 div slots \<le> 86400" using assms zdiv_mono2[of 86400 1 slots] by simp
qed

lemma daily_next_least:
  assumes "0 < slots" "slots \<le> 86400"
  shows "least_after (daily_boundary slots) now (daily_next now slots)"
proof -
  define iv day sec k where "iv = 86400 div slots" and "day = now div 86400" and "sec = now mod 86400"
    and "k = sec div iv + 1"
  have iv: "1 \<le> iv" "slots * iv \<le> 86400" using interval_range[OF assms] by (simp_all add: iv_def)
  have now: "now = day * 86400 + sec" "0 \<le> sec" "sec < 86400" by (simp_all add: day_def sec_def)
  have k: "sec < k * iv" "1 \<le> k"
    using le_zdiv_iff[of iv k sec] iv now(2) by (auto simp: k_def pos_imp_zdiv_nonneg_iff)
  let ?t = "daily_next now slots"
  have t: "?t = (if k < slots then day * 86400 + k * iv else (day + 1) * 86400)"
    by (simp add: daily_next_def Let_def iv_def day_def sec_def k_def)
  have kiv: "k * iv \<le> 86400" if "k < slots"
    using that iv mult_right_mono[of k slots iv] by linarith
  have "daily_boundary slots ?t"
  proof (cases "k < slots")
    case True
    then show ?thesis unfolding daily_boundary_def t iv_def[symmetric] using k by (intro exI[of _ day] exI[of _ k]) simp
  next
    case False
    then show ?thesis unfolding daily_boundary_def t using assms by (intro exI[of _ "day + 1"] exI[of _ 0]) simp
  qed
  moreover have "now < ?t" unfolding t using k now by auto
  moreover have "?t \<le> b" if db: "daily_boundary slots b" and later: "now < b" for b
  proof -
    from db have "\<exists>d i. 0 \<le> i \<and> i < slots \<and> b = d * 86400 + i * iv"
      by (simp only: daily_boundary_def iv_def)
    then obtain d i where i: "0 \<le> i" "i < slots" "b = d * 86400 + i * iv" by (elim exE conjE)
    have "i * iv < slots * iv" using i iv by simp
    then have small: "i * iv < 86400" using iv(2) by linarith
    have "0 \<le> i * iv" using i iv by simp
    note small = small this
    consider "d < day" | "d = day" | "day < d" by linarith
    then show ?thesis
    proof cases
      case 1
      then have False using small i(3) later now by linarith
      then show ?thesis ..
    next
      case 2
      then have "sec < i * iv" using later i(3) now by simp
      then have "k \<le> i" using le_zdiv_iff[of iv i sec] iv by (auto simp: k_def)
      moreover from this have "k * iv \<le> i * iv" using iv by simp
      ultimately show ?thesis using i 2 by (simp add: t)
    next
      case 3
      then have "(day + 1) * 86400 \<le> d * 86400" by simp
      then show ?thesis using small i(3) kiv by (auto simp: t)
    qed
  qed
  ultimately show ?thesis by (simp add: least_after_def)
qed


lemma next_daily_slot_eq:
  assumes "fits_i64 now" "0 < slots" "slots \<le> 86400"
  shows "next_daily_slot now slots = ok_or (checked fits_i64 (daily_next now slots)) TimestampOverflow"
proof -
  define iv k where "iv = 86400 div slots" and "k = now mod 86400 div iv + 1"
  have iv: "1 \<le> iv" "slots * iv \<le> 86400" using interval_range[OF assms(2,3)] by (simp_all add: iv_def)
  have "0 \<le> now mod 86400 div iv" using iv by (simp add: pos_imp_zdiv_nonneg_iff)
  then have k: "0 \<le> k * iv" "k < slots \<Longrightarrow> k * iv \<le> 86400"
    using iv mult_right_mono[of k slots iv] by (simp add: k_def, linarith)
  have day: "- 9223372036854775808 - 86400 \<le> now div 86400 * 86400" "now div 86400 * 86400 \<le> i64_MAX"
    using assms(1) by (auto simp: width_defs)
  have f: "fits_i128 (now div 86400 * 86400)" "k < slots \<Longrightarrow> fits_i128 (k * iv)"
    "k < slots \<Longrightarrow> fits_i128 (now div 86400 * 86400 + k * iv)" "fits_i128 ((now div 86400 + 1) * 86400)"
    using k day unfolding width_defs by (auto simp: distrib_right)
  show ?thesis using assms(2) iv f
    by (simp add: next_daily_slot_def daily_next_def Let_def udiv_def iv_def[symmetric] k_def[symmetric])
qed

lemma next_flash_slot_eq:
  assumes "fits_i64 now" "fits_u64 c" "0 < c"
  shows "next_flash_slot now c = ok_or (checked fits_i64 ((now div c + 1) * c)) TimestampOverflow"
    "least_after (\<lambda>t. c dvd t) now ((now div c + 1) * c)"
proof -
  have m: "now div c * c = now - now mod c" "0 \<le> now mod c" "now mod c < c"
    using assms(3) by (simp_all add: minus_mod_eq_div_mult)
  then have "fits_i128 ((now div c + 1) * c)" using assms unfolding width_defs distrib_right by linarith
  then show "next_flash_slot now c = ok_or (checked fits_i64 ((now div c + 1) * c)) TimestampOverflow"
    using assms(3) by (simp add: next_flash_slot_def)
  have "(now div c + 1) * c \<le> b" if b: "c dvd b" "now < b" for b
  proof -
    obtain q where q: "b = q * c" using b(1) by (auto simp: dvd_def mult.commute)
    have "\<not> q \<le> now div c" using b(2) q le_zdiv_iff[OF assms(3), of q now] by auto
    then show ?thesis using q assms(3) by simp
  qed
  then show "least_after (\<lambda>t. c dvd t) now ((now div c + 1) * c)"
    using m by (simp add: least_after_def distrib_right)
qed

text \<open>An answer to "the next boundary": the least one after now, or an overflow when none fits.\<close>

definition slot_answer :: "(int \<Rightarrow> bool) \<Rightarrow> int \<Rightarrow> (DraftingError, int) outcome \<Rightarrow> bool" where
  "slot_answer boundary now r \<longleftrightarrow> (case r of
     Ok t \<Rightarrow> least_after boundary now t
   | Err e \<Rightarrow> e = TimestampOverflow \<and> (\<forall>b. boundary b \<and> now < b \<longrightarrow> \<not> fits_i64 b)
   | Panic \<Rightarrow> False)"

lemma slot_answerI:
  assumes "least_after boundary now t" "fits_i64 now"
  shows "slot_answer boundary now (ok_or (checked fits_i64 t) TimestampOverflow)"
proof (cases "fits_i64 t")
  case False
  have "\<not> fits_i64 b" if "boundary b" "now < b" for b
  proof -
    have "t \<le> b" "now < t" using assms(1) that by (auto simp: least_after_def)
    then show ?thesis using False assms(2) by (auto simp: width_defs)
  qed
  then show ?thesis using False by (simp add: slot_answer_def)
qed (simp add: slot_answer_def assms)

text \<open>
  C31. The slot functions return the least boundary strictly after now: for the daily tier the multiples of
  \<open>floor(86400 / slots)\<close> from each UTC midnight (one per slot, the remainder of the day in the last
  interval), for the flash tier the multiples of the cadence. They never panic; zero slots or cadence is
  rejected, and \<open>TimestampOverflow\<close> means that no such boundary fits an \<open>i64\<close>.
\<close>

theorem next_slots_least:
  assumes "fits_i64 now" "fits_u16 slots" "fits_u64 cadence"
  shows "(if slots = 0 then next_daily_slot now slots = Err InvalidSlots
      else slot_answer (daily_boundary slots) now (next_daily_slot now slots)) \<and>
    (if cadence = 0 then next_flash_slot now cadence = Err InvalidCadence
      else slot_answer (\<lambda>t. cadence dvd t) now (next_flash_slot now cadence))"
proof (intro conjI)
  have s: "slots \<noteq> 0 \<Longrightarrow> 0 < slots \<and> slots \<le> 86400" using assms(2) by (auto simp: width_defs)
  show "if slots = 0 then next_daily_slot now slots = Err InvalidSlots
      else slot_answer (daily_boundary slots) now (next_daily_slot now slots)"
    using s slot_answerI[OF daily_next_least assms(1)] next_daily_slot_eq[OF assms(1)]
    by (auto simp: next_daily_slot_def[of now 0])
  have c: "cadence \<noteq> 0 \<Longrightarrow> 0 < cadence" using assms(3) by (auto simp: width_defs)
  show "if cadence = 0 then next_flash_slot now cadence = Err InvalidCadence
      else slot_answer (\<lambda>t. cadence dvd t) now (next_flash_slot now cadence)"
    using slot_answerI[OF next_flash_slot_eq(2)[OF assms(1,3) c] assms(1)] next_flash_slot_eq(1)[OF assms(1,3) c]
    by (auto simp: next_flash_slot_def[of now 0])
qed

theorem next_slots_least_witness:
  "next_daily_slot (-1) 7 = Ok 0 \<and> slot_answer (daily_boundary 7) (-1) (next_daily_slot (-1) 7) \<and>
   next_flash_slot 9223372036854775807 60 = Err TimestampOverflow \<and>
   slot_answer (\<lambda>t. 60 dvd t) 9223372036854775807 (next_flash_slot 9223372036854775807 60)"
proof -
  have w: "fits_i64 (-1)" "fits_u16 7" "fits_i64 9223372036854775807" "fits_u64 60" by (simp_all add: width_defs)
  have "next_daily_slot (-1) 7 = Ok 0" "next_flash_slot 9223372036854775807 60 = Err TimestampOverflow" by code_simp+
  then show ?thesis using next_slots_least[OF w(1,2,4)] next_slots_least[OF w(3,2,4)] by simp
qed


end
