(* ===== verification/Model.thy ===== *)
theory Model
  imports Amm Market Resolution Voting Integrity Text
begin

text \<open>
  The plain data that crosses the ports of the application crate (\<open>application/src/model.rs\<close>), its error
  vocabulary (\<open>application/src/error.rs\<close>) and the start-up validation of the policies. An id newtype over
  \<open>Uuid\<close> is its uuid. An \<open>OffsetDateTime\<close> is the number of nanoseconds since the Unix epoch. A
  \<open>&'static str\<close> is a \<^typ>\<open>string\<close>, an owned \<open>String\<close> a \<^typ>\<open>ustring\<close>. A \<open>serde_json::Value\<close> is the
  datatype \<open>Value\<close>; its integer numbers are \<open>Num\<close> and the others \<open>Decimal\<close> with their text.
\<close>

section \<open>Identifiers, time and JSON\<close>

type_synonym market_id = uuid
type_synonym user_id = uuid
type_synonym outcome_id = uuid
type_synonym trade_id = uuid
type_synonym vote_id = uuid
type_synonym time = int

abbreviation (input) UNIX_EPOCH :: time where "UNIX_EPOCH \<equiv> 0"

definition seconds :: "int \<Rightarrow> int" where
  "seconds n = n * 1000000000"

text \<open>\<open>Duration::whole_seconds\<close> truncates towards zero.\<close>

definition whole_seconds :: "int \<Rightarrow> int" where
  "whole_seconds d = (if 0 \<le> d then d div 1000000000 else - ((- d) div 1000000000))"

datatype Value =
    Null
  | Bool bool
  | Num int
  | Decimal ustring
  | Str ustring
  | Array "Value list"
  | Object "(ustring \<times> Value) list"

fun as_bool :: "Value \<Rightarrow> bool option" where
  "as_bool (Bool b) = Some b"
| "as_bool _ = None"

fun as_i64 :: "Value \<Rightarrow> i64 option" where
  "as_i64 (Num n) = checked fits_i64 n"
| "as_i64 _ = None"

fun as_u64 :: "Value \<Rightarrow> u64 option" where
  "as_u64 (Num n) = checked fits_u64 n"
| "as_u64 _ = None"

fun as_str :: "Value \<Rightarrow> ustring option" where
  "as_str (Str s) = Some s"
| "as_str _ = None"

fun as_array :: "Value \<Rightarrow> Value list option" where
  "as_array (Array vs) = Some vs"
| "as_array _ = None"

fun as_object :: "Value \<Rightarrow> (ustring \<times> Value) list option" where
  "as_object (Object kvs) = Some kvs"
| "as_object _ = None"

section \<open>Errors\<close>

datatype StoreError =
    NotFound string
  | DuplicateKey
  | StoreLedger LedgerError
  | Invariant string
  | Conflict string
  | StoreIntegrity ustring
  | Backend ustring
  | Unavailable string

datatype AppError =
    MarketNotOpen
  | TradingFrozen
  | VoteRequired
  | InsufficientShares
  | PositionCapExceeded i64 u8
  | SeedFeeBelowMinimum u16 u16
  | AppInsufficientFunds
  | AlreadyVoted
  | VotingClosed
  | InvalidCrowdGuess
  | PhoneVerificationRequired
  | VoteVelocityExceeded
  | AccountTooYoungNearClose
  | CommentNotVisible
  | CommentAlreadyVoted
  | InvalidCommentVote
  | ThreadTooDeep
  | ReporterNotQualified
  | ReportVelocityExceeded
  | CommentBlocked string
  | InvalidDraft string
  | DraftNotPending
  | DraftNotApproved
  | DraftExpired
  | PendingDraftLimit
  | NoSlotFree
  | DailySeedBudgetExceeded
  | JobNotReady
  | ArtifactNotFound
  | IllegalTransition
  | UseResolveMarket
  | NeedsCuratorDecision
  | CuratorOverrideNotAllowed
  | UnderReview
  | CuratorRequired
  | LpPaused
  | StaleConfig i64 i64
  | IdempotencyConflict
  | TradingPaused
  | VotingPaused
  | ProposalConflict string
  | ReceivableOpen i64
  | AdminForbidden string
  | ConfigInvalid ustring string
  | ExpectedConfigVersionRequired
  | MoneyForbidden string
  | DepositsPaused
  | ComplianceHold string
  | InsufficientBonusReserve i64 i64
  | ReferralIneligible
  | AppOverflow
  | AppAmm AmmError
  | AppResolution ResolutionError
  | AppScoring ScoringError
  | AppStore StoreError

section \<open>Market, trade and vote rows\<close>

record MarketRow =
  mk_id :: market_id
  slug :: ustring
  question :: ustring
  mk_state :: MarketState
  min_votes_to_resolve :: i32
  opens_at :: time
  closes_at :: time
  tally_hidden_at :: time
  yes_outcome :: outcome_id
  no_outcome :: outcome_id
  curator_flagged_at :: "time option"
  integrity_due_at :: "time option"
  poster_asset_url :: "ustring option"
  video_asset_url :: "ustring option"

datatype TradeAction = Buy | Sell

record TradeReceipt =
  rc_trade_id :: trade_id
  rc_ledger_txn :: uuid
  rc_side :: Side
  rc_action :: TradeAction
  rc_shares :: micro_shares
  rc_gross :: micro_usd
  rc_fee :: micro_usd
  rc_avg_price_micro :: i64
  replayed :: bool

record NewTrade =
  nt_market :: market_id
  nt_user :: user_id
  nt_outcome :: outcome_id
  nt_side :: Side
  nt_action :: TradeAction
  nt_shares :: micro_shares
  nt_gross :: micro_usd
  nt_fee :: micro_usd
  nt_avg_price_micro :: i64
  nt_ledger_txn :: uuid
  nt_run_id :: "uuid option"
  nt_pending_action_id :: "uuid option"

record InsertedTrade =
  it_id :: trade_id
  it_trade_seq :: i64
  it_created_at :: time

record Event =
  event_type :: string
  aggregate_type :: string
  aggregate_id :: uuid
  payload :: Value

record PositionRow =
  pos_user :: user_id
  pos_outcome :: outcome_id
  pos_shares :: micro_shares
  pos_cost :: micro_usd
  pos_realized_pnl :: micro_usd

datatype RealizationSource = SellRealization | Settlement | Void

record RealizationFact =
  rz_user :: user_id
  rz_market :: market_id
  rz_outcome :: outcome_id
  rz_source :: RealizationSource
  rz_realized_delta :: micro_usd
  rz_payout :: micro_usd
  rz_ledger_txn :: uuid
  rz_created_at :: time

datatype OwnerRef =
    UserOwner user_id
  | MarketEscrow market_id
  | MarketPool market_id
  | FeesOwner
  | HouseOwner
  | ExternalOwner
  | WithheldOwner
  | DepositSuspenseOwner
  | BonusReserveOwner

record NewDeposit =
  nd_user :: user_id
  nd_amount :: micro_usd
  nd_chain_sig :: ustring
  nd_ledger_txn :: uuid

datatype ModerationStatus = StatusVisible | StatusShadow | StatusBlocked

record CommentRow =
  cm_id :: uuid
  cm_market :: market_id
  cm_author :: user_id
  cm_parent :: "uuid option"
  cm_body :: ustring
  cm_body_hash :: "ustring option"
  cm_score :: i32
  cm_moderation_status :: ModerationStatus
  cm_depth :: u8
  cm_reply_count :: u32
  cm_created_at :: time

record NewComment =
  nc_id :: uuid
  nc_market :: market_id
  nc_author :: user_id
  nc_parent :: "uuid option"
  nc_body :: ustring
  nc_body_hash :: ustring
  nc_moderation_status :: ModerationStatus
  nc_depth :: u8
  nc_created_at :: time

record NotificationRow =
  nf_id :: i64
  nf_user :: user_id
  nf_type :: ustring
  nf_market :: "market_id option"
  nf_payload :: Value
  nf_source_seq :: "i64 option"
  nf_read_at :: "time option"
  nf_created_at :: time

record ReputationRow =
  rep_user :: user_id
  rep_micro :: i64
  rep_tier :: u8

record LifecycleCommand =
  lc_market :: market_id
  lc_event :: MarketEvent
  lc_resulting_state :: MarketState

record NewMarket =
  nm_id :: market_id
  nm_slug :: ustring
  nm_min_votes_to_resolve :: i32
  nm_closes_at :: time
  nm_tally_hidden_at :: time

record IntegrityReportRow =
  ir_market :: market_id
  ir_checks :: Value
  ir_verdict :: Verdict
  ir_created_at :: time

section \<open>The tally\<close>

record Tally =
  yes_votes :: i64
  no_votes :: i64

definition tally_total :: "Tally \<Rightarrow> ('e, i64) outcome" where
  "tally_total self = arith fits_i64 (yes_votes self + no_votes self)"

text \<open>Rust's integer division truncates towards zero.\<close>

definition tdiv :: "int \<Rightarrow> int \<Rightarrow> int" where
  "tdiv n d = sgn n * sgn d * (\<bar>n\<bar> div \<bar>d\<bar>)"

definition actual_yes_bps :: "Tally \<Rightarrow> ('e, u16 option) outcome" where
  "actual_yes_bps self =
     and_then (tally_total self) (\<lambda>total'.
       if total' = 0 then Ok None
       else Ok (checked fits_u16 (tdiv (yes_votes self * 10000) total')))"

section \<open>The ops control plane\<close>

datatype AdminRole = Curator | Ops | Finance | Superadmin

fun AdminRole_name :: "AdminRole \<Rightarrow> string" where
  "AdminRole_name Curator = ''curator''"
| "AdminRole_name Ops = ''ops''"
| "AdminRole_name Finance = ''finance''"
| "AdminRole_name Superadmin = ''superadmin''"

datatype AdminContext = Machine | Admin ustring AdminRole

fun is_admin :: "AdminContext \<Rightarrow> bool" where
  "is_admin Machine = False"
| "is_admin (Admin _ _) = True"

record AdminAction =
  actor_role :: AdminRole
  actor_token_digest :: ustring
  aa_action :: ustring
  aa_subject :: ustring
  aa_before :: "Value option"
  aa_after :: "Value option"
  aa_reason :: "ustring option"

record ConfigChange =
  cc_key :: ustring
  cc_old :: "Value option"
  cc_new :: Value

datatype ProposalStatus = Pending | Confirmed | Rejected | Expired

record ConfigProposal =
  cp_id :: uuid
  cp_idempotency_key :: ustring
  cp_patch :: Value
  cp_patch_hash :: ustring
  cp_base_generation :: i64
  cp_proposer_token_id :: ustring
  cp_proposer_role :: AdminRole
  cp_reason :: ustring
  cp_status :: ProposalStatus
  cp_expires_at :: time
  cp_confirmer_token_id :: "ustring option"
  cp_resulting_generation :: "i64 option"

datatype UnwindStage =
  UnwindProposed | UnwindConfirmed | UnwindApplied | UnwindRejected | UnwindExpired

record MarketUnwind =
  mu_market :: market_id
  unwind_key :: ustring
  mu_stage :: UnwindStage
  mu_proposer_token_id :: ustring
  mu_confirmer_token_id :: "ustring option"
  mu_reason :: ustring
  mu_confirm_not_before :: time
  mu_reversal_txn :: "uuid option"

record Receivable =
  rv_id :: uuid
  rv_market :: market_id
  rv_user :: user_id
  origin_reversal_txn :: uuid
  opened_micro :: i64

datatype ReceivableMovementKind = Opened | Collected | WrittenOff

record ReceivableMovement =
  mv_id :: uuid
  mv_receivable :: uuid
  mv_kind :: ReceivableMovementKind
  mv_amount_micro :: i64
  mv_actor :: ustring
  cash_txn :: "uuid option"
  mv_idempotency_key :: ustring

text \<open>Dual-controlled proposals and durable commands.\<close>

record WriteOffProposal =
  wo_id :: uuid
  wo_receivable :: uuid
  wo_idempotency_key :: ustring
  wo_amount_micro :: i64
  wo_proposer_token_id :: ustring
  wo_confirmer_token_id :: "ustring option"
  wo_reason :: ustring
  wo_status :: ProposalStatus
  wo_confirm_not_before :: time

record RemedialCreditProposal =
  rp_id :: uuid
  rp_market :: market_id
  rp_user :: user_id
  rp_idempotency_key :: ustring
  rp_amount_micro :: i64
  rp_proposer_token_id :: ustring
  rp_confirmer_token_id :: "ustring option"
  rp_reason :: ustring
  rp_status :: ProposalStatus
  rp_confirm_not_before :: time

datatype OpsJobStatus = JobPending | JobExecuting | JobDone | JobFailed

record OpsJobCommand =
  jc_id :: uuid
  jc_kind :: ustring
  jc_subject :: ustring
  jc_idempotency_key :: ustring
  jc_requested_by :: ustring
  jc_status :: OpsJobStatus
  jc_attempts :: i32
  jc_lease_expires_at :: "time option"
  jc_error :: "ustring option"

datatype PublicationCommandStatus =
  PublicationPending | PublicationExecuting | PublicationDone | PublicationFailed

record PublicationCommand =
  pb_id :: uuid
  pb_draft :: uuid
  pb_idempotency_key :: ustring
  pb_requested_by :: ustring
  pb_status :: PublicationCommandStatus
  pb_attempts :: i32
  pb_lease_expires_at :: "time option"
  pb_result_market :: "market_id option"
  pb_error :: "ustring option"

section \<open>Validated policies\<close>

record RepConfig =
  half_life :: HalfLife
  tier_thresholds_micro :: "i64 list"
  position_cap_micro_by_tier :: "i64 list"
  fee_discount_bp_by_tier :: "u16 list"
  rep_min_fee_bps :: u16
  rep_score_min_pot_micro :: i64
  discount_flip_window_secs :: u64
  leaderboard_min_scored :: u32

text \<open>\<open>windows(2)\<close>: the adjacent pairs of a slice.\<close>

definition pairs :: "'a list \<Rightarrow> ('a \<times> 'a) list" where
  "pairs xs = zip xs (tl xs)"

definition RepConfig_validate :: "RepConfig \<Rightarrow> (string, RepConfig) outcome" where
  "RepConfig_validate self =
     (if list_ex (\<lambda>v. \<not> (0 \<le> v \<and> v \<le> 1000000)) (tier_thresholds_micro self) \<or>
         list_ex (\<lambda>(a, b). b \<le> a) (pairs (tier_thresholds_micro self))
        then Err ''tier thresholds must be strictly ascending in 0..=1,000,000''
      else if list_ex (\<lambda>c. c < 0) (position_cap_micro_by_tier self) \<or>
         list_ex (\<lambda>(a, b). b < a) (pairs (position_cap_micro_by_tier self))
        then Err ''position caps must be nonnegative and nondecreasing''
      else if list_ex (\<lambda>d. 10000 < d) (fee_discount_bp_by_tier self) \<or> 10000 < rep_min_fee_bps self
        then Err ''fees and discounts must not exceed 10,000 bps''
      else if rep_score_min_pot_micro self < 0
        then Err ''reputation quality-floor pot must be nonnegative''
      else if leaderboard_min_scored self = 0
        then Err ''leaderboard minimum must be at least one''
      else Ok self)"

definition RepConfig_default :: RepConfig where
  "RepConfig_default =
     \<lparr>half_life = H20, tier_thresholds_micro = [200000, 400000, 600000, 800000],
      position_cap_micro_by_tier = replicate 5 i64_MAX, fee_discount_bp_by_tier = replicate 5 0,
      rep_min_fee_bps = 0, rep_score_min_pot_micro = 0, discount_flip_window_secs = 0,
      leaderboard_min_scored = 1\<rparr>"

record LpKillConfig =
  max_loss_micro :: i64
  window_days :: u32

definition LpKillConfig_validate :: "LpKillConfig \<Rightarrow> (string, LpKillConfig) outcome" where
  "LpKillConfig_validate self =
     (if max_loss_micro self \<le> 0 then Err ''maximum loss must be positive''
      else if window_days self = 0 then Err ''window days must be positive''
      else Ok self)"

definition LpKillConfig_default :: LpKillConfig where
  "LpKillConfig_default = \<lparr>max_loss_micro = i64_MAX, window_days = 30\<rparr>"

record VoteIntegrityConfig =
  max_votes_per_window :: u32
  vi_window_secs :: u64
  near_close_secs :: u64
  min_account_age_secs :: u64

definition VoteIntegrityConfig_default :: VoteIntegrityConfig where
  "VoteIntegrityConfig_default =
     \<lparr>max_votes_per_window = 30, vi_window_secs = 3600, near_close_secs = 600,
      min_account_age_secs = 72 * 3600\<rparr>"

end
