(* ===== verification/MoneyTypes.thy ===== *)
theory MoneyTypes
  imports Model
begin

text \<open>
  The vocabulary of the money control plane: the rows and enumerations of
  \<open>application/src/money/mod.rs\<close>, \<open>money/types.rs\<close>, \<open>money/aml.rs\<close>, \<open>money/admin.rs\<close> and
  \<open>ports/money.rs\<close>, their wire names, and the typed fee override.
\<close>

section \<open>The fee override\<close>

datatype FeeBpsOverride = Inherit | Override u16

definition FeeBpsOverride_parse :: "Value option \<Rightarrow> (StoreError, FeeBpsOverride) outcome" where
  "FeeBpsOverride_parse value =
     (case value of None \<Rightarrow> Ok Inherit
      | Some v \<Rightarrow>
          if as_str v = Some (lit ''inherit'') then Ok Inherit
          else (case as_object v of
              Some object \<Rightarrow>
                if length object = 1 then
                  (case Option.bind (map_of object (lit ''override'')) as_u64 of
                     Some bps \<Rightarrow>
                       if 10 \<le> bps \<and> bps \<le> 200 then Ok (Override bps)
                       else Err (Invariant ''invalid fee override'')
                   | None \<Rightarrow> Err (Invariant ''invalid fee override''))
                else Err (Invariant ''invalid fee override'')
            | None \<Rightarrow> Err (Invariant ''invalid fee override'')))"

fun base_bps_of :: "FeeBpsOverride \<Rightarrow> u16 \<Rightarrow> u16" where
  "base_bps_of Inherit pool_fee_bps = pool_fee_bps"
| "base_bps_of (Override bps) _ = bps"

section \<open>The deposit machine\<close>

datatype DepositMachineStatus =
    ObservedFinalized | AdmissionPending | Admitted | AdmittedLegacy
  | DepositComplianceHold | RefundApproved | RefundSending | Refunded

fun deposit_status_name :: "DepositMachineStatus \<Rightarrow> string" where
  "deposit_status_name ObservedFinalized = ''observed_finalized''"
| "deposit_status_name AdmissionPending = ''admission_pending''"
| "deposit_status_name Admitted = ''admitted''"
| "deposit_status_name AdmittedLegacy = ''admitted_legacy''"
| "deposit_status_name DepositComplianceHold = ''compliance_hold''"
| "deposit_status_name RefundApproved = ''refund_approved''"
| "deposit_status_name RefundSending = ''refund_sending''"
| "deposit_status_name Refunded = ''refunded''"

definition parse_deposit_status :: "string \<Rightarrow> (StoreError, DepositMachineStatus) outcome" where
  "parse_deposit_status value =
     (if value = ''observed_finalized'' then Ok ObservedFinalized
      else if value = ''admission_pending'' then Ok AdmissionPending
      else if value = ''admitted'' then Ok Admitted
      else if value = ''admitted_legacy'' \<or> value = ''credited'' then Ok AdmittedLegacy
      else if value = ''compliance_hold'' then Ok DepositComplianceHold
      else if value = ''refund_approved'' then Ok RefundApproved
      else if value = ''refund_sending'' then Ok RefundSending
      else if value = ''refunded'' then Ok Refunded
      else Err (Invariant ''unknown deposit machine status''))"

definition is_suspense_liability :: "DepositMachineStatus \<Rightarrow> bool" where
  "is_suspense_liability status = (status \<notin> {Admitted, AdmittedLegacy, Refunded})"

datatype ScreenVerdict = Clear time time ustring | Hit | Indeterminate

fun allows_progress :: "ScreenVerdict \<Rightarrow> time \<Rightarrow> bool" where
  "allows_progress (Clear _ expires_at _) now = (now < expires_at)"
| "allows_progress Hit _ = False"
| "allows_progress Indeterminate _ = False"

fun needs_rescreen :: "ScreenVerdict \<Rightarrow> time \<Rightarrow> bool" where
  "needs_rescreen (Clear _ expires_at _) now = (expires_at \<le> now)"
| "needs_rescreen Indeterminate _ = True"
| "needs_rescreen Hit _ = False"

record DepositMachineRow =
  dm_id :: uuid
  dm_user :: "user_id option"
  dm_amount :: micro_usd
  dm_chain_sig :: ustring
  dm_source_address :: ustring
  dm_dest_address :: ustring
  dm_mint :: ustring
  dm_rail_fingerprint :: ustring
  dm_slot :: i64
  dm_status :: DepositMachineStatus
  suspense_tx_id :: "uuid option"
  admit_tx_id :: "uuid option"
  refund_tx_id :: "uuid option"

section \<open>Credits\<close>

datatype GrantClass = RealMoney | Sweeps

fun GrantClass_as_str :: "GrantClass \<Rightarrow> string" where
  "GrantClass_as_str RealMoney = ''real_money''"
| "GrantClass_as_str Sweeps = ''sweeps''"

definition GrantClass_parse :: "string \<Rightarrow> (StoreError, GrantClass) outcome" where
  "GrantClass_parse value =
     (if value = ''real_money'' then Ok RealMoney
      else if value = ''sweeps'' then Ok Sweeps
      else Err (Invariant ''unknown grant class''))"

record CreditLotRow =
  lot_id :: uuid
  lot_user :: user_id
  lot_source :: ustring
  lot_amount_micro :: i64
  granted_at :: time
  grant_class :: GrantClass
  policy_version :: ustring
  converted_at :: "time option"

datatype AllocationKind = Allocated | Finalized | Reversed

fun AllocationKind_as_str :: "AllocationKind \<Rightarrow> string" where
  "AllocationKind_as_str Allocated = ''allocated''"
| "AllocationKind_as_str Finalized = ''finalized''"
| "AllocationKind_as_str Reversed = ''reversed''"

definition AllocationKind_parse :: "string \<Rightarrow> (StoreError, AllocationKind) outcome" where
  "AllocationKind_parse value =
     (if value = ''allocated'' then Ok Allocated
      else if value = ''finalized'' then Ok Finalized
      else if value = ''reversed'' then Ok Reversed
      else Err (Invariant ''unknown allocation kind''))"

record AllocationFact =
  al_id :: uuid
  al_trade_id :: uuid
  al_lot_id :: uuid
  al_split_seq :: i32
  al_amount_micro :: i64
  al_kind :: AllocationKind
  source_allocation_id :: "uuid option"
  al_idempotency_key :: ustring

record CreditConversionTxn =
  cv_lot_id :: uuid
  cv_retire_txn :: uuid
  cv_pay_txn :: uuid
  cv_replayed :: bool

record ConvertCollectReceipt =
  converted_micro :: i64
  collected_micro :: i64
  lots_converted :: u32
  conversion_txns :: "CreditConversionTxn list"

section \<open>Outbound payments and compliance facts\<close>

datatype OutboundSubject = WithdrawalSubject | DepositRefundSubject

fun OutboundSubject_as_str :: "OutboundSubject \<Rightarrow> string" where
  "OutboundSubject_as_str WithdrawalSubject = ''withdrawal''"
| "OutboundSubject_as_str DepositRefundSubject = ''deposit_refund''"

record OutboundPaymentRow =
  op_id :: uuid
  op_subject :: OutboundSubject
  op_subject_id :: uuid
  op_dest :: ustring
  op_amount_micro :: i64
  op_rail_fingerprint :: ustring

datatype LandingState =
  LandingPrepared | LandingBroadcast | LandingUnknown | LandingFinalized | LandingDefinitiveFailed

fun LandingState_as_str :: "LandingState \<Rightarrow> string" where
  "LandingState_as_str LandingPrepared = ''prepared''"
| "LandingState_as_str LandingBroadcast = ''broadcast''"
| "LandingState_as_str LandingUnknown = ''unknown''"
| "LandingState_as_str LandingFinalized = ''finalized''"
| "LandingState_as_str LandingDefinitiveFailed = ''definitive_failed''"

definition is_live :: "LandingState \<Rightarrow> bool" where
  "is_live self = (self \<in> {LandingPrepared, LandingBroadcast, LandingUnknown})"

record OutboundAttemptRow =
  at_id :: uuid
  at_payment_id :: uuid
  attempt_number :: i32
  replaces_attempt_id :: "uuid option"
  signed_tx_bytes :: "byte list"
  at_signature :: ustring
  last_valid_block_height :: i64
  landing_state :: LandingState
  at_lease_expires_at :: "time option"
  at_evidence :: "Value option"

record ComplianceDecision =
  cd_id :: uuid
  cd_subject_type :: ustring
  cd_subject_id :: uuid
  cd_kind :: ustring
  cd_actor :: ustring
  cd_at :: time
  cd_payload :: Value

datatype AmlDirection = AmlDeposit | AmlWithdrawal

datatype AmlKind = Structuring | DepositVelocity | WithdrawVelocity | SanctionsHit

fun AmlKind_as_str :: "AmlKind \<Rightarrow> string" where
  "AmlKind_as_str Structuring = ''structuring''"
| "AmlKind_as_str DepositVelocity = ''deposit_velocity''"
| "AmlKind_as_str WithdrawVelocity = ''withdraw_velocity''"
| "AmlKind_as_str SanctionsHit = ''sanctions_hit''"

definition AmlKind_parse :: "string \<Rightarrow> (StoreError, AmlKind) outcome" where
  "AmlKind_parse raw =
     (if raw = ''structuring'' then Ok Structuring
      else if raw = ''deposit_velocity'' then Ok DepositVelocity
      else if raw = ''withdraw_velocity'' then Ok WithdrawVelocity
      else if raw = ''sanctions_hit'' then Ok SanctionsHit
      else Err (Invariant ''unknown aml rule''))"

record AmlLeg =
  leg_id :: uuid
  leg_user :: user_id
  leg_dest :: ustring
  leg_amount_micro :: i64
  leg_at :: time
  leg_direction :: AmlDirection

record AmlFlag =
  fl_id :: uuid
  fl_user :: user_id
  fl_rule :: AmlKind
  window_label :: ustring
  fl_evidence :: Value
  fl_open :: bool
  fl_at :: time

record MoneyProposal =
  mp_id :: uuid
  mp_kind :: ustring
  mp_subject_id :: uuid
  mp_payload_hash :: ustring
  mp_proposer_token_id :: ustring
  mp_confirmer_token_id :: "ustring option"
  mp_reason :: ustring
  mp_status :: ProposalStatus
  mp_confirm_not_before :: time
  mp_expires_at :: time
  replay_key :: ustring
  mp_created_at :: time

section \<open>Wire names\<close>


end
