(* ===== verification/Actions.thy ===== *)
theory Actions
  imports Prelude
begin

text \<open>
  Effectful code as state-passing actions. An action maps a world to its outcome and the world it leaves
  behind, also on an error or a panic: what an aborted call has already written stays written. \<open>seq\<close> is
  statement sequencing with \<open>?\<close>, \<open>for_each\<close> a \<open>for\<close> loop whose body may return early.

  \<open>framed R m\<close> says that every run of \<open>m\<close> relates the worlds before and after by \<open>R\<close>. For a reflexive
  and transitive \<open>R\<close> (locale \<open>frame\<close>) it follows from the parts of an action by \<open>framed_rules\<close>.
\<close>

type_synonym ('w, 'e, 'a) action = "'w \<Rightarrow> ('e, 'a) outcome \<times> 'w"

definition ret :: "'a \<Rightarrow> ('w, 'e, 'a) action" where
  "ret x w = (Ok x, w)"

definition fail :: "'e \<Rightarrow> ('w, 'e, 'a) action" where
  "fail e w = (Err e, w)"

definition lift :: "('e, 'a) outcome \<Rightarrow> ('w, 'e, 'a) action" where
  "lift r w = (r, w)"

definition asks :: "('w \<Rightarrow> 'a) \<Rightarrow> ('w, 'e, 'a) action" where
  "asks f w = (Ok (f w), w)"

definition inquire :: "('w \<Rightarrow> ('e, 'a) outcome) \<Rightarrow> ('w, 'e, 'a) action" where
  "inquire f w = (f w, w)"

definition modify :: "('w \<Rightarrow> 'w) \<Rightarrow> ('w, 'e, unit) action" where
  "modify f w = (Ok (), f w)"

definition seq :: "('w, 'e, 'a) action \<Rightarrow> ('a \<Rightarrow> ('w, 'e, 'b) action) \<Rightarrow> ('w, 'e, 'b) action" where
  "seq m k w =
     (case m w of
        (Ok x, w') \<Rightarrow> k x w'
      | (Err e, w') \<Rightarrow> (Err e, w')
      | (Panic, w') \<Rightarrow> (Panic, w'))"

definition with_err :: "('e \<Rightarrow> 'f) \<Rightarrow> ('w, 'e, 'a) action \<Rightarrow> ('w, 'f, 'a) action" where
  "with_err g m w = (case m w of (r, w') \<Rightarrow> (map_err g r, w'))"

fun for_each :: "('a \<Rightarrow> ('w, 'e, unit) action) \<Rightarrow> 'a list \<Rightarrow> ('w, 'e, unit) action" where
  "for_each f [] = ret ()"
| "for_each f (x # xs) = seq (f x) (\<lambda>_. for_each f xs)"

text \<open>A loop with an accumulator.\<close>

fun for_fold :: "('b \<Rightarrow> 'a \<Rightarrow> ('w, 'e, 'b) action) \<Rightarrow> 'a list \<Rightarrow> 'b \<Rightarrow> ('w, 'e, 'b) action" where
  "for_fold f [] acc = ret acc"
| "for_fold f (x # xs) acc = seq (f acc x) (for_fold f xs)"

definition guard :: "bool \<Rightarrow> 'e \<Rightarrow> ('w, 'e, unit) action" where
  "guard b e = (if b then ret () else fail e)"

section \<open>Results\<close>

named_theorems run_simps \<open>what an action returns and the world it leaves\<close>

lemma seq_Ok_iff [run_simps]:
  "seq m k w = (Ok y, w'') \<longleftrightarrow> (\<exists>x w'. m w = (Ok x, w') \<and> k x w' = (Ok y, w''))"
  by (auto simp: seq_def split: prod.splits outcome.splits)

lemma ret_iff [run_simps]: "ret x w = (r, w') \<longleftrightarrow> r = Ok x \<and> w' = w"
  by (auto simp: ret_def)

lemma fail_iff [run_simps]: "fail e w = (r, w') \<longleftrightarrow> r = Err e \<and> w' = w"
  by (auto simp: fail_def)

lemma lift_iff [run_simps]: "lift r w = (r', w') \<longleftrightarrow> r = r' \<and> w' = w"
  by (auto simp: lift_def)

lemma asks_iff [run_simps]: "asks f w = (r, w') \<longleftrightarrow> r = Ok (f w) \<and> w' = w"
  by (auto simp: asks_def)

lemma inquire_iff [run_simps]: "inquire f w = (r, w') \<longleftrightarrow> f w = r \<and> w' = w"
  by (auto simp: inquire_def)

lemma modify_iff [run_simps]: "modify f w = (r, w') \<longleftrightarrow> r = Ok () \<and> w' = f w"
  by (auto simp: modify_def)

lemma with_err_Ok_iff [run_simps]: "with_err g m w = (Ok x, w') \<longleftrightarrow> m w = (Ok x, w')"
  by (auto simp: with_err_def split: prod.splits)

lemma guard_Ok_iff [run_simps]: "guard b e w = (Ok u, w') \<longleftrightarrow> b \<and> w' = w"
  by (auto simp: guard_def run_simps)

lemma for_each_append:
  "for_each f (xs @ ys) = seq (for_each f xs) (\<lambda>_. for_each f ys)"
proof (induction xs)
  case Nil
  show ?case by (simp add: fun_eq_iff seq_def ret_def)
next
  case (Cons x xs)
  then show ?case by (simp add: fun_eq_iff seq_def split: prod.splits outcome.splits)
qed

text \<open>An invariant of the worlds and what the loop has done so far.\<close>

lemma for_each_Ok_induct:
  assumes "for_each f xs w = (Ok u, w')" "P [] w"
    and "\<And>pre x suf v v'. xs = pre @ x # suf \<Longrightarrow> P pre v \<Longrightarrow> f x v = (Ok (), v') \<Longrightarrow> P (pre @ [x]) v'"
  shows "P xs w'"
  using assms
proof (induction xs arbitrary: w' rule: rev_induct)
  case Nil
  then show ?case by (simp add: run_simps)
next
  case (snoc x xs)
  from snoc.prems(1) obtain w1 where w1: "for_each f xs w = (Ok (), w1)" "f x w1 = (Ok (), w')"
    by (auto simp: for_each_append run_simps)
  have "P xs w1"
  proof (rule snoc.IH[OF _ snoc.prems(2)])
    show "for_each f xs w = (Ok u, w1)" using w1(1) by simp
    fix pre y suf v v'
    assume "xs = pre @ y # suf" "P pre v" "f y v = (Ok (), v')"
    then show "P (pre @ [y]) v'" by (intro snoc.prems(3)[of pre y "suf @ [x]" v]) simp_all
  qed
  with w1(2) snoc.prems(3)[of xs x "[]" w1 w'] show ?case by simp
qed

section \<open>Frames\<close>

definition framed :: "('w \<Rightarrow> 'w \<Rightarrow> bool) \<Rightarrow> ('w, 'e, 'a) action \<Rightarrow> bool" where
  "framed R m \<longleftrightarrow> (\<forall>w. R w (snd (m w)))"

definition atomic :: "('w \<Rightarrow> 'w \<Rightarrow> bool) \<Rightarrow> ('w, 'e, 'a) action \<Rightarrow> bool" where
  "atomic R m \<longleftrightarrow> (\<forall>w. (\<forall>y. fst (m w) \<noteq> Ok y) \<longrightarrow> R w (snd (m w)))"

lemma atomicD: "atomic R m \<Longrightarrow> m w = (r, w') \<Longrightarrow> (\<And>y. r \<noteq> Ok y) \<Longrightarrow> R w w'"
  by (metis atomic_def fst_conv snd_conv)

lemma framedD: "framed R m \<Longrightarrow> m w = (r, w') \<Longrightarrow> R w w'"
  by (metis framed_def snd_conv)

locale frame =
  fixes R :: "'w \<Rightarrow> 'w \<Rightarrow> bool"
  assumes refl [simp, intro]: "R w w"
    and trans: "R u v \<Longrightarrow> R v w \<Longrightarrow> R u w"
begin

lemma framed_ret: "framed R (ret x)"
  by (simp add: framed_def ret_def)

lemma framed_fail: "framed R (fail e)"
  by (simp add: framed_def fail_def)

lemma framed_lift: "framed R (lift r)"
  by (simp add: framed_def lift_def)

lemma framed_asks: "framed R (asks f)"
  by (simp add: framed_def asks_def)

lemma framed_inquire: "framed R (inquire f)"
  by (simp add: framed_def inquire_def)

lemma framed_guard: "framed R (guard b e)"
  by (simp add: guard_def framed_ret framed_fail)

lemma framed_modify: "(\<And>w. R w (f w)) \<Longrightarrow> framed R (modify f)"
  by (simp add: framed_def modify_def)

lemma framed_seq:
  assumes "framed R m" "\<And>x. framed R (k x)"
  shows "framed R (seq m k)"
  unfolding framed_def
proof
  fix w
  obtain r w' where m: "m w = (r, w')" by force
  have "R w w'" using framedD[OF assms(1) m] .
  moreover have "R w' (snd (k x w'))" for x using assms(2) by (simp add: framed_def)
  ultimately show "R w (snd (seq m k w))" using m trans by (cases r) (auto simp: seq_def)
qed

lemma framed_with_err: "framed R m \<Longrightarrow> framed R (with_err g m)"
  unfolding framed_def with_err_def by (metis (mono_tags, lifting) case_prod_beta snd_conv)

lemma framed_for_each: "(\<And>x. framed R (f x)) \<Longrightarrow> framed R (for_each f xs)"
  by (induction xs) (auto intro: framed_ret framed_seq)

lemma framed_for_fold: "(\<And>acc x. framed R (f acc x)) \<Longrightarrow> framed R (for_fold f xs acc)"
  by (induction xs arbitrary: acc) (auto intro: framed_ret framed_seq)

lemma framed_if: "framed R m \<Longrightarrow> framed R m' \<Longrightarrow> framed R (if b then m else m')"
  by simp

lemma framed_option:
  "framed R m \<Longrightarrow> (\<And>x. framed R (f x)) \<Longrightarrow> framed R (case opt of None \<Rightarrow> m | Some x \<Rightarrow> f x)"
  by (cases opt) auto

lemma framed_let: "(\<And>x. framed R (f x)) \<Longrightarrow> framed R (Let y f)"
  by simp

lemma framed_prod: "(\<And>x y. framed R (f x y)) \<Longrightarrow> framed R (case p of (x, y) \<Rightarrow> f x y)"
  by (cases p) auto

text \<open>An action that ends in a commit: every run that does not return leaves the worlds related.\<close>

lemma atomic_framed: "framed R m \<Longrightarrow> atomic R m"
  by (simp add: framed_def atomic_def)

lemma atomic_ret: "atomic R (ret x)"
  by (simp add: atomic_def ret_def)

lemma atomic_seq:
  assumes "framed R m" "\<And>x. atomic R (k x)"
  shows "atomic R (seq m k)"
  unfolding atomic_def
proof (intro allI impI)
  fix w
  assume no: "\<forall>y. fst (seq m k w) \<noteq> Ok y"
  obtain r w' where m: "m w = (r, w')" by force
  have ww: "R w w'" using framedD[OF assms(1) m] .
  show "R w (snd (seq m k w))"
  proof (cases r)
    case (Ok x)
    with no m have "\<forall>y. fst (k x w') \<noteq> Ok y" by (simp add: seq_def)
    with assms(2)[of x] have "R w' (snd (k x w'))" by (simp add: atomic_def)
    with ww m Ok show ?thesis using trans by (auto simp: seq_def)
  qed (use m ww in \<open>simp_all add: seq_def\<close>)
qed

lemma atomic_finish: "atomic R m \<Longrightarrow> atomic R (seq m (\<lambda>x. ret (f x)))"
  unfolding atomic_def seq_def ret_def
  by (auto split: prod.splits outcome.splits) (metis fst_conv outcome.distinct snd_conv)+

lemma atomic_with_err: "atomic R m \<Longrightarrow> atomic R (with_err g m)"
  unfolding atomic_def with_err_def by (simp add: case_prod_beta)

lemma atomic_if: "atomic R m \<Longrightarrow> atomic R m' \<Longrightarrow> atomic R (if b then m else m')"
  by simp

lemma atomic_option:
  "atomic R m \<Longrightarrow> (\<And>x. atomic R (f x)) \<Longrightarrow> atomic R (case opt of None \<Rightarrow> m | Some x \<Rightarrow> f x)"
  by (cases opt) auto

lemma atomic_let: "(\<And>x. atomic R (f x)) \<Longrightarrow> atomic R (Let y f)"
  by simp

lemma atomic_prod: "(\<And>x y. atomic R (f x y)) \<Longrightarrow> atomic R (case p of (x, y) \<Rightarrow> f x y)"
  by (cases p) auto

lemmas atomic_rules = atomic_ret atomic_seq atomic_with_err atomic_if atomic_option atomic_let atomic_prod

lemmas framed_rules =
  framed_ret framed_fail framed_lift framed_asks framed_inquire framed_guard
  framed_seq framed_with_err framed_for_each framed_for_fold framed_if framed_option
  framed_let framed_prod

end

end
