(* ===== verification/Store.thy ===== *)
theory Store
  imports MoneyTypes Actions "HOL-Library.List_Lexorder"
begin

text \<open>
  The in-memory store of the application crate (\<open>application/src/fakes/state.rs\<close>, \<open>fakes/core.rs\<close>,
  \<open>fakes/market.rs\<close> and the parts of \<open>fakes/ops.rs\<close> and \<open>fakes/ops_config.rs\<close> the money paths use): the
  committed state, the buffer of one open transaction, the reads that layer the buffer over the committed
  rows, the writes, and the commit.

  A \<open>world\<close> is what an executing use case can see and change: the committed state, the buffer of its
  transaction, the config plane, and its sources of ids (\<open>Uuid::new_v4\<close>), clock readings (\<open>Clock::now\<close>)
  and wall-clock stamps (\<open>OffsetDateTime::now_utc\<close>), each a sequence of the values still to come. It also
  carries what the code takes from its libraries: the text of a uuid and the iteration orders of the hash
  maps. Row locks are not part of a world: a world is used by one call at a time. The content saga's rows
  (\<open>Phase5State\<close>), which have transactions of their own, and the switches the tests set to provoke
  failures are left out of the committed state.
\<close>

section \<open>Stored rows\<close>

record StoredTrade =
  st_id :: trade_id
  st_new :: NewTrade
  st_trade_seq :: i64
  st_created_at :: time

definition StoredTrade_receipt :: "StoredTrade \<Rightarrow> TradeReceipt" where
  "StoredTrade_receipt self =
     \<lparr>rc_trade_id = st_id self, rc_ledger_txn = nt_ledger_txn (st_new self),
      rc_side = nt_side (st_new self), rc_action = nt_action (st_new self),
      rc_shares = nt_shares (st_new self), rc_gross = nt_gross (st_new self),
      rc_fee = nt_fee (st_new self), rc_avg_price_micro = nt_avg_price_micro (st_new self),
      replayed = False\<rparr>"

record StoredVote =
  sv_id :: vote_id
  sv_market :: market_id
  sv_user :: user_id
  sv_side :: Side
  sv_crowd_guess_pct :: u8
  sv_seq :: i64
  sv_idempotency_key :: ustring
  sv_score :: "VoteScore option"
  sv_score_created_at :: "time option"
  sv_created_at :: time
  sv_cast_ip :: "ustring option"
  sv_device_hash :: "ustring option"

record VoteReceipt =
  vr_vote_id :: vote_id
  vr_market :: market_id
  vr_user :: user_id
  vr_side :: Side
  vr_crowd_guess_pct :: u8
  vr_seq :: "i64 option"
  vr_replayed :: bool

definition StoredVote_receipt :: "StoredVote \<Rightarrow> MarketState \<Rightarrow> time \<Rightarrow> time \<Rightarrow> VoteReceipt" where
  "StoredVote_receipt self state tally_hidden now =
     (let hidden = tally_hidden \<le> now \<and> state \<notin> {Resolved, Paid, Voided} in
      \<lparr>vr_vote_id = sv_id self, vr_market = sv_market self, vr_user = sv_user self,
       vr_side = sv_side self, vr_crowd_guess_pct = sv_crowd_guess_pct self,
       vr_seq = (if hidden then None else Some (sv_seq self)), vr_replayed = False\<rparr>)"

record StoredDeposit =
  sd_id :: uuid
  sd_new :: NewDeposit

record PendingTxn =
  pt_key :: ustring
  pt_id :: uuid
  pt_txn :: Transaction
  pt_created_at :: time

record StoredAdminAction =
  sa_id :: uuid
  sa_seq :: i64
  sa_action :: AdminAction
  sa_at :: time

section \<open>Committed state\<close>

record Phase6Committed =
  audit_seq :: i64
  admin_actions :: "StoredAdminAction list"
  unwinds :: "(uuid \<times> MarketUnwind) list"
  unwind_keys :: "ustring list"
  reversals :: "(uuid \<times> uuid \<times> uuid) list"
  receivables :: "(uuid \<times> Receivable) list"
  receivable_order :: "uuid list"
  movements :: "ReceivableMovement list"
  movement_keys :: "ustring list"
  write_offs :: "(uuid \<times> WriteOffProposal) list"
  write_off_keys :: "(ustring \<times> uuid) list"
  remedials :: "(uuid \<times> RemedialCreditProposal) list"
  remedial_keys :: "(ustring \<times> uuid) list"
  job_commands :: "(uuid \<times> OpsJobCommand) list"
  job_command_keys :: "(ustring \<times> uuid) list"
  publication_commands :: "(uuid \<times> PublicationCommand) list"
  publication_command_keys :: "(ustring \<times> uuid) list"

record Phase7Committed =
  lots :: "CreditLotRow list"
  lot_keys :: "(ustring \<times> uuid) list"
  allocations :: "AllocationFact list"
  deposits :: "(uuid \<times> DepositMachineRow) list"
  deposit_sigs :: "(ustring \<times> uuid) list"
  user_statuses :: "(uuid \<times> ustring) list"
  kyc_tiers :: "(uuid \<times> i32) list"
  screens :: "(uuid \<times> ustring \<times> ScreenVerdict) list"
  exclusions :: "(uuid \<times> time) list"
  deposit_limits :: "(uuid \<times> i64) list"
  phone_verifieds :: "(uuid \<times> bool) list"
  referral_codes :: "(uuid \<times> ustring) list"
  referral_binds :: "(uuid \<times> user_id \<times> user_id \<times> ustring) list"
  outbound_payments :: "OutboundPaymentRow list"
  outbound_attempts :: "OutboundAttemptRow list"
  decisions :: "ComplianceDecision list"
  aml_legs :: "AmlLeg list"
  aml_flags :: "AmlFlag list"
  proposals :: "MoneyProposal list"
  flags :: "(ustring \<times> bool) list"
  ints :: "(ustring \<times> i64) list"
  strings :: "(ustring \<times> ustring) list"

record State =
  s_balances :: Balances
  s_accounts :: "((OwnerRef \<times> Currency) \<times> account_id) list"
  s_txn_keys :: "(ustring \<times> uuid) list"
  s_ledger_txns :: "(uuid \<times> PendingTxn) list"
  s_markets :: "(uuid \<times> MarketRow) list"
  s_pools :: "(uuid \<times> Pool) list"
  s_pool_seeded :: "(uuid \<times> micro_usd) list"
  s_lp_results :: "(uuid \<times> micro_usd \<times> time) list"
  s_collateral_at_close :: "(uuid \<times> micro_usd) list"
  s_positions :: "((uuid \<times> uuid) \<times> PositionRow) list"
  s_trades :: "(uuid \<times> StoredTrade) list"
  s_trades_by_txn :: "(uuid \<times> uuid) list"
  s_votes :: "(uuid \<times> uuid) list"
  s_vote_rows :: "(uuid \<times> StoredVote) list"
  s_vote_seq :: "(uuid \<times> i64) list"
  s_tallies :: "(uuid \<times> Tally) list"
  s_deposits :: "(uuid \<times> StoredDeposit) list"
  s_deposits_by_sig :: "(ustring \<times> uuid) list"
  s_users :: "(uuid \<times> ustring) list"
  s_user_created_at :: "(uuid \<times> time) list"
  s_reputation :: "(uuid \<times> i64 \<times> u8) list"
  s_channels :: "((ustring \<times> ustring) \<times> uuid) list"
  s_outcome_resolutions :: "(uuid \<times> u16 \<times> i64) list"
  s_lifecycle_commands :: "(ustring \<times> LifecycleCommand) list"
  s_integrity_reports :: "(uuid \<times> IntegrityReportRow) list"
  s_realizations :: "RealizationFact list"
  s_comments :: "(uuid \<times> CommentRow) list"
  s_comment_votes :: "(uuid \<times> uuid) list"
  s_comment_reports :: "((uuid \<times> uuid) \<times> time) list"
  s_notifier_cursor :: i64
  s_notifications :: "NotificationRow list"
  s_outbox :: "Event list"
  phase6 :: Phase6Committed
  phase7 :: Phase7Committed

section \<open>The buffer of a transaction\<close>

record Phase6Pending =
  p_audits :: "AdminAction list"
  p_unwind_inserts :: "MarketUnwind list"
  p_unwind_saves :: "MarketUnwind list"
  p_reversals :: "(uuid \<times> uuid \<times> uuid) list"
  p_receivable_inserts :: "Receivable list"
  p_movement_inserts :: "ReceivableMovement list"
  p_write_off_inserts :: "WriteOffProposal list"
  p_write_off_saves :: "WriteOffProposal list"
  p_remedial_inserts :: "RemedialCreditProposal list"
  p_remedial_saves :: "RemedialCreditProposal list"
  p_job_inserts :: "OpsJobCommand list"
  p_job_saves :: "OpsJobCommand list"
  p_publication_inserts :: "PublicationCommand list"
  p_publication_saves :: "PublicationCommand list"

record Phase7Pending =
  p_lots :: "CreditLotRow list"
  p_lot_keys :: "(ustring \<times> uuid) list"
  p_allocations :: "AllocationFact list"
  p_deposits :: "DepositMachineRow list"
  p_converted :: "(uuid \<times> time) list"
  p_status_cas :: "(uuid \<times> DepositMachineStatus) list"
  p_admits :: "(uuid \<times> uuid) list"
  p_refunds :: "(uuid \<times> uuid) list"
  p_outbound_payments :: "OutboundPaymentRow list"
  p_outbound_attempts :: "OutboundAttemptRow list"
  p_binds :: "(uuid \<times> user_id \<times> user_id \<times> ustring) list"
  p_referral_codes :: "(user_id \<times> ustring) list"
  p_decisions :: "ComplianceDecision list"
  p_aml_legs :: "AmlLeg list"
  p_aml_flags :: "AmlFlag list"
  p_proposals :: "MoneyProposal list"

record Pending =
  p_txns :: "PendingTxn list"
  p_reserves :: "(uuid \<times> Pool) list"
  p_pool_seeded :: "(uuid \<times> micro_usd) list"
  p_lp_results :: "(uuid \<times> micro_usd \<times> time) list"
  p_collateral_at_close :: "(uuid \<times> micro_usd) list"
  p_positions :: "PositionRow list"
  p_trades :: "StoredTrade list"
  p_markets :: "MarketRow list"
  p_market_states :: "(uuid \<times> MarketState) list"
  p_votes :: "StoredVote list"
  p_vote_seq :: "(uuid \<times> i64) list"
  p_vote_scores :: "(uuid \<times> VoteScore \<times> time) list"
  p_deposit_rows :: "StoredDeposit list"
  p_users :: "(user_id \<times> ustring) list"
  p_user_created_at :: "(user_id \<times> time) list"
  p_reputation :: "ReputationRow list"
  p_channels :: "((ustring \<times> ustring) \<times> user_id) list"
  p_outcome_resolutions :: "(uuid \<times> u16 \<times> micro_usd) list"
  p_lifecycle_commands :: "(ustring \<times> LifecycleCommand) list"
  p_curator_flags :: "(uuid \<times> time option) list"
  p_integrity_due_updates :: "(uuid \<times> time option) list"
  p_integrity_reports :: "IntegrityReportRow list"
  p_realizations :: "RealizationFact list"
  p_comments :: "NewComment list"
  p_comment_reply_bumps :: "uuid list"
  p_comment_votes :: "(uuid \<times> uuid \<times> i16) list"
  p_comment_score_updates :: "(uuid \<times> i32) list"
  p_comment_reports :: "(uuid \<times> uuid \<times> time) list"
  p_comment_status_updates :: "(uuid \<times> ModerationStatus) list"
  p_comment_report_resets :: "uuid list"
  p_notifications :: "NotificationRow list"
  p_notifier_cursor :: "i64 option"
  p_events :: "Event list"
  p_phase6 :: Phase6Pending
  p_phase7 :: Phase7Pending

definition Phase6Pending_default :: Phase6Pending where
  "Phase6Pending_default =
     \<lparr>p_audits = [], p_unwind_inserts = [], p_unwind_saves = [], p_reversals = [],
      p_receivable_inserts = [], p_movement_inserts = [], p_write_off_inserts = [], p_write_off_saves = [],
      p_remedial_inserts = [], p_remedial_saves = [], p_job_inserts = [], p_job_saves = [],
      p_publication_inserts = [], p_publication_saves = []\<rparr>"

definition Phase7Pending_default :: Phase7Pending where
  "Phase7Pending_default =
     \<lparr>p_lots = [], p_lot_keys = [], p_allocations = [], p_deposits = [], p_converted = [],
      p_status_cas = [], p_admits = [], p_refunds = [], p_outbound_payments = [],
      p_outbound_attempts = [], p_binds = [], p_referral_codes = [], p_decisions = [],
      p_aml_legs = [], p_aml_flags = [], p_proposals = []\<rparr>"

definition Pending_default :: Pending where
  "Pending_default =
     \<lparr>p_txns = [], p_reserves = [], p_pool_seeded = [], p_lp_results = [],
      p_collateral_at_close = [], p_positions = [], p_trades = [], p_markets = [],
      p_market_states = [], p_votes = [], p_vote_seq = [], p_vote_scores = [], p_deposit_rows = [],
      p_users = [],
      p_user_created_at = [], p_reputation = [], p_channels = [], p_outcome_resolutions = [],
      p_lifecycle_commands = [], p_curator_flags = [], p_integrity_due_updates = [],
      p_integrity_reports = [], p_realizations = [], p_comments = [], p_comment_reply_bumps = [],
      p_comment_votes = [], p_comment_score_updates = [], p_comment_reports = [],
      p_comment_status_updates = [], p_comment_report_resets = [], p_notifications = [],
      p_notifier_cursor = None, p_events = [],
      p_phase6 = Phase6Pending_default, p_phase7 = Phase7Pending_default\<rparr>"

section \<open>The world of a use case\<close>

record OpsFakeState =
  entries :: "(ustring \<times> Value) list"
  generation :: i64
  changes :: "(i64 \<times> ConfigChange) list"
  watermark :: i64
  config_proposals :: "(uuid \<times> ConfigProposal) list"
  config_audits :: "AdminAction list"
  fingerprints :: "(ustring \<times> ustring) list"

record world =
  committed :: State
  pending :: Pending
  ops :: OpsFakeState
  uuids :: "nat \<Rightarrow> uuid"
  clock :: "nat \<Rightarrow> time"
  utc :: "nat \<Rightarrow> time"
  uuid_string :: "uuid \<Rightarrow> ustring"
  order_d :: "(account_id \<times> i128) list \<Rightarrow> (account_id \<times> i128) list"
  order_c :: "(Currency \<times> i128) list \<Rightarrow> (Currency \<times> i128) list"
  order_p :: "((uuid \<times> uuid) \<times> PositionRow) list \<Rightarrow> ((uuid \<times> uuid) \<times> PositionRow) list"

type_synonym 'a tx = "(world, StoreError, 'a) action"
type_synonym 'a app = "(world, AppError, 'a) action"

definition store :: "'a tx \<Rightarrow> 'a app" where
  "store m = with_err AppStore m"

definition new_v4 :: "(world, 'e, uuid) action" where
  "new_v4 w = (Ok (uuids w 0), w\<lparr>uuids := \<lambda>n. uuids w (Suc n)\<rparr>)"

definition clock_now :: "(world, 'e, time) action" where
  "clock_now w = (Ok (clock w 0), w\<lparr>clock := \<lambda>n. clock w (Suc n)\<rparr>)"

definition now_utc :: "(world, 'e, time) action" where
  "now_utc w = (Ok (utc w 0), w\<lparr>utc := \<lambda>n. utc w (Suc n)\<rparr>)"

definition buffer :: "(Pending \<Rightarrow> Pending) \<Rightarrow> (world, 'e, unit) action" where
  "buffer f = modify (\<lambda>w. w\<lparr>pending := f (pending w)\<rparr>)"

text \<open>\<open>InMemoryStore::tx\<close>: a fresh transaction has an empty buffer.\<close>

definition open_tx :: "(world, 'e, unit) action" where
  "open_tx = buffer (\<lambda>_. Pending_default)"

section \<open>Accounts and the ledger\<close>

fun owner_type :: "OwnerRef \<Rightarrow> OwnerType" where
  "owner_type (UserOwner _) = User"
| "owner_type (MarketEscrow _) = Escrow"
| "owner_type (MarketPool _) = OwnerType.Pool"
| "owner_type FeesOwner = Fees"
| "owner_type HouseOwner = House"
| "owner_type ExternalOwner = External"
| "owner_type WithheldOwner = Withheld"
| "owner_type DepositSuspenseOwner = DepositSuspense"
| "owner_type BonusReserveOwner = BonusReserve"

text \<open>Get-or-create against the committed state: an account opened by a call stays open if the call aborts.\<close>

definition put_account :: "OwnerRef \<Rightarrow> Currency \<Rightarrow> account_id \<Rightarrow> Balances \<Rightarrow> State \<Rightarrow> State" where
  "put_account owner currency a b s =
     s\<lparr>s_balances := b, s_accounts := AList.update (owner, currency) a (s_accounts s)\<rparr>"

definition account :: "OwnerRef \<Rightarrow> Currency \<Rightarrow> account_id tx" where
  "account owner currency =
     seq (asks (\<lambda>w. map_of (s_accounts (committed w)) (owner, currency))) (\<lambda>found.
       case found of
         Some acct \<Rightarrow> ret acct
       | None \<Rightarrow>
           seq new_v4 (\<lambda>acct.
           seq (inquire (\<lambda>w. map_err StoreLedger
                  (open_account (s_balances (committed w)) acct (owner_type owner) currency))) (\<lambda>b.
           seq (modify (\<lambda>w. w\<lparr>committed := put_account owner currency acct b (committed w)\<rparr>)) (\<lambda>_.
           ret acct))))"

definition txn_by_key :: "ustring \<Rightarrow> uuid option tx" where
  "txn_by_key key =
     asks (\<lambda>w. case find (\<lambda>t. pt_key t = key) (p_txns (pending w)) of
         Some t \<Rightarrow> Some (pt_id t)
       | None \<Rightarrow> map_of (s_txn_keys (committed w)) key)"

definition ledger_step :: "world \<Rightarrow> Balances \<Rightarrow> Transaction \<Rightarrow> (StoreError, Balances) outcome" where
  "ledger_step w b txn = map_err StoreLedger (apply_txn (order_d w) (order_c w) b txn)"

definition validate_against_current :: "Transaction \<Rightarrow> unit tx" where
  "validate_against_current txn =
     inquire (\<lambda>w.
       and_then (try_fold (\<lambda>b t. ledger_step w b (pt_txn t)) (p_txns (pending w)) (s_balances (committed w)))
         (\<lambda>probe. and_then (ledger_step w probe txn) (\<lambda>_. Ok ())))"

definition ledger_apply :: "TxnKind \<Rightarrow> ustring \<Rightarrow> Entry list \<Rightarrow> uuid tx" where
  "ledger_apply kind key es =
     seq (asks (\<lambda>w. list_ex (\<lambda>t. pt_key t = key) (p_txns (pending w)) \<or>
            map_of (s_txn_keys (committed w)) key \<noteq> None)) (\<lambda>taken.
     if taken then fail DuplicateKey
     else
       seq (lift (map_err StoreLedger (Transaction_new kind es))) (\<lambda>txn.
       seq (validate_against_current txn) (\<lambda>_.
       seq new_v4 (\<lambda>id.
       seq now_utc (\<lambda>at.
       seq (buffer (\<lambda>p. p\<lparr>p_txns := p_txns p @
              [\<lparr>pt_key = key, pt_id = id, pt_txn = txn, pt_created_at = at\<rparr>]\<rparr>)) (\<lambda>_.
       ret id))))))"

text \<open>\<open>sum\<close> over \<open>i64\<close> is unchecked; the result is added to the committed balance with saturation.\<close>

definition saturate_i64 :: "int \<Rightarrow> i64" where
  "saturate_i64 v = max i64_MIN (min i64_MAX v)"

definition sum_i64 :: "int list \<Rightarrow> ('e, i64) outcome" where
  "sum_i64 xs = try_fold (\<lambda>acc x. arith fits_i64 (acc + x)) xs 0"

definition account_balance :: "account_id \<Rightarrow> micro_usd tx" where
  "account_balance acct =
     inquire (\<lambda>w.
       and_then (ok_or (balance (s_balances (committed w)) acct) (NotFound ''account'')) (\<lambda>b.
       and_then (sum_i64 (map entry_amount
           (filter (\<lambda>e. entry_account e = acct) (concat (map (\<lambda>t. txn_entries (pt_txn t)) (p_txns (pending w)))))))
         (\<lambda>buffered. Ok (saturate_i64 (b + buffered)))))"

section \<open>Markets, pools and positions\<close>

definition market_view :: "world \<Rightarrow> market_id \<Rightarrow> MarketRow option" where
  "market_view w m =
     (case (case find (\<lambda>r. mk_id r = m) (p_markets (pending w)) of
              Some r \<Rightarrow> Some r | None \<Rightarrow> map_of (s_markets (committed w)) m) of
        None \<Rightarrow> None
      | Some row \<Rightarrow>
          (case find (\<lambda>p. fst p = m) (rev (p_market_states (pending w))) of
             Some (_, s) \<Rightarrow> Some (row\<lparr>mk_state := s\<rparr>)
           | None \<Rightarrow> Some row))"

definition market_for_update :: "market_id \<Rightarrow> MarketRow tx" where
  "market_for_update m = inquire (\<lambda>w. ok_or (market_view w m) (NotFound ''market''))"

definition buffer_market_state :: "market_id \<Rightarrow> MarketState \<Rightarrow> unit tx" where
  "buffer_market_state m s =
     seq (asks (\<lambda>w. map_of (s_markets (committed w)) m \<noteq> None \<or>
            list_ex (\<lambda>row. mk_id row = m) (p_markets (pending w)))) (\<lambda>known_market.
     if \<not> known_market then fail (NotFound ''market'')
     else buffer (\<lambda>p. p\<lparr>p_market_states := p_market_states p @ [(m, s)]\<rparr>))"

definition user_voted :: "user_id \<Rightarrow> market_id \<Rightarrow> bool tx" where
  "user_voted u m = asks (\<lambda>w. (u, m) \<in> set (s_votes (committed w)))"

definition tally :: "market_id \<Rightarrow> Tally tx" where
  "tally m = asks (\<lambda>w. case map_of (s_tallies (committed w)) m of
       Some t \<Rightarrow> t | None \<Rightarrow> \<lparr>yes_votes = 0, no_votes = 0\<rparr>)"

definition pool_for_update :: "market_id \<Rightarrow> Pool tx" where
  "pool_for_update m =
     inquire (\<lambda>w. case find (\<lambda>p. fst p = m) (rev (p_reserves (pending w))) of
         Some (_, pool) \<Rightarrow> Ok pool
       | None \<Rightarrow> ok_or (map_of (s_pools (committed w)) m) (NotFound ''pool''))"

definition save_reserves :: "market_id \<Rightarrow> Pool \<Rightarrow> unit tx" where
  "save_reserves m pool = buffer (\<lambda>p. p\<lparr>p_reserves := p_reserves p @ [(m, pool)]\<rparr>)"

definition position_for_update :: "user_id \<Rightarrow> outcome_id \<Rightarrow> PositionRow option tx" where
  "position_for_update u o' =
     asks (\<lambda>w. case find (\<lambda>p. pos_user p = u \<and> pos_outcome p = o') (rev (p_positions (pending w))) of
         Some p \<Rightarrow> Some p
       | None \<Rightarrow> map_of (s_positions (committed w)) (u, o'))"

definition save_position :: "PositionRow \<Rightarrow> unit tx" where
  "save_position row = buffer (\<lambda>p. p\<lparr>p_positions := p_positions p @ [row]\<rparr>)"

definition user_rep :: "user_id \<Rightarrow> ReputationRow tx" where
  "user_rep u =
     inquire (\<lambda>w. and_then (ok_or (map_of (s_reputation (committed w)) u) (NotFound ''reputation''))
       (\<lambda>(micro, tier). Ok \<lparr>rep_user = u, rep_micro = micro, rep_tier = tier\<rparr>))"

definition last_buy_at :: "user_id \<Rightarrow> outcome_id \<Rightarrow> time option tx" where
  "last_buy_at u o' =
     asks (\<lambda>w.
       let stamps = map st_created_at (filter (\<lambda>t. nt_user (st_new t) = u \<and> nt_outcome (st_new t) = o' \<and>
             nt_action (st_new t) = Buy) (map snd (s_trades (committed w)))) in
       if stamps = [] then None else Some (Max (set stamps)))"

definition market_position_cost :: "user_id \<Rightarrow> market_id \<Rightarrow> micro_usd tx" where
  "market_position_cost u m =
     inquire (\<lambda>w.
       and_then (ok_or (map_of (s_markets (committed w)) m) (NotFound ''market'')) (\<lambda>market.
       let rows = map snd (order_p w (fold (\<lambda>row. AList.update (pos_user row, pos_outcome row) row)
             (p_positions (pending w)) (s_positions (committed w)))) in
       try_fold (\<lambda>sum row. ok_or (checked fits_i64 (sum + pos_cost row)) (Invariant ''position cost overflow''))
         (filter (\<lambda>row. pos_user row = u \<and>
            (pos_outcome row = yes_outcome market \<or> pos_outcome row = no_outcome market)) rows) 0))"

definition handle :: "user_id \<Rightarrow> ustring tx" where
  "handle user =
     inquire (\<lambda>w. case find (\<lambda>p. fst p = user) (p_users (pending w)) of
         Some (_, h) \<Rightarrow> Ok h
       | None \<Rightarrow> ok_or (map_of (s_users (committed w)) user) (NotFound ''user''))"

definition max_seq :: "market_id \<Rightarrow> StoredTrade list \<Rightarrow> i64 option" where
  "max_seq market rows =
     (let seqs = map st_trade_seq (filter (\<lambda>row. nt_market (st_new row) = market) rows) in
      if seqs = [] then None else Some (Max (set seqs)))"

definition insert_trade :: "NewTrade \<Rightarrow> InsertedTrade tx" where
  "insert_trade t =
     seq new_v4 (\<lambda>id.
     seq (inquire (\<lambda>w.
       let committed_seq = (case max_seq (nt_market t) (map snd (s_trades (committed w))) of
             Some s \<Rightarrow> s | None \<Rightarrow> 0);
           last_seq = (case max_seq (nt_market t) (p_trades (pending w)) of
             Some s \<Rightarrow> s | None \<Rightarrow> committed_seq) in
       ok_or (checked fits_i64 (last_seq + 1)) (Invariant ''trade sequence overflow''))) (\<lambda>trade_seq.
     seq now_utc (\<lambda>at.
     seq (buffer (\<lambda>p. p\<lparr>p_trades := p_trades p @
            [\<lparr>st_id = id, st_new = t, st_trade_seq = trade_seq, st_created_at = at\<rparr>]\<rparr>)) (\<lambda>_.
     ret \<lparr>it_id = id, it_trade_seq = trade_seq, it_created_at = at\<rparr>))))"

definition trade_by_ledger_txn :: "uuid \<Rightarrow> TradeReceipt option tx" where
  "trade_by_ledger_txn txn =
     asks (\<lambda>w. case find (\<lambda>t. nt_ledger_txn (st_new t) = txn) (p_trades (pending w)) of
         Some t \<Rightarrow> Some (StoredTrade_receipt t)
       | None \<Rightarrow> map_option StoredTrade_receipt
           (Option.bind (map_of (s_trades_by_txn (committed w)) txn) (map_of (s_trades (committed w)))))"

definition same_realization :: "RealizationFact \<Rightarrow> RealizationFact \<Rightarrow> bool" where
  "same_realization rz row \<longleftrightarrow>
     rz_ledger_txn row = rz_ledger_txn rz \<and> rz_user row = rz_user rz \<and> rz_outcome row = rz_outcome rz"

definition insert_realization :: "RealizationFact \<Rightarrow> bool tx" where
  "insert_realization rz =
     seq (asks (\<lambda>w. list_ex (same_realization rz) (p_realizations (pending w)) \<or>
            list_ex (same_realization rz) (s_realizations (committed w)))) (\<lambda>duplicate.
     if duplicate then ret False
     else seq (buffer (\<lambda>p. p\<lparr>p_realizations := p_realizations p @ [rz]\<rparr>)) (\<lambda>_. ret True))"

definition append_event :: "Event \<Rightarrow> unit tx" where
  "append_event e = buffer (\<lambda>p. p\<lparr>p_events := p_events p @ [e]\<rparr>)"

section \<open>The fence point\<close>

definition fence_config_value :: "ustring \<Rightarrow> Value option tx" where
  "fence_config_value key = asks (\<lambda>w. map_of (entries (ops w)) key)"

text \<open>\<open>generation + 1\<close> is unchecked.\<close>

definition fence_changes_since :: "i64 \<Rightarrow> (i64 \<times> ConfigChange list option) tx" where
  "fence_changes_since gen =
     inquire (\<lambda>w. and_then (arith fits_i64 (gen + 1)) (\<lambda>next_gen.
       if next_gen < watermark (ops w) then Ok (generation (ops w), None)
       else Ok (generation (ops w), Some (map snd (filter (\<lambda>p. gen < fst p) (changes (ops w)))))))"

definition request_fingerprint :: "ustring \<Rightarrow> ustring option tx" where
  "request_fingerprint key = asks (\<lambda>w. map_of (fingerprints (ops w)) key)"

definition save_request_fingerprint :: "ustring \<Rightarrow> ustring \<Rightarrow> unit tx" where
  "save_request_fingerprint key fingerprint =
     modify (\<lambda>w. w\<lparr>ops := (ops w)\<lparr>fingerprints := AList.update key fingerprint (fingerprints (ops w))\<rparr>\<rparr>)"

section \<open>Commit\<close>

text \<open>
  \<open>Committable::commit\<close> stages the buffer on a copy of the committed state, one loop per kind of row, and
  installs the copy only when every loop has passed. The five groups of loops follow the source.
\<close>

definition commit_txn :: "world \<Rightarrow> State \<Rightarrow> PendingTxn \<Rightarrow> (StoreError, State) outcome" where
  "commit_txn w s t =
     (if map_of (s_txn_keys s) (pt_key t) \<noteq> None then Err DuplicateKey
      else and_then (ledger_step w (s_balances s) (pt_txn t)) (\<lambda>b.
        Ok (s\<lparr>s_txn_keys := AList.update (pt_key t) (pt_id t) (s_txn_keys s), s_balances := b,
             s_ledger_txns := AList.update (pt_id t) t (s_ledger_txns s)\<rparr>)))"

definition commit_market :: "State \<Rightarrow> MarketRow \<Rightarrow> (StoreError, State) outcome" where
  "commit_market s row =
     (if map_of (s_markets s) (mk_id row) \<noteq> None then Err (Conflict ''market id'')
      else Ok (s\<lparr>s_markets := AList.update (mk_id row) row (s_markets s)\<rparr>))"

definition update_market ::
  "string \<Rightarrow> (MarketRow \<Rightarrow> MarketRow) \<Rightarrow> uuid \<Rightarrow> State \<Rightarrow> (StoreError, State) outcome" where
  "update_market message f m s =
     (case map_of (s_markets s) m of
        None \<Rightarrow> Err (Invariant message)
      | Some row \<Rightarrow> Ok (s\<lparr>s_markets := AList.update m (f row) (s_markets s)\<rparr>))"

definition commit_books :: "Pending \<Rightarrow> State \<Rightarrow> (StoreError, State) outcome" where
  "commit_books p s =
     and_then (try_fold commit_market (p_markets p) s) (\<lambda>s.
     let s = s\<lparr>s_pools := fold (\<lambda>(m, pool). AList.update m pool) (p_reserves p) (s_pools s),
               s_pool_seeded := fold (\<lambda>(m, seeded). AList.update m seeded) (p_pool_seeded p) (s_pool_seeded s),
               s_lp_results := fold (\<lambda>(m, r). AList.update m r) (p_lp_results p) (s_lp_results s)\<rparr> in
     and_then (try_fold (\<lambda>s (m, collateral).
         if map_of (s_markets s) m = None then Err (Invariant ''collateral write for unknown market'')
         else Ok (s\<lparr>s_collateral_at_close := AList.update m collateral (s_collateral_at_close s)\<rparr>))
       (p_collateral_at_close p) s) (\<lambda>s.
     and_then (try_fold (\<lambda>s (m, st). update_market ''state write for unknown market'' (\<lambda>r. r\<lparr>mk_state := st\<rparr>) m s)
       (p_market_states p) s) (\<lambda>s.
     and_then (try_fold (\<lambda>s (m, at). update_market ''curator flag for unknown market''
         (\<lambda>r. r\<lparr>curator_flagged_at := at\<rparr>) m s) (p_curator_flags p) s) (\<lambda>s.
     try_fold (\<lambda>s (m, at). update_market ''integrity due write for unknown market''
         (\<lambda>r. r\<lparr>integrity_due_at := at\<rparr>) m s) (p_integrity_due_updates p) s))))"

definition commit_trade :: "StoredTrade \<Rightarrow> State \<Rightarrow> State" where
  "commit_trade t s =
     s\<lparr>s_trades_by_txn := AList.update (nt_ledger_txn (st_new t)) (st_id t) (s_trades_by_txn s),
       s_trades := AList.update (st_id t) t (s_trades s)\<rparr>"

definition commit_vote :: "State \<Rightarrow> StoredVote \<Rightarrow> (StoreError, State) outcome" where
  "commit_vote s v =
     (if (sv_user v, sv_market v) \<in> set (s_votes s) then Err (Conflict ''vote'')
      else
        let t = (case map_of (s_tallies s) (sv_market v) of Some t \<Rightarrow> t | None \<Rightarrow> \<lparr>yes_votes = 0, no_votes = 0\<rparr>) in
        and_then
          (case sv_side v of
             Yes \<Rightarrow> and_then (arith fits_i64 (yes_votes t + 1)) (\<lambda>n. Ok (t\<lparr>yes_votes := n\<rparr>))
           | No \<Rightarrow> and_then (arith fits_i64 (no_votes t + 1)) (\<lambda>n. Ok (t\<lparr>no_votes := n\<rparr>)))
          (\<lambda>t. Ok (s\<lparr>s_votes := s_votes s @ [(sv_user v, sv_market v)],
                     s_tallies := AList.update (sv_market v) t (s_tallies s),
                     s_vote_rows := AList.update (sv_id v) v (s_vote_rows s)\<rparr>)))"

definition commit_score :: "State \<Rightarrow> uuid \<times> VoteScore \<times> time \<Rightarrow> (StoreError, State) outcome" where
  "commit_score s p =
     (case p of (vote_id, score, scored_at) \<Rightarrow>
       (case map_of (s_vote_rows s) vote_id of
          None \<Rightarrow> Err (Invariant ''score for unknown vote'')
        | Some row \<Rightarrow> Ok (s\<lparr>s_vote_rows := AList.update vote_id
             (row\<lparr>sv_score := Some score, sv_score_created_at := Some scored_at\<rparr>) (s_vote_rows s)\<rparr>)))"

definition commit_activity :: "Pending \<Rightarrow> State \<Rightarrow> (StoreError, State) outcome" where
  "commit_activity p s =
     (let s = s\<lparr>s_positions := fold (\<lambda>r. AList.update (pos_user r, pos_outcome r) r) (p_positions p) (s_positions s)\<rparr>;
          s = fold commit_trade (p_trades p) s in
      and_then (try_fold commit_vote (p_votes p) s) (\<lambda>s.
      let s = s\<lparr>s_vote_seq := fold (\<lambda>(m, n). AList.update m n) (p_vote_seq p) (s_vote_seq s)\<rparr> in
      try_fold commit_score (p_vote_scores p) s))"

definition commit_deposit_row :: "State \<Rightarrow> StoredDeposit \<Rightarrow> (StoreError, State) outcome" where
  "commit_deposit_row s d =
     (if map_of (s_deposits_by_sig s) (nd_chain_sig (sd_new d)) \<noteq> None then Err (Conflict ''deposit chain signature'')
      else Ok (s\<lparr>s_deposits_by_sig := AList.update (nd_chain_sig (sd_new d)) (sd_id d) (s_deposits_by_sig s),
                 s_deposits := AList.update (sd_id d) d (s_deposits s)\<rparr>))"

definition commit_people :: "Pending \<Rightarrow> State \<Rightarrow> (StoreError, State) outcome" where
  "commit_people p s =
     and_then (try_fold commit_deposit_row (p_deposit_rows p) s) (\<lambda>s.
      let s = s\<lparr>s_users := fold (\<lambda>(u, h). AList.update u h) (p_users p) (s_users s),
                s_user_created_at := fold (\<lambda>(u, t). AList.update u t) (p_user_created_at p) (s_user_created_at s),
                s_reputation := fold (\<lambda>r. AList.update (rep_user r) (rep_micro r, rep_tier r))
                  (p_reputation p) (s_reputation s)\<rparr> in
      and_then (try_fold (\<lambda>s (key, user).
          if map_of (s_channels s) key \<noteq> None then Err (Conflict ''channel link'')
          else Ok (s\<lparr>s_channels := AList.update key user (s_channels s)\<rparr>)) (p_channels p) s) (\<lambda>s.
      let s = s\<lparr>s_outcome_resolutions := fold (\<lambda>(o', r). AList.update o' r)
                  (p_outcome_resolutions p) (s_outcome_resolutions s)\<rparr> in
      and_then (try_fold (\<lambda>s (key, command).
          if map_of (s_lifecycle_commands s) key \<noteq> None then Err DuplicateKey
          else Ok (s\<lparr>s_lifecycle_commands := AList.update key command (s_lifecycle_commands s)\<rparr>))
        (p_lifecycle_commands p) s) (\<lambda>s.
      Ok (s\<lparr>s_integrity_reports := fold (\<lambda>r m. if map_of m (ir_market r) = None
                then AList.update (ir_market r) r m else m) (p_integrity_reports p) (s_integrity_reports s),
            s_realizations := fold (\<lambda>rz rows. if list_ex (same_realization rz) rows then rows else rows @ [rz])
              (p_realizations p) (s_realizations s)\<rparr>))))"

definition commit_comment :: "State \<Rightarrow> NewComment \<Rightarrow> (StoreError, State) outcome" where
  "commit_comment s c =
     (if map_of (s_comments s) (nc_id c) \<noteq> None then Err (Conflict ''comment'')
      else Ok (s\<lparr>s_comments := AList.update (nc_id c)
        \<lparr>cm_id = nc_id c, cm_market = nc_market c, cm_author = nc_author c, cm_parent = nc_parent c,
         cm_body = nc_body c, cm_body_hash = Some (nc_body_hash c), cm_score = 0,
         cm_moderation_status = nc_moderation_status c, cm_depth = nc_depth c, cm_reply_count = 0,
         cm_created_at = nc_created_at c\<rparr> (s_comments s)\<rparr>))"

definition update_comment ::
  "(CommentRow \<Rightarrow> (StoreError, CommentRow) outcome) \<Rightarrow> uuid \<Rightarrow> State \<Rightarrow> (StoreError, State) outcome" where
  "update_comment f c s =
     (case map_of (s_comments s) c of
        None \<Rightarrow> Err (NotFound ''comment'')
      | Some row \<Rightarrow> and_then (f row) (\<lambda>row. Ok (s\<lparr>s_comments := AList.update c row (s_comments s)\<rparr>)))"

definition commit_notification :: "NotificationRow \<Rightarrow> NotificationRow list \<Rightarrow> NotificationRow list" where
  "commit_notification n rows =
     (if nf_source_seq n \<noteq> None \<and> list_ex (\<lambda>row. nf_user row = nf_user n \<and> nf_source_seq row = nf_source_seq n) rows
      then rows else rows @ [n])"

definition commit_social :: "Pending \<Rightarrow> State \<Rightarrow> (StoreError, State) outcome" where
  "commit_social p s =
     and_then (try_fold commit_comment (p_comments p) s) (\<lambda>s.
     and_then (try_fold (\<lambda>s parent. update_comment (\<lambda>row.
         and_then (ok_or (checked fits_u32 (cm_reply_count row + 1)) (Invariant ''comment reply count overflow''))
           (\<lambda>n. Ok (row\<lparr>cm_reply_count := n\<rparr>))) parent s) (p_comment_reply_bumps p) s) (\<lambda>s.
     let s = s\<lparr>s_comment_votes := fold (\<lambda>(c, user, _). List.insert (c, user)) (p_comment_votes p) (s_comment_votes s)\<rparr> in
     and_then (try_fold (\<lambda>s (c, score). update_comment (\<lambda>row. Ok (row\<lparr>cm_score := score\<rparr>)) c s)
       (p_comment_score_updates p) s) (\<lambda>s.
     let s = s\<lparr>s_comment_reports := fold (\<lambda>c. filter (\<lambda>((i, _), _). i \<noteq> c)) (p_comment_report_resets p)
                 (s_comment_reports s)\<rparr>;
         s = s\<lparr>s_comment_reports := fold (\<lambda>(c, reporter, at). AList.update (c, reporter) at) (p_comment_reports p)
                 (s_comment_reports s)\<rparr> in
     and_then (try_fold (\<lambda>s (c, status). update_comment (\<lambda>row. Ok (row\<lparr>cm_moderation_status := status\<rparr>)) c s)
       (p_comment_status_updates p) s) (\<lambda>s.
     Ok (s\<lparr>s_notifications := fold commit_notification (p_notifications p) (s_notifications s),
           s_notifier_cursor := (case p_notifier_cursor p of Some c \<Rightarrow> c | None \<Rightarrow> s_notifier_cursor s)\<rparr>)))))"

text \<open>\<open>apply_phase6\<close>: audit rows take an id and the same stamp; then unwinds, reversals, receivables.\<close>

definition stage_audit :: "time \<Rightarrow> Phase6Committed \<Rightarrow> AdminAction \<Rightarrow> Phase6Committed tx" where
  "stage_audit now s a =
     seq new_v4 (\<lambda>new_id.
       let n = saturate_i64 (audit_seq s + 1) in
       ret (s\<lparr>audit_seq := n, admin_actions := admin_actions s @
              [\<lparr>sa_id = new_id, sa_seq = n, sa_action = a, sa_at = now\<rparr>]\<rparr>))"

definition insert_unwind_row :: "Phase6Committed \<Rightarrow> MarketUnwind \<Rightarrow> (StoreError, Phase6Committed) outcome" where
  "insert_unwind_row s u =
     (if map_of (unwinds s) (mu_market u) \<noteq> None then Err (Conflict ''market unwind'')
      else if unwind_key u \<in> set (unwind_keys s) then Err (Conflict ''unwind key'')
      else Ok (s\<lparr>unwind_keys := unwind_keys s @ [unwind_key u],
                 unwinds := AList.update (mu_market u) u (unwinds s)\<rparr>))"

definition insert_receivable_row :: "Phase6Committed \<Rightarrow> Receivable \<Rightarrow> (StoreError, Phase6Committed) outcome" where
  "insert_receivable_row s r =
     (if list_ex (\<lambda>(_, x). rv_user x = rv_user r \<and> rv_market x = rv_market r) (receivables s) \<or>
         map_of (receivables s) (rv_id r) \<noteq> None then Err (Conflict ''receivable'')
      else Ok (s\<lparr>receivable_order := receivable_order s @ [rv_id r],
                 receivables := AList.update (rv_id r) r (receivables s)\<rparr>))"

definition insert_movement_row :: "Phase6Committed \<Rightarrow> ReceivableMovement \<Rightarrow> (StoreError, Phase6Committed) outcome" where
  "insert_movement_row s m =
     (if mv_amount_micro m \<le> 0 then Err (Invariant ''non-positive receivable movement'')
      else if map_of (receivables s) (mv_receivable m) = None
        then Err (Invariant ''movement for unknown receivable'')
      else if mv_idempotency_key m \<in> set (movement_keys s) then Err (Conflict ''receivable movement key'')
      else Ok (s\<lparr>movement_keys := movement_keys s @ [mv_idempotency_key m], movements := movements s @ [m]\<rparr>))"

text \<open>
  The other four tables keep rows by id and a unique idempotency key; publication commands also allow only
  one open command per draft.
\<close>

definition insert_write_off :: "Phase6Committed \<Rightarrow> WriteOffProposal \<Rightarrow> (StoreError, Phase6Committed) outcome" where
  "insert_write_off s x =
     (if map_of (write_offs s) (wo_id x) \<noteq> None \<or> map_of (write_off_keys s) (wo_idempotency_key x) \<noteq> None
        then Err (Conflict ''write-off proposal'')
      else Ok (s\<lparr>write_off_keys := AList.update (wo_idempotency_key x) (wo_id x) (write_off_keys s),
                 write_offs := AList.update (wo_id x) x (write_offs s)\<rparr>))"

definition insert_remedial :: "Phase6Committed \<Rightarrow> RemedialCreditProposal \<Rightarrow> (StoreError, Phase6Committed) outcome" where
  "insert_remedial s x =
     (if map_of (remedials s) (rp_id x) \<noteq> None \<or> map_of (remedial_keys s) (rp_idempotency_key x) \<noteq> None
        then Err (Conflict ''remedial proposal'')
      else Ok (s\<lparr>remedial_keys := AList.update (rp_idempotency_key x) (rp_id x) (remedial_keys s),
                 remedials := AList.update (rp_id x) x (remedials s)\<rparr>))"

definition insert_job :: "Phase6Committed \<Rightarrow> OpsJobCommand \<Rightarrow> (StoreError, Phase6Committed) outcome" where
  "insert_job s x =
     (if map_of (job_commands s) (jc_id x) \<noteq> None \<or> map_of (job_command_keys s) (jc_idempotency_key x) \<noteq> None
        then Err (Conflict ''ops job command'')
      else Ok (s\<lparr>job_command_keys := AList.update (jc_idempotency_key x) (jc_id x) (job_command_keys s),
                 job_commands := AList.update (jc_id x) x (job_commands s)\<rparr>))"

definition open_command_for_draft :: "Phase6Committed \<Rightarrow> uuid \<Rightarrow> bool" where
  "open_command_for_draft s draft =
     list_ex (\<lambda>(_, c). pb_draft c = draft \<and> pb_status c \<in> {PublicationPending, PublicationExecuting})
       (publication_commands s)"

definition insert_publication :: "Phase6Committed \<Rightarrow> PublicationCommand \<Rightarrow> (StoreError, Phase6Committed) outcome" where
  "insert_publication s x =
     (if map_of (publication_commands s) (pb_id x) \<noteq> None \<or>
         map_of (publication_command_keys s) (pb_idempotency_key x) \<noteq> None
        then Err (Conflict ''publication command key'')
      else if open_command_for_draft s (pb_draft x) then Err (Conflict ''publication command'')
      else Ok (s\<lparr>publication_command_keys := AList.update (pb_idempotency_key x) (pb_id x) (publication_command_keys s),
                 publication_commands := AList.update (pb_id x) x (publication_commands s)\<rparr>))"

text \<open>Replacing an existing row of a keyed table.\<close>

definition save_row :: "string \<Rightarrow> uuid \<Rightarrow> 'a \<Rightarrow> (uuid \<times> 'a) list \<Rightarrow> (StoreError, (uuid \<times> 'a) list) outcome" where
  "save_row message i row rows =
     (case map_of rows i of None \<Rightarrow> Err (Invariant message) | Some _ \<Rightarrow> Ok (AList.update i row rows))"

definition apply_commands :: "Phase6Pending \<Rightarrow> Phase6Committed \<Rightarrow> (StoreError, Phase6Committed) outcome" where
  "apply_commands p s =
     and_then (try_fold insert_write_off (p_write_off_inserts p) s) (\<lambda>s.
     and_then (try_fold (\<lambda>s x. and_then (save_row ''save for unknown write-off'' (wo_id x) x (write_offs s))
         (\<lambda>rows. Ok (s\<lparr>write_offs := rows\<rparr>))) (p_write_off_saves p) s) (\<lambda>s.
     and_then (try_fold insert_remedial (p_remedial_inserts p) s) (\<lambda>s.
     and_then (try_fold (\<lambda>s x. and_then (save_row ''save for unknown remedial'' (rp_id x) x (remedials s))
         (\<lambda>rows. Ok (s\<lparr>remedials := rows\<rparr>))) (p_remedial_saves p) s) (\<lambda>s.
     and_then (try_fold insert_job (p_job_inserts p) s) (\<lambda>s.
     and_then (try_fold (\<lambda>s x. and_then (save_row ''save for unknown job command'' (jc_id x) x (job_commands s))
         (\<lambda>rows. Ok (s\<lparr>job_commands := rows\<rparr>))) (p_job_saves p) s) (\<lambda>s.
     and_then (try_fold insert_publication (p_publication_inserts p) s) (\<lambda>s.
     try_fold (\<lambda>s x. and_then (save_row ''save for unknown publication command'' (pb_id x) x (publication_commands s))
         (\<lambda>rows. Ok (s\<lparr>publication_commands := rows\<rparr>))) (p_publication_saves p) s)))))))"

definition apply_phase6 :: "Phase6Pending \<Rightarrow> Phase6Committed \<Rightarrow> Phase6Committed tx" where
  "apply_phase6 p s =
     seq now_utc (\<lambda>now.
     seq (for_fold (stage_audit now) (p_audits p) s) (\<lambda>s.
     lift (and_then (try_fold insert_unwind_row (p_unwind_inserts p) s) (\<lambda>s.
       and_then (try_fold (\<lambda>s u. and_then (save_row ''save for unknown unwind'' (mu_market u) u (unwinds s))
             (\<lambda>rows. Ok (s\<lparr>unwinds := rows\<rparr>))) (p_unwind_saves p) s) (\<lambda>s.
       and_then (try_fold (\<lambda>s (reversed, r). if map_of (reversals s) reversed \<noteq> None
             then Err (Conflict ''reversal lineage'')
             else Ok (s\<lparr>reversals := AList.update reversed r (reversals s)\<rparr>)) (p_reversals p) s) (\<lambda>s.
       and_then (try_fold insert_receivable_row (p_receivable_inserts p) s) (\<lambda>s.
       and_then (try_fold insert_movement_row (p_movement_inserts p) s) (apply_commands p))))))))"

text \<open>\<open>apply_phase7\<close>.\<close>

definition commit_lot :: "Phase7Committed \<Rightarrow> CreditLotRow \<Rightarrow> (StoreError, Phase7Committed) outcome" where
  "commit_lot s lot =
     (if list_ex (\<lambda>row. lot_id row = lot_id lot) (lots s) then Err (Conflict ''credit lot'')
      else Ok (s\<lparr>lots := lots s @ [lot]\<rparr>))"

definition commit_allocation :: "Phase7Committed \<Rightarrow> AllocationFact \<Rightarrow> (StoreError, Phase7Committed) outcome" where
  "commit_allocation s f =
     (if list_ex (\<lambda>row. al_idempotency_key row = al_idempotency_key f) (allocations s)
        then Err (Conflict ''credit allocation'')
      else if al_kind f = Allocated \<and> list_ex (\<lambda>row. al_kind row = Allocated \<and> al_trade_id row = al_trade_id f \<and>
          al_lot_id row = al_lot_id f \<and> al_split_seq row = al_split_seq f) (allocations s)
        then Err (Conflict ''credit allocation split'')
      else if source_allocation_id f \<noteq> None \<and>
          list_ex (\<lambda>row. source_allocation_id row = source_allocation_id f) (allocations s)
        then Err (Conflict ''credit allocation terminal'')
      else Ok (s\<lparr>allocations := allocations s @ [f]\<rparr>))"

definition commit_deposit :: "Phase7Committed \<Rightarrow> DepositMachineRow \<Rightarrow> (StoreError, Phase7Committed) outcome" where
  "commit_deposit s row =
     (if map_of (deposit_sigs s) (dm_chain_sig row) \<noteq> None then Err (Conflict ''deposit chain signature'')
      else Ok (s\<lparr>deposit_sigs := AList.update (dm_chain_sig row) (dm_id row) (deposit_sigs s),
                 deposits := AList.update (dm_id row) row (deposits s)\<rparr>))"

text \<open>\<open>iter_mut().find(..)\<close> changes the first row that matches.\<close>

fun update_first :: "('a \<Rightarrow> bool) \<Rightarrow> ('a \<Rightarrow> 'a) \<Rightarrow> 'a list \<Rightarrow> 'a list" where
  "update_first P f [] = []"
| "update_first P f (x # xs) = (if P x then f x # xs else x # update_first P f xs)"

definition update_deposit :: "(DepositMachineRow \<Rightarrow> DepositMachineRow) \<Rightarrow> uuid \<Rightarrow> Phase7Committed \<Rightarrow> Phase7Committed" where
  "update_deposit f i s =
     (case map_of (deposits s) i of None \<Rightarrow> s
      | Some row \<Rightarrow> s\<lparr>deposits := AList.update i (f row) (deposits s)\<rparr>)"

definition commit_attempt :: "OutboundAttemptRow \<Rightarrow> OutboundAttemptRow list \<Rightarrow> OutboundAttemptRow list" where
  "commit_attempt a rows =
     (if list_ex (\<lambda>row. at_id row = at_id a) rows then update_first (\<lambda>row. at_id row = at_id a) (\<lambda>_. a) rows
      else rows @ [a])"

definition apply_phase7 :: "Phase7Pending \<Rightarrow> Phase7Committed \<Rightarrow> (StoreError, Phase7Committed) outcome" where
  "apply_phase7 p s =
     and_then (try_fold commit_lot (p_lots p) s) (\<lambda>s.
     let s = s\<lparr>lot_keys := fold (\<lambda>(k, i). AList.update k i) (p_lot_keys p) (lot_keys s)\<rparr> in
     and_then (try_fold commit_allocation (p_allocations p) s) (\<lambda>s.
     and_then (try_fold commit_deposit (p_deposits p) s) (\<lambda>s.
     let s = s\<lparr>lots := fold (\<lambda>(i, at). update_first (\<lambda>l. lot_id l = i) (\<lambda>l. l\<lparr>converted_at := Some at\<rparr>))
                 (p_converted p) (lots s)\<rparr>;
         s = fold (\<lambda>(i, st). update_deposit (\<lambda>r. r\<lparr>dm_status := st\<rparr>) i) (p_status_cas p) s;
         s = fold (\<lambda>(i, t). update_deposit (\<lambda>r. r\<lparr>admit_tx_id := Some t\<rparr>) i) (p_admits p) s;
         s = fold (\<lambda>(i, t). update_deposit (\<lambda>r. r\<lparr>refund_tx_id := Some t\<rparr>) i) (p_refunds p) s in
     and_then (try_fold (\<lambda>s (user, code).
         if map_of (referral_codes s) user \<noteq> None \<or> list_ex (\<lambda>(_, c). c = code) (referral_codes s)
           then Err (Conflict ''referral code'')
         else Ok (s\<lparr>referral_codes := AList.update user code (referral_codes s)\<rparr>)) (p_referral_codes p) s) (\<lambda>s.
     let s = s\<lparr>outbound_payments := outbound_payments s @ p_outbound_payments p,
               outbound_attempts := fold commit_attempt (p_outbound_attempts p) (outbound_attempts s)\<rparr> in
     and_then (try_fold (\<lambda>s b.
         if list_ex (\<lambda>(_, _, referee, key). referee = fst (snd (snd b)) \<or> key = snd (snd (snd b))) (referral_binds s)
           then Err (Conflict ''referral bind'')
         else Ok (s\<lparr>referral_binds := referral_binds s @ [b]\<rparr>)) (p_binds p) s) (\<lambda>s.
     let s = s\<lparr>decisions := decisions s @ p_decisions p\<rparr> in
     and_then (try_fold (\<lambda>s leg.
         if list_ex (\<lambda>x. leg_id x = leg_id leg) (aml_legs s) then Err (Conflict ''deposit aml candidate'')
         else Ok (s\<lparr>aml_legs := aml_legs s @ [leg]\<rparr>)) (p_aml_legs p) s) (\<lambda>s.
     Ok (s\<lparr>aml_flags := aml_flags s @ p_aml_flags p, proposals := proposals s @ p_proposals p\<rparr>)))))))"

definition stage :: "world \<Rightarrow> (StoreError, State) outcome" where
  "stage w =
     and_then (try_fold (commit_txn w) (p_txns (pending w)) (committed w)) (\<lambda>s.
     and_then (commit_books (pending w) s) (\<lambda>s.
     and_then (commit_activity (pending w) s) (\<lambda>s.
     and_then (commit_people (pending w) s) (\<lambda>s.
     commit_social (pending w) s))))"

text \<open>For evaluation: the stages one after the other.\<close>

lemma stage_code [code]:
  "stage w =
     (case try_fold (commit_txn w) (p_txns (pending w)) (committed w) of
        Err e \<Rightarrow> Err e | Panic \<Rightarrow> Panic
      | Ok s \<Rightarrow> (case commit_books (pending w) s of
          Err e \<Rightarrow> Err e | Panic \<Rightarrow> Panic
        | Ok s \<Rightarrow> (case commit_activity (pending w) s of
            Err e \<Rightarrow> Err e | Panic \<Rightarrow> Panic
          | Ok s \<Rightarrow> (case commit_people (pending w) s of
              Err e \<Rightarrow> Err e | Panic \<Rightarrow> Panic
            | Ok s \<Rightarrow> commit_social (pending w) s))))"
  by (simp add: stage_def split: outcome.splits)

definition commit :: "unit tx" where
  "commit =
     seq (inquire stage) (\<lambda>s.
     seq (asks (\<lambda>w. p_phase6 (pending w))) (\<lambda>p6.
     seq (apply_phase6 p6 (phase6 s)) (\<lambda>s6.
     seq (inquire (\<lambda>w. apply_phase7 (p_phase7 (pending w)) (phase7 s))) (\<lambda>s7.
     modify (\<lambda>w. w\<lparr>committed := s\<lparr>phase6 := s6, phase7 := s7, s_outbox := s_outbox s @ p_events (pending w)\<rparr>\<rparr>)))))"

section \<open>What a transaction leaves alone before it commits\<close>

text \<open>
  Until \<open>commit\<close>, the only committed rows a transaction can change are the account table and the balance
  map, where it may open accounts with a zero balance; that keeps the ledger invariant and every account of
  the table open (\<open>books_ok\<close>). \<open>quiet\<close> also fixes what no operation changes: the config entries, and the
  library functions a world carries.
\<close>

definition opened :: "Balances \<Rightarrow> Balances \<Rightarrow> bool" where
  "opened b b' \<longleftrightarrow> (\<exists>new. accounts b' = accounts b @ new \<and> list_all (\<lambda>(_, _, _, v). v = 0) new)"

definition books_ok :: "State \<Rightarrow> bool" where
  "books_ok s \<longleftrightarrow>
     ledger_inv (s_balances s) \<and>
     (\<forall>k a. map_of (s_accounts s) k = Some a \<longrightarrow> balance (s_balances s) a \<noteq> None)"

definition quiet :: "world \<Rightarrow> world \<Rightarrow> bool" where
  "quiet w w' \<longleftrightarrow>
     (\<exists>b accts. committed w' = (committed w)\<lparr>s_balances := b, s_accounts := accts\<rparr> \<and>
        opened (s_balances (committed w)) b \<and>
        (\<forall>k a. map_of (s_accounts (committed w)) k = Some a \<longrightarrow> map_of accts k = Some a)) \<and>
     (\<exists>fps. ops w' = (ops w)\<lparr>fingerprints := fps\<rparr>) \<and>
     (books_ok (committed w) \<longrightarrow> books_ok (committed w')) \<and>
     uuid_string w' = uuid_string w \<and> order_d w' = order_d w \<and> order_c w' = order_c w \<and> order_p w' = order_p w"

lemma opened_refl: "opened b b"
  by (simp add: opened_def)

lemma opened_trans: "opened a b \<Longrightarrow> opened b c \<Longrightarrow> opened a c"
  by (auto simp: opened_def)

lemma opened_open_account:
  assumes "open_account b a ow c = Ok b'"
  shows "opened b b'"
proof (cases "map_of (accounts b) a")
  case (Some x)
  with assms show ?thesis by (simp add: open_account_def opened_refl)
next
  case None
  with assms have "b' = b\<lparr>accounts := accounts b @ [(a, ow, c, 0)]\<rparr>"
    by (auto simp: open_account_def update_fresh split: if_splits)
  then show ?thesis by (simp add: opened_def)
qed

lemma opened_balance: "opened b b' \<Longrightarrow> balance b a = Some v \<Longrightarrow> balance b' a = Some v"
  by (auto simp: opened_def balance_def map_add_def split: option.splits)

lemma open_account_known: "open_account b a ow c = Ok b' \<Longrightarrow> balance b' a \<noteq> None"
  by (auto simp: open_account_def balance_def update_conv' split: if_splits option.splits)

lemma books_ok_put_account:
  assumes "books_ok s" "open_account (s_balances s) a (owner_type owner) currency = Ok b"
  shows "books_ok (put_account owner currency a b s)"
proof -
  have "ledger_inv b" using assms ledger_inv_open by (auto simp: books_ok_def)
  moreover have "balance b x \<noteq> None" if "balance (s_balances s) x \<noteq> None" for x
    using that opened_balance[OF opened_open_account[OF assms(2)]] by auto
  ultimately show ?thesis
    using assms open_account_known[OF assms(2)] by (auto simp: books_ok_def put_account_def update_conv')
qed

interpretation quiet: frame quiet
proof
  fix w :: world
  show "quiet w w"
    unfolding quiet_def
    by (intro conjI exI[of _ "s_balances (committed w)"] exI[of _ "s_accounts (committed w)"]
        exI[of _ "fingerprints (ops w)"]) (simp_all add: opened_refl)
next
  fix u v w :: world
  assume uv: "quiet u v" and vw: "quiet v w"
  from uv obtain b accts fps where 1: "committed v = (committed u)\<lparr>s_balances := b, s_accounts := accts\<rparr>"
    "opened (s_balances (committed u)) b"
    "\<And>k a. map_of (s_accounts (committed u)) k = Some a \<Longrightarrow> map_of accts k = Some a"
    "ops v = (ops u)\<lparr>fingerprints := fps\<rparr>"
    unfolding quiet_def by blast
  from vw obtain b' accts' fps' where 2: "committed w = (committed v)\<lparr>s_balances := b', s_accounts := accts'\<rparr>"
    "opened (s_balances (committed v)) b'"
    "\<And>k a. map_of (s_accounts (committed v)) k = Some a \<Longrightarrow> map_of accts' k = Some a"
    "ops w = (ops v)\<lparr>fingerprints := fps'\<rparr>"
    unfolding quiet_def by blast
  have "committed w = (committed u)\<lparr>s_balances := b', s_accounts := accts'\<rparr>" using 1 2 by simp
  moreover have "opened (s_balances (committed u)) b'" using 1 2 by (simp add: opened_trans[OF 1(2)])
  moreover have "ops w = (ops u)\<lparr>fingerprints := fps'\<rparr>" using 1 2 by simp
  moreover have "map_of accts' k = Some a" if "map_of (s_accounts (committed u)) k = Some a" for k a
    using that 1 2(3) by simp
  ultimately show "quiet u w" using uv vw unfolding quiet_def by (auto intro: exI)
qed

lemma quiet_same:
  "committed w' = committed w \<Longrightarrow> ops w' = ops w \<Longrightarrow> uuid_string w' = uuid_string w \<Longrightarrow>
     order_d w' = order_d w \<Longrightarrow> order_c w' = order_c w \<Longrightarrow> order_p w' = order_p w \<Longrightarrow> quiet w w'"
  using quiet.refl[of w] unfolding quiet_def by simp

named_theorems quiet_intros \<open>operations that are quiet\<close>

lemma quiet_new_v4 [quiet_intros]: "framed quiet new_v4"
  by (simp add: framed_def new_v4_def quiet_same)

lemma quiet_clock_now [quiet_intros]: "framed quiet clock_now"
  by (simp add: framed_def clock_now_def quiet_same)

lemma quiet_now_utc [quiet_intros]: "framed quiet now_utc"
  by (simp add: framed_def now_utc_def quiet_same)

lemma quiet_buffer [quiet_intros]: "framed quiet (buffer f)"
  unfolding buffer_def by (rule quiet.framed_modify) (simp add: quiet_same)

lemma quiet_open_tx [quiet_intros]: "framed quiet open_tx"
  unfolding open_tx_def by (rule quiet_buffer)

lemma quiet_store [quiet_intros]: "framed quiet m \<Longrightarrow> framed quiet (store m)"
  unfolding store_def by (rule quiet.framed_with_err)

lemma quiet_account [quiet_intros]: "framed quiet (account owner currency)"
proof -
  have "quiet w (snd (account owner currency w))" for w
  proof (cases "map_of (s_accounts (committed w)) (owner, currency)")
    case (Some a)
    then show ?thesis by (simp add: account_def seq_def asks_def ret_def)
  next
    case None
    let ?a = "uuids w 0"
    show ?thesis
    proof (cases "open_account (s_balances (committed w)) ?a (owner_type owner) currency")
      case (Ok b)
      have "quiet w (w\<lparr>uuids := u, committed := put_account owner currency ?a b (committed w)\<rparr>)" for u
        unfolding quiet_def using opened_open_account[OF Ok] None books_ok_put_account[OF _ Ok]
        by (intro conjI exI[of _ b] exI[of _ "AList.update (owner, currency) ?a (s_accounts (committed w))"]
            exI[of _ "fingerprints (ops w)"]) (auto simp: update_conv' put_account_def)
      with None Ok show ?thesis
        by (simp add: account_def seq_def asks_def ret_def new_v4_def inquire_def modify_def)
    qed (use None in \<open>simp_all add: account_def seq_def asks_def ret_def new_v4_def inquire_def quiet_same\<close>)
  qed
  then show ?thesis by (simp add: framed_def)
qed

lemma quiet_save_request_fingerprint [quiet_intros]: "framed quiet (save_request_fingerprint k f)"
  unfolding save_request_fingerprint_def
proof (rule quiet.framed_modify)
  fix w
  show "quiet w (w\<lparr>ops := (ops w)\<lparr>fingerprints := AList.update k f (fingerprints (ops w))\<rparr>\<rparr>)"
    using quiet.refl[of w] unfolding quiet_def by (auto intro: exI)
qed

lemma quiet_reads [quiet_intros]:
  "framed quiet (txn_by_key k)" "framed quiet (validate_against_current t)"
  "framed quiet (account_balance a)" "framed quiet (market_for_update m)"
  "framed quiet (user_voted u m)" "framed quiet (tally m)" "framed quiet (pool_for_update m)"
  "framed quiet (position_for_update u o')" "framed quiet (user_rep u)" "framed quiet (last_buy_at u o')"
  "framed quiet (market_position_cost u m)" "framed quiet (handle u)"
  "framed quiet (trade_by_ledger_txn i)" "framed quiet (fence_config_value k)"
  "framed quiet (fence_changes_since g)" "framed quiet (request_fingerprint k)"
  unfolding txn_by_key_def validate_against_current_def account_balance_def market_for_update_def
    user_voted_def tally_def pool_for_update_def position_for_update_def user_rep_def last_buy_at_def
    market_position_cost_def handle_def trade_by_ledger_txn_def fence_config_value_def
    fence_changes_since_def request_fingerprint_def
  by (rule quiet.framed_asks quiet.framed_inquire)+

lemma quiet_writes [quiet_intros]:
  "framed quiet (ledger_apply kind k es)" "framed quiet (buffer_market_state m s)"
  "framed quiet (save_reserves m p)" "framed quiet (save_position r)" "framed quiet (insert_trade t)"
  "framed quiet (insert_realization f)" "framed quiet (append_event e)"
  unfolding ledger_apply_def buffer_market_state_def save_reserves_def save_position_def insert_trade_def
    insert_realization_def append_event_def
  by (intro quiet_intros quiet.framed_rules)+

section \<open>A fresh store\<close>

definition seed_entries :: "(ustring \<times> Value) list" where
  "seed_entries = map (\<lambda>(k, v). (lit k, v))
    [(''trade_fee_bps'', Num 100), (''min_fee_bps'', Num 10), (''discount_flip_window_secs'', Num 3600),
     (''fee_discount_bp_by_tier'', Array (map Num [0, 0, 10, 20, 30])),
     (''position_cap_micro_by_tier'', Array (map Num [25000000, 50000000, 100000000, 250000000, 500000000])),
     (''rep_tier_thresholds_micro'', Array (map Num [0, 200000, 400000, 600000, 800000])),
     (''rep_score_min_pot_micro'', Num 50000000), (''seed_micro_daily'', Num 500000000),
     (''seed_micro_flash'', Num 100000000), (''daily_seed_budget_micro'', Num 1000000000),
     (''hidden_window_secs'', Num 300), (''min_votes_to_resolve_floor'', Num 3), (''oi_floor_micro'', Num 0),
     (''payout_hold_threshold_micro'', Num 500000000), (''sweep_delay_secs'', Num 180),
     (''max_votes_per_window'', Num 30), (''vote_window_secs'', Num 3600),
     (''integrity_burst_multiplier_ppm'', Num 2000000), (''integrity_young_share_max_ppm'', Num 500000),
     (''integrity_device_share_max_ppm'', Num 600000), (''integrity_subnet_share_max_ppm'', Num 600000),
     (''integrity_min_metadata_coverage_ppm'', Num 500000), (''flash_cadence_secs'', Num 3600),
     (''daily_slots'', Num 2), (''feature_flash_markets'', Bool True), (''feature_comments'', Bool True),
     (''feature_referrals'', Bool False), (''trading_paused'', Bool False),
     (''faucet_per_call_cap_micro'', Num 1000000000), (''remedial_credit_market_cap_micro'', Num 500000000),
     (''remedial_credit_daily_cap_micro'', Num 2000000000), (''receivable_outstanding_cap_micro'', Num 10000000000),
     (''writeoff_per_item_cap_micro'', Num 500000000), (''writeoff_daily_cap_micro'', Num 2000000000),
     (''proposal_ttl_secs'', Num 900), (''dual_control_delay_secs'', Num 60)]"

text \<open>\<open>entries\<close> is a \<open>BTreeMap\<close>: its rows are ordered by key.\<close>

definition OpsFakeState_default :: OpsFakeState where
  "OpsFakeState_default =
     (let es = sort_key fst seed_entries in
      \<lparr>entries = es, generation = 1,
       changes = map (\<lambda>(k, v). (1, \<lparr>cc_key = k, cc_old = None, cc_new = v\<rparr>)) es,
       watermark = 1, config_proposals = [], config_audits = [], fingerprints = []\<rparr>)"

definition PUBLISHED_TIER0_CAP_MICRO :: i64 where
  "PUBLISHED_TIER0_CAP_MICRO = 25000000"

definition Phase6_default :: Phase6Committed where
  "Phase6_default =
     \<lparr>audit_seq = 0, admin_actions = [], unwinds = [], unwind_keys = [], reversals = [], receivables = [],
      receivable_order = [], movements = [], movement_keys = [], write_offs = [], write_off_keys = [],
      remedials = [], remedial_keys = [], job_commands = [], job_command_keys = [],
      publication_commands = [], publication_command_keys = []\<rparr>"

definition Phase7_default :: Phase7Committed where
  "Phase7_default =
     \<lparr>lots = [], lot_keys = [], allocations = [], deposits = [], deposit_sigs = [], user_statuses = [],
      kyc_tiers = [], screens = [], exclusions = [], deposit_limits = [], phone_verifieds = [],
      referral_codes = [], referral_binds = [], outbound_payments = [], outbound_attempts = [],
      decisions = [], aml_legs = [], aml_flags = [], proposals = [],
      flags = [(lit ''pause_deposits'', False)],
      ints = [(lit ''deposit_kyc_tier'', 1), (lit ''bonus_mint_daily_cap_micro'', 500000000),
        (lit ''referral_min_notional_micro'', 10000000), (lit ''credit_referral_referrer_micro'', 5000000),
        (lit ''credit_referral_referee_micro'', 5000000),
        (lit ''shadow_trade_cap_micro'', PUBLISHED_TIER0_CAP_MICRO),
        (lit ''shadow_deposit_cap_micro'', PUBLISHED_TIER0_CAP_MICRO)],
      strings = [(lit ''bonus_structure'', lit ''real_money'')]\<rparr>"

definition State_default :: State where
  "State_default =
     \<lparr>s_balances = Balances_default, s_accounts = [], s_txn_keys = [], s_ledger_txns = [], s_markets = [],
      s_pools = [], s_pool_seeded = [], s_lp_results = [], s_collateral_at_close = [], s_positions = [],
      s_trades = [], s_trades_by_txn = [], s_votes = [], s_vote_rows = [], s_vote_seq = [], s_tallies = [],
      s_deposits = [], s_deposits_by_sig = [], s_users = [], s_user_created_at = [], s_reputation = [], s_channels = [], s_outcome_resolutions = [],
      s_lifecycle_commands = [], s_integrity_reports = [], s_realizations = [], s_comments = [],
      s_comment_votes = [], s_comment_reports = [], s_notifier_cursor = 0, s_notifications = [],
      s_outbox = [],
      phase6 = Phase6_default, phase7 = Phase7_default\<rparr>"

text \<open>
  A concrete world for the examples: a store with a given configuration, whose uuids count up from a start,
  with a clock that stands still and the text of a uuid being as many letters \<open>x\<close> as its number.
\<close>

definition demo_ops :: "(ustring \<times> Value) list \<Rightarrow> OpsFakeState" where
  "demo_ops es = \<lparr>entries = es, generation = 1, changes = [], watermark = 1,
     config_proposals = [], config_audits = [], fingerprints = []\<rparr>"

definition demo_world :: "State \<Rightarrow> OpsFakeState \<Rightarrow> nat \<Rightarrow> time \<Rightarrow> world" where
  "demo_world s conf first now =
     \<lparr>committed = s, pending = Pending_default, ops = conf,
      uuids = (\<lambda>n. of_nat (first + n)), clock = (\<lambda>_. now), utc = (\<lambda>_. now),
      uuid_string = (\<lambda>u. replicate (unat u) 120),
      order_d = (\<lambda>xs. xs), order_c = (\<lambda>xs. xs), order_p = (\<lambda>xs. xs)\<rparr>"

end
