(* ===== verification/Credits.thy ===== *)
theory Credits
  imports Store "HOL-Library.Product_Lexorder"
begin

text \<open>
  Model of the bonus-credit algebra, \<open>application/src/money/credits.rs\<close>, and of the credit rows of the
  store, \<open>fakes/credit.rs\<close> and \<open>fakes/market.rs\<close>: splitting a trade fee over the user's lots, the
  append-only log of allocations and of the terminal facts that move them, and the progress read off the
  log. The lemmas relate the loops to sums over the log, and show for every history of grants, trades,
  conversions and market ends that no lot is charged more than its amount.
\<close>

section \<open>The allocation algebra\<close>

record LotCapacity =
  cap_lot_id :: uuid
  remaining_micro :: i64

datatype AllocError =
  DuplicateAllocated | DuplicateTerminal | SourceMissing | AmountMismatch | ExceedsSource | ZeroAmount

text \<open>The loop of \<open>split_oldest_first\<close>; \<open>left - take\<close> cannot leave the range, \<open>take\<close> being between them.\<close>

fun split_loop :: "LotCapacity list \<Rightarrow> i64 \<Rightarrow> (uuid \<times> i32 \<times> i64) list" where
  "split_loop [] left = []"
| "split_loop (lot # lots') left =
     (if left = 0 then []
      else if remaining_micro lot \<le> 0 then split_loop lots' left
      else
        let take' = min left (remaining_micro lot) in
        (cap_lot_id lot, 0, take') # split_loop lots' (left - take'))"

definition split_oldest_first :: "LotCapacity list \<Rightarrow> i64 \<Rightarrow> (uuid \<times> i32 \<times> i64) list" where
  "split_oldest_first caps fee_micro = (if fee_micro \<le> 0 then [] else split_loop caps fee_micro)"

text \<open>The two loops of \<open>lot_progress\<close>; the sums are unchecked.\<close>

definition progress_step ::
  "uuid \<Rightarrow> i64 \<times> i64 \<times> uuid list \<times> uuid list \<Rightarrow> AllocationFact \<Rightarrow>
     ('e, i64 \<times> i64 \<times> uuid list \<times> uuid list) outcome" where
  "progress_step lot acc f =
     (case acc of (provisional, finalized, reversed_sources, finalized_sources) \<Rightarrow>
       if al_lot_id f \<noteq> lot then Ok acc
       else (case al_kind f of
           Allocated \<Rightarrow>
             and_then (arith fits_i64 (provisional + al_amount_micro f)) (\<lambda>p.
               Ok (p, finalized, reversed_sources, finalized_sources))
         | Finalized \<Rightarrow>
             and_then (arith fits_i64 (finalized + al_amount_micro f)) (\<lambda>x.
               Ok (provisional, x, reversed_sources,
                 (case source_allocation_id f of None \<Rightarrow> finalized_sources | Some src \<Rightarrow> src # finalized_sources)))
         | Reversed \<Rightarrow>
             Ok (provisional, finalized,
               (case source_allocation_id f of None \<Rightarrow> reversed_sources | Some src \<Rightarrow> src # reversed_sources),
               finalized_sources)))"

definition release_step ::
  "uuid \<Rightarrow> uuid list \<Rightarrow> uuid list \<Rightarrow> i64 \<Rightarrow> AllocationFact \<Rightarrow> ('e, i64) outcome" where
  "release_step lot reversed_sources finalized_sources provisional f =
     (if al_lot_id f \<noteq> lot \<or> al_kind f \<noteq> Allocated then Ok provisional
      else if al_id f \<in> set finalized_sources \<or> al_id f \<in> set reversed_sources
        then arith fits_i64 (provisional - al_amount_micro f)
      else Ok provisional)"

definition lot_progress :: "AllocationFact list \<Rightarrow> uuid \<Rightarrow> ('e, i64 \<times> i64) outcome" where
  "lot_progress facts lot =
     and_then (try_fold (progress_step lot) facts (0, 0, [], []))
       (\<lambda>(provisional, finalized, reversed_sources, finalized_sources).
     and_then (try_fold (release_step lot reversed_sources finalized_sources) facts provisional) (\<lambda>provisional.
     Ok (max 0 provisional, finalized)))"

definition lot_remaining :: "CreditLotRow \<Rightarrow> AllocationFact list \<Rightarrow> ('e, i64) outcome" where
  "lot_remaining lot facts =
     (if converted_at lot \<noteq> None then Ok 0
      else
        and_then (lot_progress facts (lot_id lot)) (\<lambda>(prov, fin).
        and_then (arith fits_i64 (lot_amount_micro lot - prov)) (\<lambda>d.
        and_then (arith fits_i64 (d - fin)) (\<lambda>r. Ok (max 0 r)))))"

definition trade_net_allocated :: "AllocationFact list \<Rightarrow> uuid \<Rightarrow> ('e, i64) outcome" where
  "trade_net_allocated facts trade =
     try_fold (\<lambda>sum f. case al_kind f of
         Allocated \<Rightarrow> arith fits_i64 (sum + al_amount_micro f)
       | Reversed \<Rightarrow> arith fits_i64 (sum - al_amount_micro f)
       | Finalized \<Rightarrow> Ok sum)
       (filter (\<lambda>f. al_trade_id f = trade) facts) 0"

definition check_allocate ::
  "AllocationFact list \<Rightarrow> uuid \<Rightarrow> uuid \<Rightarrow> i32 \<Rightarrow> i64 \<Rightarrow> (AllocError, unit) outcome" where
  "check_allocate existing trade lot split_seq amount_micro =
     (if amount_micro \<le> 0 then Err ZeroAmount
      else if list_ex (\<lambda>f. al_trade_id f = trade \<and> al_lot_id f = lot \<and> al_split_seq f = split_seq \<and>
          al_kind f = Allocated) existing then Err DuplicateAllocated
      else Ok ())"

definition check_terminal :: "AllocationFact list \<Rightarrow> uuid \<Rightarrow> i64 \<Rightarrow> (AllocError, unit) outcome" where
  "check_terminal existing source_id amount_micro =
     (if amount_micro \<le> 0 then Err ZeroAmount
      else
        and_then (ok_or (find (\<lambda>f. al_id f = source_id \<and> al_kind f = Allocated) existing) SourceMissing) (\<lambda>source.
        if al_amount_micro source < amount_micro then Err ExceedsSource
        else if amount_micro \<noteq> al_amount_micro source then Err AmountMismatch
        else if list_ex (\<lambda>f. source_allocation_id f = Some source_id \<and> al_kind f \<in> {Finalized, Reversed}) existing
          then Err DuplicateTerminal
        else Ok ()))"

definition remaining_real_money_promise :: "CreditLotRow list \<Rightarrow> AllocationFact list \<Rightarrow> ('e, i64) outcome" where
  "remaining_real_money_promise lots' facts =
     try_fold (\<lambda>acc lot. and_then (lot_progress facts (lot_id lot)) (\<lambda>_. arith fits_i64 (acc + lot_amount_micro lot)))
       (filter (\<lambda>lot. grant_class lot = RealMoney \<and> converted_at lot = None) lots') 0"

definition lot_ready_to_convert :: "CreditLotRow \<Rightarrow> AllocationFact list \<Rightarrow> ('e, bool) outcome" where
  "lot_ready_to_convert lot facts =
     (if converted_at lot \<noteq> None \<or> grant_class lot \<noteq> RealMoney then Ok False
      else and_then (lot_progress facts (lot_id lot)) (\<lambda>(_, finalized). Ok (lot_amount_micro lot \<le> finalized)))"

definition granted_of :: "CreditLotRow list \<Rightarrow> uuid \<Rightarrow> time" where
  "granted_of lots' i = (case find (\<lambda>lot. lot_id lot = i) lots' of None \<Rightarrow> UNIX_EPOCH | Some lot \<Rightarrow> granted_at lot)"

definition plan_capacities :: "CreditLotRow list \<Rightarrow> AllocationFact list \<Rightarrow> ('e, LotCapacity list) outcome" where
  "plan_capacities lots' facts =
     and_then (try_map (\<lambda>lot. and_then (lot_remaining lot facts) (\<lambda>r.
         Ok \<lparr>cap_lot_id = lot_id lot, remaining_micro = r\<rparr>)) (filter (\<lambda>lot. converted_at lot = None) lots'))
       (\<lambda>caps. Ok (sort_key (\<lambda>c. (granted_of lots' (cap_lot_id c), cap_lot_id c)) caps))"

text \<open>The decimal text of an \<open>i32\<close>: a plan writes only the split sequence 0.\<close>

definition alloc_key :: "(uuid \<Rightarrow> ustring) \<Rightarrow> uuid \<Rightarrow> uuid \<Rightarrow> ustring" where
  "alloc_key show_uuid trade lot =
     lit ''alloc:'' @ show_uuid trade @ lit '':'' @ show_uuid lot @ lit '':0''"

definition plan_one ::
  "AllocationFact list \<Rightarrow> uuid \<Rightarrow> AllocationFact list \<Rightarrow> uuid \<times> i32 \<times> i64 \<Rightarrow>
     (world, AllocError, AllocationFact list) action" where
  "plan_one facts trade planned p =
     (case p of (lot, split_seq, amount) \<Rightarrow>
       seq (lift (check_allocate facts trade lot split_seq amount)) (\<lambda>_.
       seq new_v4 (\<lambda>new_id.
       seq (asks uuid_string) (\<lambda>show_uuid.
       ret (planned @ [\<lparr>al_id = new_id, al_trade_id = trade, al_lot_id = lot, al_split_seq = split_seq,
         al_amount_micro = amount, al_kind = Allocated, source_allocation_id = None,
         al_idempotency_key = alloc_key show_uuid trade lot\<rparr>])))))"

definition plan_trade_allocations ::
  "CreditLotRow list \<Rightarrow> AllocationFact list \<Rightarrow> uuid \<Rightarrow> i64 \<Rightarrow>
     (world, AllocError, AllocationFact list) action" where
  "plan_trade_allocations lots' facts trade fee_micro =
     seq (lift (plan_capacities lots' facts)) (\<lambda>capacities.
     for_fold (plan_one facts trade) (split_oldest_first capacities fee_micro) [])"

definition coverage_by_lot :: "CreditLotRow list \<Rightarrow> AllocationFact list \<Rightarrow> ('e, (uuid \<times> i64 \<times> i64) list) outcome" where
  "coverage_by_lot lots' facts =
     try_fold (\<lambda>m lot. and_then (lot_progress facts (lot_id lot)) (\<lambda>p. Ok (AList.update (lot_id lot) p m))) lots' []"

section \<open>Credit rows of the store\<close>

definition insert_credit_lot :: "CreditLotRow \<Rightarrow> uuid tx" where
  "insert_credit_lot lot =
     seq (buffer (\<lambda>p. p\<lparr>p_phase7 := (p_phase7 p)\<lparr>p_lots := p_lots (p_phase7 p) @ [lot]\<rparr>\<rparr>)) (\<lambda>_. ret (lot_id lot))"

definition lots_for_user :: "user_id \<Rightarrow> CreditLotRow list tx" where
  "lots_for_user user =
     asks (\<lambda>w. sort_key granted_at
       (filter (\<lambda>lot. lot_user lot = user) (lots (phase7 (committed w))) @
        filter (\<lambda>lot. lot_user lot = user) (p_lots (p_phase7 (pending w)))))"

definition lot_by_idempotency :: "ustring \<Rightarrow> CreditLotRow option tx" where
  "lot_by_idempotency key =
     asks (\<lambda>w. case find (\<lambda>(k, _). k = key) (rev (p_lot_keys (p_phase7 (pending w)))) of
         Some (_, i) \<Rightarrow> find (\<lambda>lot. lot_id lot = i) (p_lots (p_phase7 (pending w)))
       | None \<Rightarrow> Option.bind (map_of (lot_keys (phase7 (committed w))) key)
           (\<lambda>i. find (\<lambda>lot. lot_id lot = i) (lots (phase7 (committed w)))))"

definition remember_lot_idempotency :: "ustring \<Rightarrow> uuid \<Rightarrow> unit tx" where
  "remember_lot_idempotency key lot =
     buffer (\<lambda>p. p\<lparr>p_phase7 := (p_phase7 p)\<lparr>p_lot_keys := p_lot_keys (p_phase7 p) @ [(key, lot)]\<rparr>\<rparr>)"

definition mark_lot_converted :: "uuid \<Rightarrow> time \<Rightarrow> unit tx" where
  "mark_lot_converted lot at =
     buffer (\<lambda>p. p\<lparr>p_phase7 := (p_phase7 p)\<lparr>p_converted := p_converted (p_phase7 p) @ [(lot, at)]\<rparr>\<rparr>)"

definition all_allocations :: "world \<Rightarrow> AllocationFact list" where
  "all_allocations w = allocations (phase7 (committed w)) @ p_allocations (p_phase7 (pending w))"

text \<open>Whether a fact is to be appended: a replay of the same fact is accepted and appends nothing.\<close>

definition check_insert :: "AllocationFact list \<Rightarrow> AllocationFact \<Rightarrow> (StoreError, bool) outcome" where
  "check_insert existing f =
     (case find (\<lambda>row. al_idempotency_key row = al_idempotency_key f) existing of
        Some replay \<Rightarrow>
          if al_trade_id replay = al_trade_id f \<and> al_lot_id replay = al_lot_id f \<and>
             al_split_seq replay = al_split_seq f \<and> al_amount_micro replay = al_amount_micro f \<and>
             al_kind replay = al_kind f \<and> source_allocation_id replay = source_allocation_id f
          then Ok False else Err (Conflict ''credit allocation idempotency'')
      | None \<Rightarrow>
          and_then
            (case al_kind f of
               Allocated \<Rightarrow>
                 Ok (check_allocate existing (al_trade_id f) (al_lot_id f) (al_split_seq f) (al_amount_micro f))
             | _ \<Rightarrow>
                 and_then (ok_or (source_allocation_id f) (Invariant ''terminal credit allocation missing source''))
                   (\<lambda>source. Ok (check_terminal existing source (al_amount_micro f))))
            (\<lambda>valid. and_then (map_err (\<lambda>_. Invariant ''credit allocation algebra'') valid) (\<lambda>_. Ok True)))"

definition insert_allocation :: "AllocationFact \<Rightarrow> unit tx" where
  "insert_allocation f =
     seq (inquire (\<lambda>w. check_insert (all_allocations w) f)) (\<lambda>fresh.
     if fresh then
       buffer (\<lambda>p. p\<lparr>p_phase7 := (p_phase7 p)\<lparr>p_allocations := p_allocations (p_phase7 p) @ [f]\<rparr>\<rparr>)
     else ret ())"

definition allocations_for_lot :: "uuid \<Rightarrow> AllocationFact list tx" where
  "allocations_for_lot lot = asks (\<lambda>w. filter (\<lambda>f. al_lot_id f = lot) (all_allocations w))"

definition live_of :: "AllocationFact list \<Rightarrow> AllocationFact list" where
  "live_of facts =
     (let terminal_sources = List.map_filter source_allocation_id facts in
      filter (\<lambda>f. al_kind f = Allocated \<and> al_id f \<notin> set terminal_sources) facts)"

definition live_allocations_for_trade :: "uuid \<Rightarrow> AllocationFact list tx" where
  "live_allocations_for_trade trade =
     asks (\<lambda>w. live_of (filter (\<lambda>f. al_trade_id f = trade) (all_allocations w)))"

text \<open>\<open>move_market_fee_allocations\<close>: one terminal child for every live allocation of the market's trades.\<close>

fun terminal_prefix :: "AllocationKind \<Rightarrow> (StoreError, ustring) outcome" where
  "terminal_prefix Finalized = Ok (lit ''final'')"
| "terminal_prefix Reversed = Ok (lit ''rev'')"
| "terminal_prefix Allocated = Err (Invariant ''allocated is not a terminal credit fact'')"

definition terminal_child ::
  "(uuid \<Rightarrow> ustring) \<Rightarrow> ustring \<Rightarrow> AllocationKind \<Rightarrow> uuid \<Rightarrow> uuid \<Rightarrow> AllocationFact \<Rightarrow> AllocationFact" where
  "terminal_child show_uuid pre kind trade new_id source =
     \<lparr>al_id = new_id, al_trade_id = trade, al_lot_id = al_lot_id source,
      al_split_seq = al_split_seq source, al_amount_micro = al_amount_micro source, al_kind = kind,
      source_allocation_id = Some (al_id source),
      al_idempotency_key = pre @ lit '':'' @ show_uuid trade @ lit '':'' @ show_uuid (al_id source)\<rparr>"

definition move_one :: "AllocationKind \<Rightarrow> uuid \<Rightarrow> u32 \<Rightarrow> AllocationFact \<Rightarrow> u32 tx" where
  "move_one kind trade moved source =
     seq (lift (terminal_prefix kind)) (\<lambda>pre.
     seq new_v4 (\<lambda>new_id.
     seq (asks uuid_string) (\<lambda>show_uuid.
     seq (insert_allocation (terminal_child show_uuid pre kind trade new_id source)) (\<lambda>_.
     lift (ok_or (checked fits_u32 (moved + 1)) (Invariant ''credit allocation count overflow''))))))"

definition move_market_fee_allocations :: "market_id \<Rightarrow> AllocationKind \<Rightarrow> u32 tx" where
  "move_market_fee_allocations market kind =
     seq (asks (\<lambda>w. remdups_adj (sort
       (map st_id (filter (\<lambda>t. nt_market (st_new t) = market) (map snd (s_trades (committed w)))) @
        map st_id (filter (\<lambda>t. nt_market (st_new t) = market) (p_trades (pending w))))))) (\<lambda>trades.
     for_fold (\<lambda>moved trade.
       seq (live_allocations_for_trade trade) (\<lambda>live. for_fold (move_one kind trade) live moved)) trades 0)"

section \<open>Sums of a log\<close>

definition amounts :: "AllocationFact list \<Rightarrow> int" where
  "amounts fs = sum_list (map al_amount_micro fs)"

definition kind_sum :: "AllocationFact list \<Rightarrow> uuid \<Rightarrow> AllocationKind \<Rightarrow> int" where
  "kind_sum facts lot k = amounts (filter (\<lambda>f. al_lot_id f = lot \<and> al_kind f = k) facts)"

definition terminated :: "AllocationFact list \<Rightarrow> AllocationFact \<Rightarrow> bool" where
  "terminated facts f \<longleftrightarrow> list_ex (\<lambda>g. al_kind g \<noteq> Allocated \<and> source_allocation_id g = Some (al_id f)) facts"

definition live_sum :: "AllocationFact list \<Rightarrow> uuid \<Rightarrow> int" where
  "live_sum facts lot =
     amounts (filter (\<lambda>f. al_lot_id f = lot \<and> al_kind f = Allocated \<and> \<not> terminated facts f) facts)"

text \<open>
  A log is well formed when ids are unique, amounts positive, every terminal fact moves exactly one earlier
  allocation of the same lot and amount, and no allocation is moved twice.
\<close>

definition child_of :: "AllocationFact \<Rightarrow> AllocationFact \<Rightarrow> bool" where
  "child_of g f \<longleftrightarrow> al_kind f = Allocated \<and> source_allocation_id g = Some (al_id f) \<and>
     al_amount_micro g = al_amount_micro f \<and> al_lot_id g = al_lot_id f"

definition wf_log :: "AllocationFact list \<Rightarrow> bool" where
  "wf_log facts \<longleftrightarrow> distinct (map al_id facts) \<and> (\<forall>f \<in> set facts. 0 < al_amount_micro f) \<and>
     (\<forall>g \<in> set facts. al_kind g \<noteq> Allocated \<longrightarrow> (\<exists>f \<in> set facts. child_of g f)) \<and>
     (\<forall>g \<in> set facts. \<forall>h \<in> set facts. al_kind g \<noteq> Allocated \<longrightarrow> al_kind h \<noteq> Allocated \<longrightarrow>
        source_allocation_id g = source_allocation_id h \<longrightarrow> g = h)"

lemma not_allocated_iff: "k \<noteq> Allocated \<longleftrightarrow> k = Finalized \<or> k = Reversed"
  by (cases k) auto

lemma amounts_append [simp]: "amounts (xs @ ys) = amounts xs + amounts ys"
  by (simp add: amounts_def)

lemma amounts_simps [simp]: "amounts [] = 0" "amounts (f # fs) = al_amount_micro f + amounts fs"
  by (simp_all add: amounts_def)

lemma kind_sum_append [simp]: "kind_sum (xs @ ys) lot k = kind_sum xs lot k + kind_sum ys lot k"
  by (simp add: kind_sum_def)

lemma kind_sum_simps [simp]:
  "kind_sum [] lot k = 0"
  "kind_sum (f # fs) lot k = (if al_lot_id f = lot \<and> al_kind f = k then al_amount_micro f else 0) + kind_sum fs lot k"
  by (simp_all add: kind_sum_def)

lemma amounts_nonneg: "\<forall>f \<in> set fs. 0 < al_amount_micro f \<Longrightarrow> 0 \<le> amounts fs"
  by (induction fs) auto

lemma kind_sum_nonneg: "\<forall>f \<in> set fs. 0 < al_amount_micro f \<Longrightarrow> 0 \<le> kind_sum fs lot k"
  unfolding kind_sum_def by (rule amounts_nonneg) simp

lemma amounts_set: "distinct fs \<Longrightarrow> amounts fs = (\<Sum>f \<in> set fs. al_amount_micro f)"
  by (simp add: amounts_def sum_list_distinct_conv_sum_set)

lemma wf_log_distinct: "wf_log facts \<Longrightarrow> distinct facts"
  by (auto simp: wf_log_def distinct_map)

lemma wf_log_positive: "wf_log facts \<Longrightarrow> f \<in> set facts \<Longrightarrow> 0 < al_amount_micro f"
  by (simp add: wf_log_def)

lemma wf_log_child: "wf_log facts \<Longrightarrow> g \<in> set facts \<Longrightarrow> al_kind g \<noteq> Allocated \<Longrightarrow> \<exists>f \<in> set facts. child_of g f"
  by (simp add: wf_log_def)

lemma same_id: "wf_log facts \<Longrightarrow> f \<in> set facts \<Longrightarrow> g \<in> set facts \<Longrightarrow> al_id f = al_id g \<Longrightarrow> f = g"
  by (auto simp: wf_log_def distinct_map dest: inj_onD)

lemma terminated_child:
  assumes "wf_log facts" "f \<in> set facts" "al_kind f = Allocated"
  shows "terminated facts f \<longleftrightarrow> (\<exists>g \<in> set facts. al_kind g \<noteq> Allocated \<and> child_of g f)"
proof
  assume "terminated facts f"
  then obtain g where g: "g \<in> set facts" "al_kind g \<noteq> Allocated" "source_allocation_id g = Some (al_id f)"
    by (auto simp: terminated_def list_ex_iff)
  with wf_log_child[OF assms(1)] obtain f' where f': "f' \<in> set facts" "child_of g f'" by blast
  then have "f' = f" using same_id[OF assms(1)] g(3) assms(2) by (auto simp: child_of_def)
  with g f' show "\<exists>g \<in> set facts. al_kind g \<noteq> Allocated \<and> child_of g f" by blast
qed (auto simp: terminated_def list_ex_iff child_of_def)

lemma partition_sum:
  "amounts (filter P fs) = amounts (filter (\<lambda>f. P f \<and> Q f) fs) + amounts (filter (\<lambda>f. P f \<and> \<not> Q f) fs)"
  by (induction fs) auto

text \<open>Every amount allocated to a lot is live, finalized or reversed.\<close>

lemma log_balance:
  assumes wf: "wf_log facts"
  shows "kind_sum facts lot Allocated =
    live_sum facts lot + kind_sum facts lot Finalized + kind_sum facts lot Reversed"
proof -
  let ?alloc = "\<lambda>f. al_lot_id f = lot \<and> al_kind f = Allocated"
  let ?moved = "{f \<in> set facts. ?alloc f \<and> terminated facts f}"
  let ?kids = "{g \<in> set facts. al_lot_id g = lot \<and> al_kind g \<noteq> Allocated}"
  have d: "distinct facts" using wf by (rule wf_log_distinct)
  have ex: "\<exists>f. f \<in> set facts \<and> child_of g f" if "g \<in> ?kids" for g
    using that wf_log_child[OF wf, of g] by blast
  define src where "src g = (SOME f. f \<in> set facts \<and> child_of g f)" for g
  have src: "src g \<in> set facts \<and> child_of g (src g)" if "g \<in> ?kids" for g
    using someI_ex[OF ex[OF that]] by (simp add: src_def)
  have "bij_betw src ?kids ?moved"
    unfolding bij_betw_def
  proof
    show "inj_on src ?kids"
    proof (rule inj_onI)
      fix g h assume gh: "g \<in> ?kids" "h \<in> ?kids" "src g = src h"
      then have "source_allocation_id g = source_allocation_id h"
        using src[of g] src[of h] by (auto simp: child_of_def)
      with gh wf show "g = h" unfolding wf_log_def by blast
    qed
    show "src ` ?kids = ?moved"
    proof
      show "src ` ?kids \<subseteq> ?moved"
        using src by (fastforce simp: child_of_def terminated_def list_ex_iff)
      show "?moved \<subseteq> src ` ?kids"
      proof
        fix f assume f: "f \<in> ?moved"
        then obtain g where g: "g \<in> set facts" "al_kind g \<noteq> Allocated" "child_of g f"
          using terminated_child[OF wf] by blast
        then have "g \<in> ?kids" using f by (simp add: child_of_def)
        moreover from this have "src g = f"
          using src same_id[OF wf, of "src g" f] f g(3) by (auto simp: child_of_def)
        ultimately show "f \<in> src ` ?kids" by blast
      qed
    qed
  qed
  then have "(\<Sum>f \<in> ?moved. al_amount_micro f) = (\<Sum>g \<in> ?kids. al_amount_micro (src g))"
    by (rule sum.reindex_bij_betw[symmetric])
  also have "\<dots> = (\<Sum>g \<in> ?kids. al_amount_micro g)"
    using src by (intro sum.cong) (auto simp: child_of_def)
  finally have moved: "amounts (filter (\<lambda>f. ?alloc f \<and> terminated facts f) facts) =
      amounts (filter (\<lambda>g. al_lot_id g = lot \<and> al_kind g \<noteq> Allocated) facts)"
    using d by (simp add: amounts_set)
  have "amounts (filter (\<lambda>g. al_lot_id g = lot \<and> al_kind g \<noteq> Allocated) fs) =
      kind_sum fs lot Finalized + kind_sum fs lot Reversed" for fs
    by (induction fs) (auto simp: not_allocated_iff)
  with moved partition_sum[of ?alloc facts "terminated facts"] show ?thesis
    by (simp add: kind_sum_def live_sum_def conj_assoc)
qed

section \<open>Progress of a lot\<close>

definition sources :: "AllocationFact list \<Rightarrow> uuid \<Rightarrow> AllocationKind \<Rightarrow> uuid set" where
  "sources facts lot k = {s. \<exists>g \<in> set facts. al_lot_id g = lot \<and> al_kind g = k \<and> source_allocation_id g = Some s}"

definition progress_of :: "uuid \<Rightarrow> AllocationFact list \<Rightarrow> int \<times> int \<times> uuid list \<times> uuid list \<Rightarrow> bool" where
  "progress_of lot pre acc \<longleftrightarrow>
     (case acc of (p, x, rs, fs) \<Rightarrow> p = kind_sum pre lot Allocated \<and> x = kind_sum pre lot Finalized \<and>
        set rs = sources pre lot Reversed \<and> set fs = sources pre lot Finalized)"

lemma sources_snoc:
  "sources (pre @ [f]) lot k = sources pre lot k \<union>
     (if al_lot_id f = lot \<and> al_kind f = k then set_option (source_allocation_id f) else {})"
  by (auto simp: sources_def)

lemma progress_step_of:
  "progress_of lot pre acc \<Longrightarrow> progress_step lot acc f = Ok acc' \<Longrightarrow> progress_of lot (pre @ [f]) acc'"
  by (cases acc; cases "al_kind f"; cases "source_allocation_id f"; cases "al_lot_id f = lot")
     (simp_all add: progress_of_def progress_step_def sources_snoc, auto)

lemma progress_step_total:
  assumes "progress_of lot pre acc" "0 \<le> kind_sum pre lot Allocated" "0 \<le> kind_sum pre lot Finalized"
    "0 < al_amount_micro f" "kind_sum (pre @ [f]) lot Allocated \<le> i64_MAX"
    "kind_sum (pre @ [f]) lot Finalized \<le> i64_MAX"
  shows "\<exists>acc'. progress_step lot acc f = Ok acc'"
  using assms by (cases acc; cases "al_kind f") (auto simp: progress_of_def progress_step_def width_defs)

definition moved_sum :: "AllocationFact list \<Rightarrow> uuid \<Rightarrow> AllocationFact list \<Rightarrow> int" where
  "moved_sum facts lot pre =
     amounts (filter (\<lambda>f. al_lot_id f = lot \<and> al_kind f = Allocated \<and> terminated facts f) pre)"

lemma moved_sources:
  assumes "wf_log facts" "f \<in> set facts" "al_lot_id f = lot" "al_kind f = Allocated"
  shows "al_id f \<in> sources facts lot Finalized \<or> al_id f \<in> sources facts lot Reversed \<longleftrightarrow> terminated facts f"
proof -
  have lot: "al_lot_id g = lot"
    if g: "g \<in> set facts" "al_kind g \<noteq> Allocated" "source_allocation_id g = Some (al_id f)" for g
  proof -
    from wf_log_child[OF assms(1) g(1,2)] obtain f' where f': "f' \<in> set facts" "child_of g f'" by blast
    with g(3) have "al_id f' = al_id f" by (simp add: child_of_def)
    then have "f' = f" by (rule same_id[OF assms(1) f'(1) assms(2)])
    with f'(2) assms(3) show ?thesis by (simp add: child_of_def)
  qed
  have "sources facts lot Finalized \<union> sources facts lot Reversed =
      {s. \<exists>g \<in> set facts. al_lot_id g = lot \<and> al_kind g \<noteq> Allocated \<and> source_allocation_id g = Some s}"
    unfolding sources_def not_allocated_iff by blast
  moreover have "terminated facts f \<longleftrightarrow>
      (\<exists>g \<in> set facts. al_kind g \<noteq> Allocated \<and> source_allocation_id g = Some (al_id f))"
    by (simp add: terminated_def list_ex_iff)
  ultimately show ?thesis using lot by blast
qed

lemma release_step_of:
  assumes "wf_log facts" "f \<in> set facts" "set rs = sources facts lot Reversed" "set fs = sources facts lot Finalized"
  shows "release_step lot rs fs p f =
    (if al_lot_id f = lot \<and> al_kind f = Allocated \<and> terminated facts f
     then arith fits_i64 (p - al_amount_micro f) else Ok p)"
  using moved_sources[OF assms(1,2), of lot] assms(3,4) by (auto simp: release_step_def)

lemma live_moved: "kind_sum facts lot Allocated - moved_sum facts lot facts = live_sum facts lot"
  using partition_sum[of "\<lambda>f. al_lot_id f = lot \<and> al_kind f = Allocated" facts "terminated facts"]
  by (simp add: kind_sum_def moved_sum_def live_sum_def conj_assoc)

lemma live_sum_nonneg: "wf_log facts \<Longrightarrow> 0 \<le> live_sum facts lot"
  unfolding live_sum_def by (rule amounts_nonneg) (auto simp: wf_log_positive)

lemma lot_progress_sound:
  assumes wf: "wf_log facts" and ok: "lot_progress facts lot = (Ok (p, x) :: ('e, int \<times> int) outcome)"
  shows "p = live_sum facts lot \<and> x = kind_sum facts lot Finalized"
proof -
  from ok obtain a b rs fs q where
    1: "try_fold (progress_step lot) facts (0, 0, [], []) = (Ok (a, b, rs, fs) :: ('e, _) outcome)" and
    2: "try_fold (release_step lot rs fs) facts a = (Ok q :: ('e, _) outcome)" and px: "p = max 0 q" "x = b"
    by (auto simp: lot_progress_def)
  have pr: "progress_of lot facts (a, b, rs, fs)"
    using 1
  proof (rule try_fold_sound)
    show "progress_of lot [] (0, 0, [], [])" by (simp add: progress_of_def sources_def)
  qed (rule progress_step_of)
  then have s: "set rs = sources facts lot Reversed" "set fs = sources facts lot Finalized"
    and a: "a = kind_sum facts lot Allocated" and b: "b = kind_sum facts lot Finalized"
    by (simp_all add: progress_of_def)
  have "q = a - moved_sum facts lot facts"
    using 2
  proof (rule try_fold_sound[where P = "\<lambda>pre q. q = a - moved_sum facts lot pre"])
    fix pre f suf v v'
    assume "facts = pre @ f # suf" and v: "v = a - moved_sum facts lot pre"
      and st: "release_step lot rs fs v f = Ok v'"
    then have "f \<in> set facts" by simp
    from st[unfolded release_step_of[OF wf this s]] v show "v' = a - moved_sum facts lot (pre @ [f])"
      by (auto simp: moved_sum_def split: if_splits)
  qed (simp add: moved_sum_def)
  then have "q = live_sum facts lot" using live_moved[of facts lot] a by simp
  then show ?thesis using px b live_sum_nonneg[OF wf, of lot] by simp
qed

lemma kind_sum_prefix:
  assumes "\<forall>f \<in> set facts. 0 < al_amount_micro f" "facts = pre @ suf"
  shows "0 \<le> kind_sum pre lot k" "kind_sum pre lot k \<le> kind_sum facts lot k"
  using kind_sum_nonneg[of pre lot k] kind_sum_nonneg[of suf lot k] assms by auto

lemma lot_progress_total:
  assumes wf: "wf_log facts" and bound: "kind_sum facts lot Allocated \<le> i64_MAX"
  shows "lot_progress facts lot = (Ok (live_sum facts lot, kind_sum facts lot Finalized) :: ('e, int \<times> int) outcome)"
proof -
  have pos: "\<forall>f \<in> set facts. 0 < al_amount_micro f" using wf by (simp add: wf_log_def)
  have fin: "kind_sum facts lot Finalized \<le> i64_MAX"
    using log_balance[OF wf, of lot] bound live_sum_nonneg[OF wf, of lot]
      kind_sum_nonneg[OF pos, of lot Reversed] by linarith
  have "\<exists>acc. try_fold (progress_step lot) facts (0, 0, [], []) = (Ok acc :: ('e, _) outcome) \<and> progress_of lot facts acc"
  proof (rule try_fold_total)
    show "progress_of lot [] (0, 0, [], [])" by (simp add: progress_of_def sources_def)
    fix pre f suf acc
    assume split: "facts = pre @ f # suf" and acc: "progress_of lot pre acc"
    have "facts = (pre @ [f]) @ suf" using split by simp
    note le = kind_sum_prefix(2)[OF pos this]
    have "\<exists>acc'. progress_step lot acc f = (Ok acc' :: ('e, _) outcome)"
    proof (rule progress_step_total[OF acc kind_sum_prefix(1)[OF pos split] kind_sum_prefix(1)[OF pos split]])
      show "0 < al_amount_micro f" using pos split by simp
      show "kind_sum (pre @ [f]) lot Allocated \<le> i64_MAX" using le[of lot Allocated] bound by linarith
      show "kind_sum (pre @ [f]) lot Finalized \<le> i64_MAX" using le[of lot Finalized] fin by linarith
    qed
    then show "\<exists>acc'. progress_step lot acc f = (Ok acc' :: ('e, _) outcome) \<and> progress_of lot (pre @ [f]) acc'"
      using progress_step_of[OF acc] by blast
  qed
  then obtain a b rs fs where
    1: "try_fold (progress_step lot) facts (0, 0, [], []) = (Ok (a, b, rs, fs) :: ('e, _) outcome)"
    and pr: "progress_of lot facts (a, b, rs, fs)" by auto
  then have s: "set rs = sources facts lot Reversed" "set fs = sources facts lot Finalized"
    and a: "a = kind_sum facts lot Allocated" by (simp_all add: progress_of_def)
  have "\<exists>q. try_fold (release_step lot rs fs) facts a = (Ok q :: ('e, _) outcome) \<and> q = a - moved_sum facts lot facts"
  proof (rule try_fold_total[where P = "\<lambda>pre q. q = a - moved_sum facts lot pre"])
    fix pre f suf q
    assume split: "facts = pre @ f # suf" and q: "q = a - moved_sum facts lot pre"
    let ?P = "\<lambda>f. al_lot_id f = lot \<and> al_kind f = Allocated \<and> terminated facts f"
    have "0 \<le> moved_sum facts lot (pre @ [f])" "0 \<le> moved_sum facts lot suf"
      unfolding moved_sum_def using pos split by (intro amounts_nonneg; auto)+
    moreover have "moved_sum facts lot facts = moved_sum facts lot (pre @ [f]) + moved_sum facts lot suf"
      by (subst (2) split) (simp add: moved_sum_def)
    ultimately have "fits_i64 (a - moved_sum facts lot (pre @ [f]))"
      using live_moved[of facts lot] live_sum_nonneg[OF wf, of lot] a bound unfolding width_defs by linarith
    moreover have "f \<in> set facts" using split by simp
    moreover have "moved_sum facts lot (pre @ [f]) = moved_sum facts lot pre + (if ?P f then al_amount_micro f else 0)"
      by (simp add: moved_sum_def)
    ultimately show "\<exists>q'. release_step lot rs fs q f = (Ok q' :: ('e, _) outcome) \<and> q' = a - moved_sum facts lot (pre @ [f])"
      using release_step_of[OF wf _ s, of f q] q by (auto simp: algebra_simps)
  qed (simp add: moved_sum_def)
  with 1 have "\<exists>v. lot_progress facts lot = (Ok v :: ('e, _) outcome)" by (auto simp: lot_progress_def)
  then show ?thesis using lot_progress_sound[OF wf] by auto
qed

text \<open>What a lot has used of its amount, and how one more fact changes it.\<close>

definition used :: "AllocationFact list \<Rightarrow> uuid \<Rightarrow> int" where
  "used facts lot = live_sum facts lot + kind_sum facts lot Finalized"

lemma used_eq: "wf_log facts \<Longrightarrow> used facts lot = kind_sum facts lot Allocated - kind_sum facts lot Reversed"
  using log_balance[of facts lot] by (simp add: used_def)

lemma wf_log_allocate:
  assumes wf: "wf_log facts" and "al_id f \<notin> al_id ` set facts" "0 < al_amount_micro f" "al_kind f = Allocated"
  shows "wf_log (facts @ [f])"
proof -
  have "\<exists>h \<in> set (facts @ [f]). child_of g h" if "g \<in> set facts" "al_kind g \<noteq> Allocated" for g
    using wf_log_child[OF wf that] by auto
  then show ?thesis using assms unfolding wf_log_def by auto
qed

lemma wf_log_terminate:
  assumes wf: "wf_log facts" and "al_id g \<notin> al_id ` set facts" "al_kind g \<noteq> Allocated"
    and f: "f \<in> set facts" "child_of g f" "\<not> terminated facts f"
  shows "wf_log (facts @ [g])"
proof -
  have "\<exists>h \<in> set (facts @ [g]). child_of k h" if "k \<in> set (facts @ [g])" "al_kind k \<noteq> Allocated" for k
    using wf_log_child[OF wf, of k] that f by auto
  moreover have "source_allocation_id k \<noteq> source_allocation_id g" if "k \<in> set facts" "al_kind k \<noteq> Allocated" for k
    using f that by (auto simp: terminated_def list_ex_iff child_of_def)
  moreover have "0 < al_amount_micro g" using f wf_log_positive[OF wf f(1)] by (simp add: child_of_def)
  moreover have "source_allocation_id g \<noteq> source_allocation_id k" if "k \<in> set facts" "al_kind k \<noteq> Allocated" for k
    using calculation(2)[OF that] by simp
  ultimately show ?thesis using assms(1-3) unfolding wf_log_def by auto
qed

lemma used_snoc:
  assumes "wf_log facts" "wf_log (facts @ [f])"
  shows "used (facts @ [f]) lot = used facts lot + (if al_lot_id f \<noteq> lot then 0 else
    case al_kind f of Allocated \<Rightarrow> al_amount_micro f | Finalized \<Rightarrow> 0 | Reversed \<Rightarrow> - al_amount_micro f)"
  by (simp add: used_eq[OF assms(1)] used_eq[OF assms(2)] split: AllocationKind.splits)

section \<open>The split\<close>

text \<open>
  The reference: the capacities stand one above the other, oldest first, and the fee fills them from the
  bottom. A lot takes what is left of the fee above the lots before it, up to its own capacity.
\<close>

definition fill :: "LotCapacity list \<Rightarrow> int \<Rightarrow> nat \<Rightarrow> int" where
  "fill caps fee i =
     min (max 0 (remaining_micro (caps ! i))) (fee - sum_list (map (\<lambda>c. max 0 (remaining_micro c)) (take i caps)))"

definition waterfall :: "LotCapacity list \<Rightarrow> int \<Rightarrow> (uuid \<times> i32 \<times> i64) list" where
  "waterfall caps fee =
     filter (\<lambda>(_, _, a). 0 < a) (map (\<lambda>i. (cap_lot_id (caps ! i), 0, fill caps fee i)) [0..<length caps])"

lemma fill_Cons: "fill (c # caps) fee (Suc i) = fill caps (fee - max 0 (remaining_micro c)) i"
  by (simp add: fill_def algebra_simps)

lemma waterfall_Cons:
  "waterfall (c # caps) fee =
     (let a = min (max 0 (remaining_micro c)) fee in
      (if 0 < a then [(cap_lot_id c, 0, a)] else []) @ waterfall caps (fee - max 0 (remaining_micro c)))"
proof -
  have idx: "[0..<Suc n] = 0 # map Suc [0..<n]" for n by (simp add: upt_conv_Cons map_Suc_upt del: upt_Suc)
  have "map (\<lambda>i. (cap_lot_id ((c # caps) ! i), 0 :: int, fill (c # caps) fee i)) [0..<length (c # caps)] =
      (cap_lot_id c, 0, fill (c # caps) fee 0) #
      map (\<lambda>i. (cap_lot_id (caps ! i), 0, fill caps (fee - max 0 (remaining_micro c)) i)) [0..<length caps]"
    unfolding length_Cons idx by (simp add: fill_Cons)
  moreover have "fill (c # caps) fee 0 = min (max 0 (remaining_micro c)) fee" by (simp add: fill_def)
  ultimately show ?thesis by (simp add: waterfall_def Let_def)
qed

lemma waterfall_dry: "fee \<le> 0 \<Longrightarrow> waterfall caps fee = []"
  by (induction caps arbitrary: fee) (simp add: waterfall_def, simp add: waterfall_Cons)

lemma split_loop_waterfall: "0 \<le> left \<Longrightarrow> split_loop caps left = waterfall caps left"
proof (induction caps arbitrary: left)
  case Nil
  show ?case by (simp add: waterfall_def)
next
  case (Cons c caps)
  have "left - min left r = (if r \<le> left then left - r else 0)" for r by simp
  with Cons show ?case
    by (auto simp: waterfall_Cons waterfall_dry Let_def min_def)
qed

lemma split_waterfall: "split_oldest_first caps fee = waterfall caps fee"
  by (auto simp: split_oldest_first_def waterfall_dry split_loop_waterfall)

lemma waterfall_total:
  "0 \<le> fee \<Longrightarrow> sum_list (map (\<lambda>(_, _, a). a) (waterfall caps fee)) =
     min fee (sum_list (map (\<lambda>c. max 0 (remaining_micro c)) caps))"
proof (induction caps arbitrary: fee)
  case Nil
  then show ?case by (simp add: waterfall_def)
next
  case (Cons c caps)
  have nn: "0 \<le> sum_list (map (\<lambda>c. max 0 (remaining_micro c)) caps)"
    by (rule sum_list_nonneg) auto
  show ?case
  proof (cases "max 0 (remaining_micro c) \<le> fee")
    case True
    with Cons.IH[of "fee - max 0 (remaining_micro c)"] show ?thesis
      by (auto simp: waterfall_Cons Let_def min_def)
  next
    case False
    with nn Cons.prems show ?thesis by (auto simp: waterfall_Cons waterfall_dry Let_def min_def)
  qed
qed

lemma waterfall_mem:
  "(lot, n, a) \<in> set (waterfall caps fee) \<Longrightarrow>
     n = 0 \<and> 0 < a \<and> (\<exists>c \<in> set caps. cap_lot_id c = lot \<and> a \<le> remaining_micro c)"
proof (induction caps arbitrary: fee)
  case Nil
  then show ?case by (simp add: waterfall_def)
next
  case (Cons c caps)
  from Cons.prems consider "n = 0" "0 < a" "lot = cap_lot_id c" "a = min (max 0 (remaining_micro c)) fee"
    | "(lot, n, a) \<in> set (waterfall caps (fee - max 0 (remaining_micro c)))"
    by (auto simp: waterfall_Cons Let_def split: if_splits)
  then show ?case
  proof cases
    case 1
    then show ?thesis by auto
  next
    case 2
    from Cons.IH[OF this] show ?thesis by auto
  qed
qed

lemma waterfall_distinct:
  assumes "distinct (map cap_lot_id caps)"
  shows "distinct (map fst (waterfall caps fee))"
  using assms
proof (induction caps arbitrary: fee)
  case Nil
  show ?case by (simp add: waterfall_def)
next
  case (Cons c caps)
  have "cap_lot_id c \<notin> fst ` set (waterfall caps f)" for f
  proof
    assume "cap_lot_id c \<in> fst ` set (waterfall caps f)"
    then obtain n a where "(cap_lot_id c, n, a) \<in> set (waterfall caps f)" by auto
    from waterfall_mem[OF this] show False using Cons.prems by (metis distinct.simps(2) image_eqI list.simps(9) set_map)
  qed
  with Cons show ?case by (auto simp: waterfall_Cons Let_def)
qed

section \<open>Plans\<close>

definition planned_as :: "uuid \<times> i32 \<times> i64 \<Rightarrow> AllocationFact \<Rightarrow> bool" where
  "planned_as p f \<longleftrightarrow>
     p = (al_lot_id f, al_split_seq f, al_amount_micro f) \<and> al_kind f = Allocated \<and> source_allocation_id f = None"

lemma plan_one_Ok:
  "plan_one facts trade acc (lot, n, a) w = (Ok planned, w') \<Longrightarrow>
     planned = acc @ [\<lparr>al_id = uuids w 0, al_trade_id = trade, al_lot_id = lot, al_split_seq = n,
       al_amount_micro = a, al_kind = Allocated, source_allocation_id = None,
       al_idempotency_key = alloc_key (uuid_string w) trade lot\<rparr>] \<and> w' = w\<lparr>uuids := \<lambda>n. uuids w (Suc n)\<rparr>"
  by (auto simp: plan_one_def run_simps new_v4_def)

lemma plan_fold:
  assumes "for_fold (plan_one facts trade) xs acc w = (Ok planned, w')"
  shows "\<exists>new. planned = acc @ new \<and> list_all2 planned_as xs new \<and> map al_id new = map (uuids w) [0..<length xs]"
  using assms
proof (induction xs arbitrary: acc w)
  case Nil
  then show ?case by (simp add: run_simps)
next
  case (Cons x xs)
  obtain lot n a where x: "x = (lot, n, a)" by (metis prod.exhaust)
  from Cons.prems obtain acc' w1 where one: "plan_one facts trade acc (lot, n, a) w = (Ok acc', w1)"
    and rest: "for_fold (plan_one facts trade) xs acc' w1 = (Ok planned, w')" by (auto simp: x run_simps)
  define f where "f = last acc'"
  have acc': "acc' = acc @ [f]" and f: "planned_as x f" "al_id f = uuids w 0" "uuids w1 = (\<lambda>n. uuids w (Suc n))"
    using plan_one_Ok[OF one] by (simp_all add: f_def x planned_as_def)
  from Cons.IH[OF rest] obtain new where new: "planned = acc' @ new" "list_all2 planned_as xs new"
    "map al_id new = map (uuids w1) [0..<length xs]" by blast
  have "map (uuids w) [0..<length (x # xs)] = uuids w 0 # map (uuids w1) [0..<length xs]"
    by (simp add: f(3) upt_conv_Cons map_Suc_upt[symmetric] o_def del: upt_Suc)
  with new f(1,2) acc' show ?case by (intro exI[of _ "f # new"]) simp
qed

text \<open>Only the facts of the lot matter for its progress.\<close>

lemma progress_step_other: "al_lot_id f \<noteq> lot \<Longrightarrow> progress_step lot acc f = Ok acc"
  by (cases acc) (simp add: progress_step_def)

lemma release_step_other: "al_lot_id f \<noteq> lot \<Longrightarrow> release_step lot rs fs p f = Ok p"
  by (simp add: release_step_def)

lemma try_fold_filter:
  "(\<And>acc f. \<not> P f \<Longrightarrow> step acc f = Ok acc) \<Longrightarrow> try_fold step (filter P xs) acc = try_fold step xs acc"
proof (induction xs arbitrary: acc)
  case (Cons x xs)
  then show ?case by (cases "step acc x") auto
qed simp

lemma lot_progress_filter: "lot_progress (filter (\<lambda>f. al_lot_id f = lot) facts) lot = lot_progress facts lot"
  unfolding lot_progress_def
  by (subst (1 2) try_fold_filter) (auto simp: progress_step_other release_step_other)

definition user_facts :: "CreditLotRow list \<Rightarrow> AllocationFact list \<Rightarrow> AllocationFact list" where
  "user_facts L facts = concat (map (\<lambda>l. filter (\<lambda>f. al_lot_id f = lot_id l) facts) L)"

lemma user_facts_filter:
  assumes "distinct (map lot_id L)" "l \<in> set L"
  shows "filter (\<lambda>f. al_lot_id f = lot_id l) (user_facts L facts) = filter (\<lambda>f. al_lot_id f = lot_id l) facts"
  using assms
proof (induction L)
  case (Cons k L)
  have other: "filter (\<lambda>f. al_lot_id f = i) (user_facts M facts) = []" if "i \<notin> lot_id ` set M" for i M
    using that by (auto simp: user_facts_def filter_empty_conv)
  show ?case
  proof (cases "l = k")
    case True
    with Cons.prems other[of "lot_id k" L] show ?thesis by (simp add: user_facts_def)
  next
    case False
    with Cons have "lot_id l \<noteq> lot_id k" by (auto simp: image_iff)
    then have "filter (\<lambda>f. al_lot_id f = lot_id l) (filter (\<lambda>f. al_lot_id f = lot_id k) facts) = []"
      by (auto simp: filter_empty_conv)
    with Cons False show ?thesis by (simp add: user_facts_def)
  qed
qed simp

lemma user_facts_progress:
  assumes "distinct (map lot_id L)" "l \<in> set L"
  shows "lot_progress (user_facts L facts) (lot_id l) = lot_progress facts (lot_id l)"
  by (metis lot_progress_filter user_facts_filter[OF assms])

section \<open>Histories of lots and allocations\<close>

text \<open>The log as \<open>insert_allocation\<close> extends it.\<close>

definition log_insert :: "AllocationFact list \<Rightarrow> AllocationFact \<Rightarrow> (StoreError, AllocationFact list) outcome" where
  "log_insert existing f =
     and_then (check_insert existing f) (\<lambda>fresh. Ok (if fresh then existing @ [f] else existing))"

lemma insert_allocation_log:
  "insert_allocation f w = (Ok u, w') \<Longrightarrow> log_insert (all_allocations w) f = Ok (all_allocations w')"
proof -
  assume ok: "insert_allocation f w = (Ok u, w')"
  then obtain fresh where fresh: "check_insert (all_allocations w) f = Ok fresh"
    by (cases "check_insert (all_allocations w) f") (simp_all add: insert_allocation_def seq_def inquire_def)
  with ok have "all_allocations w' = (if fresh then all_allocations w @ [f] else all_allocations w)"
    by (cases fresh) (auto simp: insert_allocation_def seq_def inquire_def buffer_def modify_def ret_def all_allocations_def)
  with fresh show ?thesis by (simp add: log_insert_def)
qed

definition user_lots :: "user_id \<Rightarrow> CreditLotRow list \<Rightarrow> CreditLotRow list" where
  "user_lots u L = sort_key granted_at (filter (\<lambda>l. lot_user l = u) L)"

text \<open>
  Grants add a lot under a new id, conversions mark one, a trade plans its fee over the lots of its user and
  inserts the plan, and the end of a market moves live allocations to their terminal facts. The ids of new
  facts are new.
\<close>

inductive credit_reachable :: "CreditLotRow list \<Rightarrow> AllocationFact list \<Rightarrow> bool" where
  start: "credit_reachable [] []"
| grant: "credit_reachable L F \<Longrightarrow> lot_id lot \<notin> lot_id ` set L \<Longrightarrow> 0 \<le> lot_amount_micro lot \<Longrightarrow>
    credit_reachable (L @ [lot]) F"
| convert: "credit_reachable L F \<Longrightarrow>
    credit_reachable (update_first (\<lambda>l. lot_id l = i) (\<lambda>l. l\<lparr>converted_at := Some at\<rparr>) L) F"
| trade: "credit_reachable L F \<Longrightarrow>
    plan_trade_allocations (user_lots u L) (user_facts (user_lots u L) F) tr fee w = (Ok planned, w') \<Longrightarrow>
    distinct (map al_id planned) \<Longrightarrow> al_id ` set planned \<inter> al_id ` set F = {} \<Longrightarrow>
    try_fold log_insert planned F = Ok F' \<Longrightarrow> credit_reachable L F'"
| finish: "credit_reachable L F \<Longrightarrow> source \<in> set (live_of (filter (\<lambda>f. al_trade_id f = tr) F)) \<Longrightarrow>
    terminal_prefix kind = Ok pre \<Longrightarrow> new_id \<notin> al_id ` set F \<Longrightarrow>
    log_insert F (terminal_child show_uuid pre kind tr new_id source) = Ok F' \<Longrightarrow> credit_reachable L F'"

definition credit_inv :: "CreditLotRow list \<Rightarrow> AllocationFact list \<Rightarrow> bool" where
  "credit_inv L F \<longleftrightarrow> wf_log F \<and> distinct (map lot_id L) \<and> (\<forall>f \<in> set F. al_lot_id f \<in> lot_id ` set L) \<and>
     (\<forall>lot \<in> set L. used F (lot_id lot) \<le> lot_amount_micro lot)"

lemma check_insert_True:
  assumes "check_insert F f = Ok True"
  shows "0 < al_amount_micro f \<and> (al_kind f \<noteq> Allocated \<longrightarrow>
    (\<exists>s \<in> set F. al_kind s = Allocated \<and> source_allocation_id f = Some (al_id s) \<and>
       al_amount_micro s = al_amount_micro f \<and> \<not> terminated F s))"
proof (cases "find (\<lambda>row. al_idempotency_key row = al_idempotency_key f) F")
  case (Some a)
  with assms show ?thesis by (simp add: check_insert_def split: if_splits)
next
  case None
  show ?thesis
  proof (cases "al_kind f = Allocated")
    case True
    with assms None show ?thesis by (auto simp: check_insert_def check_allocate_def split: if_splits)
  next
    case False
    with assms None obtain i where i: "source_allocation_id f = Some i"
      and ok: "check_terminal F i (al_amount_micro f) = Ok ()"
      by (cases "al_kind f") (auto simp: check_insert_def)
    from ok obtain s where pos: "0 < al_amount_micro f"
      and s: "find (\<lambda>f. al_id f = i \<and> al_kind f = Allocated) F = Some s" "al_amount_micro s = al_amount_micro f"
      and dup: "\<not> list_ex (\<lambda>f. source_allocation_id f = Some i \<and> al_kind f \<in> {Finalized, Reversed}) F"
      by (auto simp: check_terminal_def split: if_splits)
    from s(1) have "s \<in> set F" "al_id s = i" "al_kind s = Allocated" by (auto simp: find_Some_iff)
    moreover from this dup have "\<not> terminated F s"
      unfolding terminated_def not_allocated_iff by (auto simp: list_ex_iff)
    ultimately show ?thesis using pos s(2) i by auto
  qed
qed

lemma log_insert_cases:
  assumes "log_insert F f = Ok F'"
  obtains (replay) "F' = F" | (append) "F' = F @ [f]" "check_insert F f = Ok True"
  using assms by (auto simp: log_insert_def split: if_splits)

lemma plan_capacities_Ok:
  assumes "plan_capacities L facts = (Ok caps :: (AllocError, LotCapacity list) outcome)" "distinct (map lot_id L)"
  shows "distinct (map cap_lot_id caps) \<and> (\<forall>c \<in> set caps. \<exists>l \<in> set L. cap_lot_id c = lot_id l \<and>
    converted_at l = None \<and> lot_remaining l facts = (Ok (remaining_micro c) :: (AllocError, int) outcome))"
proof -
  let ?step = "\<lambda>lot. and_then (lot_remaining lot facts)
    (\<lambda>r. Ok \<lparr>cap_lot_id = lot_id lot, remaining_micro = r\<rparr> :: (AllocError, LotCapacity) outcome)"
  let ?open = "filter (\<lambda>lot. converted_at lot = None) L"
  from assms(1) obtain cs where ok: "try_map ?step ?open = Ok cs"
    and sorted: "caps = sort_key (\<lambda>c. (granted_of L (cap_lot_id c), cap_lot_id c)) cs"
    unfolding plan_capacities_def by (auto simp del: sort_key_simps)
  from ok have cs: "list_all2 (\<lambda>l c. ?step l = Ok c) ?open cs" by (simp only: try_map_Ok_iff)
  have "mset caps = mset cs" by (simp add: sorted)
  then have caps: "set caps = set cs" "distinct (map cap_lot_id caps) = distinct (map cap_lot_id cs)"
    by (rule mset_eq_setD, intro mset_eq_imp_distinct_iff) (simp add: \<open>mset caps = mset cs\<close>)
  have ids: "map cap_lot_id cs = map lot_id ?open"
    using cs by (induction rule: list_all2_induct) auto
  have "distinct (map lot_id ?open)" using assms(2) by (rule distinct_map_filter)
  moreover have "\<exists>l \<in> set L. cap_lot_id c = lot_id l \<and> converted_at l = None \<and>
      lot_remaining l facts = (Ok (remaining_micro c) :: (AllocError, int) outcome)" if "c \<in> set cs" for c
  proof -
    from that obtain n where n: "n < length cs" "cs ! n = c" by (auto simp: in_set_conv_nth)
    with cs have len: "n < length ?open" and st: "?step (?open ! n) = Ok c" by (auto simp: list_all2_conv_all_nth)
    from len have "?open ! n \<in> set ?open" by (rule nth_mem)
    then have "?open ! n \<in> set L" "converted_at (?open ! n) = None" unfolding set_filter by blast+
    with st show ?thesis by (intro bexI[of _ "?open ! n"]) auto
  qed
  ultimately show ?thesis using caps ids by metis
qed

lemma lot_remaining_Ok:
  assumes "wf_log F" "lot_progress facts (lot_id l) = (lot_progress F (lot_id l) :: ('e, int \<times> int) outcome)"
    "lot_remaining l facts = (Ok r :: ('e, int) outcome)" "converted_at l = None"
  shows "r = max 0 (lot_amount_micro l - used F (lot_id l))"
  using assms lot_progress_sound[OF assms(1), of "lot_id l", where 'e = 'e]
  by (auto simp: lot_remaining_def used_def algebra_simps)

lemma amounts_one:
  "distinct (map al_lot_id fs) \<Longrightarrow> f \<in> set fs \<Longrightarrow> amounts (filter (\<lambda>g. al_lot_id g = al_lot_id f) fs) = al_amount_micro f"
proof (induction fs)
  case (Cons g fs)
  have none: "filter (\<lambda>h. al_lot_id h = al_lot_id g) fs = []"
    using Cons.prems(1) by (auto simp: filter_empty_conv image_iff)
  show ?case
  proof (cases "f = g")
    case True
    with none show ?thesis by simp
  next
    case False
    with Cons.prems have "al_lot_id g \<noteq> al_lot_id f" by (auto simp: image_iff)
    with Cons False show ?thesis by simp
  qed
qed simp

lemma insert_plan:
  assumes inv: "credit_inv L F" and ok: "try_fold log_insert planned F = Ok F'"
    and kind: "\<forall>f \<in> set planned. al_kind f = Allocated \<and> al_lot_id f \<in> lot_id ` set L"
    and ids: "distinct (map al_id planned)" "al_id ` set planned \<inter> al_id ` set F = {}"
    and room: "\<And>lot. lot \<in> set L \<Longrightarrow>
      used F (lot_id lot) + amounts (filter (\<lambda>f. al_lot_id f = lot_id lot) planned) \<le> lot_amount_micro lot"
    and nonneg: "\<forall>f \<in> set planned. 0 < al_amount_micro f"
  shows "credit_inv L F'"
proof -
  let ?I = "\<lambda>pre G. wf_log G \<and> (\<forall>f \<in> set G. al_lot_id f \<in> lot_id ` set L) \<and>
    al_id ` set G \<subseteq> al_id ` set F \<union> al_id ` set pre \<and>
    (\<forall>i. used G i \<le> used F i + amounts (filter (\<lambda>f. al_lot_id f = i) pre))"
  have "?I planned F'"
    using ok
  proof (rule try_fold_sound)
    show "?I [] F" using inv by (simp add: credit_inv_def)
    fix pre f suf G G'
    assume split: "planned = pre @ f # suf" and G: "?I pre G" and ins: "log_insert G f = Ok G'"
    then have gi: "used G i \<le> used F i + amounts (filter (\<lambda>f. al_lot_id f = i) pre)" for i by blast
    from ins show "?I (pre @ [f]) G'"
    proof (cases rule: log_insert_cases)
      case replay
      have "0 < al_amount_micro f" using nonneg split by simp
      then have le: "amounts (filter (\<lambda>f. al_lot_id f = i) pre) \<le> amounts (filter (\<lambda>f. al_lot_id f = i) (pre @ [f]))" for i
        by simp
      have "used G' i \<le> used F i + amounts (filter (\<lambda>f. al_lot_id f = i) (pre @ [f]))" for i
        unfolding replay using gi[of i] le[of i] by linarith
      with G replay show ?thesis by auto
    next
      case append
      have new: "al_id f \<notin> al_id ` set G" using G ids split by auto
      have f: "al_kind f = Allocated" "al_lot_id f \<in> lot_id ` set L" "0 < al_amount_micro f"
        using kind nonneg split by auto
      have wf: "wf_log (G @ [f])" using G new f by (intro wf_log_allocate) auto
      have "used (G @ [f]) i = used G i + (if al_lot_id f = i then al_amount_micro f else 0)" for i
        using used_snoc[of G f i] G wf f(1) by simp
      then have "used G' i \<le> used F i + amounts (filter (\<lambda>f. al_lot_id f = i) (pre @ [f]))" for i
        using gi[of i] unfolding append(1) by simp
      with G wf f append(1) show ?thesis by auto
    qed
  qed
  then show ?thesis using inv room unfolding credit_inv_def by (meson order_trans)
qed

lemma credit_inv_trade:
  assumes inv: "credit_inv L F"
    and plan: "plan_trade_allocations (user_lots u L) (user_facts (user_lots u L) F) tr fee w = (Ok planned, w')"
    and fresh: "distinct (map al_id planned)" "al_id ` set planned \<inter> al_id ` set F = {}"
    and ins: "try_fold log_insert planned F = Ok F'"
  shows "credit_inv L F'"
proof -
  let ?U = "user_lots u L"
  have U: "set ?U \<subseteq> set L" by (auto simp: user_lots_def)
  have dL: "distinct (map lot_id L)" and wf: "wf_log F" using inv by (simp_all add: credit_inv_def)
  have "mset (map lot_id ?U) = mset (map lot_id (filter (\<lambda>l. lot_user l = u) L))" by (simp add: user_lots_def)
  then have dU: "distinct (map lot_id ?U)" using distinct_map_filter[OF dL] mset_eq_imp_distinct_iff by blast
  from plan obtain caps where caps: "plan_capacities ?U (user_facts ?U F) = (Ok caps :: (AllocError, _) outcome)"
    and fold: "for_fold (plan_one (user_facts ?U F) tr) (waterfall caps fee) [] w = (Ok planned, w')"
    by (auto simp: plan_trade_allocations_def run_simps split_waterfall)
  from plan_fold[OF fold] have pl: "list_all2 planned_as (waterfall caps fee) planned" by auto
  note cap = plan_capacities_Ok[OF caps dU]
  have mem: "(al_lot_id f, al_split_seq f, al_amount_micro f) \<in> set (waterfall caps fee) \<and> al_kind f = Allocated"
    if "f \<in> set planned" for f
    using pl that by (auto simp: list_all2_conv_all_nth in_set_conv_nth planned_as_def)
  have lots: "map al_lot_id planned = map fst (waterfall caps fee)"
    using pl by (induction rule: list_all2_induct) (auto simp: planned_as_def)
  have one: "\<exists>l \<in> set L. al_lot_id f = lot_id l \<and> 0 < al_amount_micro f \<and>
      al_amount_micro f \<le> max 0 (lot_amount_micro l - used F (lot_id l))" if f: "f \<in> set planned" for f
  proof -
    from waterfall_mem[of _ _ _ caps fee] mem[OF f] obtain c where c: "c \<in> set caps"
      "cap_lot_id c = al_lot_id f" "al_amount_micro f \<le> remaining_micro c" "0 < al_amount_micro f" by blast
    with cap obtain l where l: "l \<in> set ?U" "cap_lot_id c = lot_id l" "converted_at l = None"
      "lot_remaining l (user_facts ?U F) = (Ok (remaining_micro c) :: (AllocError, int) outcome)" by blast
    have "remaining_micro c = max 0 (lot_amount_micro l - used F (lot_id l))"
      using lot_remaining_Ok[OF wf user_facts_progress[OF dU l(1)] l(4,3)] .
    moreover have "l \<in> set L" using l(1) U by blast
    ultimately show ?thesis using c(2-4) l(2) by (intro bexI[of _ l]) simp_all
  qed
  show ?thesis
  proof (rule insert_plan[OF inv ins])
    show "\<forall>f \<in> set planned. al_kind f = Allocated \<and> al_lot_id f \<in> lot_id ` set L"
      using mem one by blast
    show "\<forall>f \<in> set planned. 0 < al_amount_micro f" using one by blast
    show "distinct (map al_id planned)" "al_id ` set planned \<inter> al_id ` set F = {}" using fresh .
    have dl: "distinct (map al_lot_id planned)" using waterfall_distinct cap lots by metis
    fix lot assume lot: "lot \<in> set L"
    then have le: "used F (lot_id lot) \<le> lot_amount_micro lot" using inv by (simp add: credit_inv_def)
    show "used F (lot_id lot) + amounts (filter (\<lambda>f. al_lot_id f = lot_id lot) planned) \<le> lot_amount_micro lot"
    proof (cases "\<exists>f \<in> set planned. al_lot_id f = lot_id lot")
      case True
      then obtain f where f: "f \<in> set planned" "al_lot_id f = lot_id lot" by blast
      from one[OF f(1)] obtain l where "l \<in> set L" "al_lot_id f = lot_id l"
        and le': "al_amount_micro f \<le> max 0 (lot_amount_micro l - used F (lot_id l))" by blast
      then have "l = lot" using f(2) lot dL by (metis distinct_map inj_onD)
      with le' le amounts_one[OF dl f(1)] f(2) show ?thesis by simp
    next
      case False
      then have "filter (\<lambda>f. al_lot_id f = lot_id lot) planned = []" by (auto simp: filter_empty_conv)
      with le show ?thesis by simp
    qed
  qed
qed

lemma credit_inv_finish:
  assumes inv: "credit_inv L F" and src: "source \<in> set (live_of (filter (\<lambda>f. al_trade_id f = tr) F))"
    and kind: "terminal_prefix kind = Ok pre" and fresh: "new_id \<notin> al_id ` set F"
    and ins: "log_insert F (terminal_child show_uuid pre kind tr new_id source) = Ok F'"
  shows "credit_inv L F'"
  using ins
proof (cases rule: log_insert_cases)
  case replay
  with inv show ?thesis by simp
next
  case append
  let ?g = "terminal_child show_uuid pre kind tr new_id source"
  have s: "source \<in> set F" "al_kind source = Allocated" using src by (auto simp: live_of_def Let_def)
  have k: "al_kind ?g \<noteq> Allocated" using kind by (cases kind) (auto simp: terminal_child_def)
  have wf: "wf_log F" using inv by (simp add: credit_inv_def)
  have id: "al_id ?g \<notin> al_id ` set F" using fresh by (simp add: terminal_child_def)
  have child: "child_of ?g source" using s by (simp add: child_of_def terminal_child_def)
  from check_insert_True[OF append(2)] k obtain s' where "s' \<in> set F" "al_id s' = al_id source" "\<not> terminated F s'"
    by (auto simp: terminal_child_def)
  then have "\<not> terminated F source" using same_id[OF wf _ s(1)] by metis
  then have wf': "wf_log (F @ [?g])" by (intro wf_log_terminate[OF wf id k s(1) child])
  have "0 < al_amount_micro ?g" using wf_log_positive[OF wf s(1)] by (simp add: terminal_child_def)
  then have "used (F @ [?g]) i \<le> used F i" for i
    using used_snoc[OF wf wf', of i] k by (auto split: AllocationKind.splits if_splits)
  moreover have "al_lot_id ?g \<in> lot_id ` set L" using inv s by (auto simp: credit_inv_def terminal_child_def)
  ultimately show ?thesis using inv wf' append(1) unfolding credit_inv_def by (auto intro: order_trans)
qed

lemma used_none: "\<forall>f \<in> set F. al_lot_id f \<noteq> i \<Longrightarrow> used F i = 0"
proof -
  assume none: "\<forall>f \<in> set F. al_lot_id f \<noteq> i"
  then have "filter (\<lambda>f. al_lot_id f = i \<and> P f) F = []" for P by (auto simp: filter_empty_conv)
  then show ?thesis by (simp add: used_def live_sum_def kind_sum_def)
qed

lemma update_first_lots:
  "map lot_id (update_first P (\<lambda>l. l\<lparr>converted_at := t\<rparr>) L) = map lot_id L"
  "lot \<in> set (update_first P (\<lambda>l. l\<lparr>converted_at := t\<rparr>) L) \<Longrightarrow>
     \<exists>l \<in> set L. lot_id l = lot_id lot \<and> lot_amount_micro l = lot_amount_micro lot"
  by (induction L) (auto split: if_splits)

lemma credit_reachable_inv: "credit_reachable L F \<Longrightarrow> credit_inv L F"
proof (induction rule: credit_reachable.induct)
  case start
  show ?case by (simp add: credit_inv_def wf_log_def)
next
  case (grant L F lot)
  have "\<forall>f \<in> set F. al_lot_id f \<noteq> lot_id lot" using grant.IH grant.hyps(2) unfolding credit_inv_def by metis
  then have "used F (lot_id lot) = 0" by (rule used_none)
  with grant show ?case by (auto simp: credit_inv_def)
next
  case (convert L F i at)
  have "lot_id ` set (update_first (\<lambda>l. lot_id l = i) (\<lambda>l. l\<lparr>converted_at := Some at\<rparr>) L) = lot_id ` set L"
    using update_first_lots(1) by (metis set_map)
  with convert update_first_lots show ?case unfolding credit_inv_def by metis
next
  case (trade L F u tr fee w planned w' F')
  then show ?case by (blast intro: credit_inv_trade)
next
  case (finish L F source tr kind pre new_id show_uuid F')
  then show ?case by (blast intro: credit_inv_finish)
qed

section \<open>Properties\<close>

text \<open>
  C32. \<open>split_oldest_first\<close> fills the lots like a waterfall: each lot, in the given order, takes what the
  lots before it have left of the fee, up to its remaining capacity, and lots that take nothing are left
  out. Together they take the whole fee or all the capacity, whichever is less; a fee that is not positive
  is not split.
\<close>

theorem split_is_waterfall:
  "split_oldest_first caps fee = waterfall caps fee \<and>
   sum_list (map (\<lambda>(_, _, a). a) (split_oldest_first caps fee)) =
     max 0 (min fee (sum_list (map (\<lambda>c. max 0 (remaining_micro c)) caps)))"
proof -
  have "0 \<le> sum_list (map (\<lambda>c. max 0 (remaining_micro c)) caps)" by (rule sum_list_nonneg) auto
  then show ?thesis using waterfall_total[of fee caps] waterfall_dry[of fee caps]
    by (cases "0 \<le> fee") (simp_all add: split_waterfall)
qed

text \<open>
  C15. However grants, trades, conversions and market ends interleave, the log never charges a lot more than
  it holds: as long as the total ever allocated to a lot fits its \<open>i64\<close> accumulator, \<open>lot_progress\<close> returns,
  the provisional and the finalized progress are not negative, add up to at most the lot's amount, and with
  the reversed amounts account for everything that was ever allocated.
\<close>

theorem credit_lots_never_overdrawn:
  assumes "credit_reachable L F" "lot \<in> set L" "kind_sum F (lot_id lot) Allocated \<le> i64_MAX"
  shows "\<exists>prov fin. lot_progress F (lot_id lot) = (Ok (prov, fin) :: (StoreError, int \<times> int) outcome) \<and>
    0 \<le> prov \<and> 0 \<le> fin \<and> prov + fin \<le> lot_amount_micro lot \<and>
    prov + fin + kind_sum F (lot_id lot) Reversed = kind_sum F (lot_id lot) Allocated"
proof -
  have inv: "credit_inv L F" using assms(1) by (rule credit_reachable_inv)
  then have wf: "wf_log F" by (simp add: credit_inv_def)
  have "used F (lot_id lot) \<le> lot_amount_micro lot" using inv assms(2) by (simp add: credit_inv_def)
  moreover have "0 \<le> kind_sum F (lot_id lot) Finalized"
    by (rule kind_sum_nonneg) (use wf in \<open>simp add: wf_log_def\<close>)
  ultimately show ?thesis
    using lot_progress_total[OF wf assms(3), where 'e = StoreError] live_sum_nonneg[OF wf, of "lot_id lot"]
      log_balance[OF wf, of "lot_id lot"]
    by (intro exI[of _ "live_sum F (lot_id lot)"] exI[of _ "kind_sum F (lot_id lot) Finalized"])
       (simp add: used_def)
qed

definition demo_lot :: CreditLotRow where
  "demo_lot = \<lparr>lot_id = 1, lot_user = 2, lot_source = [], lot_amount_micro = 100, granted_at = 0,
     grant_class = RealMoney, policy_version = [], converted_at = None\<rparr>"

definition demo_fact :: AllocationFact where
  "demo_fact = \<lparr>al_id = 7, al_trade_id = 3, al_lot_id = 1, al_split_seq = 0, al_amount_micro = 30,
     al_kind = Allocated, source_allocation_id = None,
     al_idempotency_key = alloc_key (\<lambda>u. replicate (unat u) 120) 3 1\<rparr>"

lemma demo_plan:
  "plan_trade_allocations (user_lots 2 [demo_lot]) (user_facts (user_lots 2 [demo_lot]) []) 3 30
     (demo_world State_default (demo_ops []) 7 0) =
   (Ok [demo_fact], (demo_world State_default (demo_ops []) 7 0)\<lparr>uuids := \<lambda>n. of_nat (7 + Suc n)\<rparr>)"
  by (simp add: plan_trade_allocations_def seq_def lift_def plan_capacities_def user_lots_def user_facts_def
      demo_lot_def lot_remaining_def lot_progress_def width_defs split_oldest_first_def plan_one_def
      check_allocate_def new_v4_def asks_def ret_def demo_world_def demo_fact_def)

lemma demo_insert: "try_fold log_insert [demo_fact] [] = Ok [demo_fact]"
  by (simp add: log_insert_def check_insert_def demo_fact_def check_allocate_def)

definition demo_final :: AllocationFact where
  "demo_final = terminal_child (\<lambda>u. replicate (unat u) 120) (lit ''final'') Finalized 3 8 demo_fact"

lemma demo_reachable: "credit_reachable [demo_lot] [demo_fact, demo_final]"
proof -
  have "credit_reachable [demo_lot] []"
    using credit_reachable.grant[OF credit_reachable.start, of demo_lot] by (simp add: demo_lot_def)
  then have "credit_reachable [demo_lot] [demo_fact]"
    by (rule credit_reachable.trade[OF _ demo_plan _ _ demo_insert]) simp_all
  then show ?thesis
  proof (rule credit_reachable.finish)
    show "demo_fact \<in> set (live_of (filter (\<lambda>f. al_trade_id f = 3) [demo_fact]))"
      by (simp add: live_of_def demo_fact_def List.map_filter_def)
    show "terminal_prefix Finalized = Ok (lit ''final'')" by simp
    show "8 \<notin> al_id ` set [demo_fact]" by (simp add: demo_fact_def)
    show "log_insert [demo_fact] (terminal_child (\<lambda>u. replicate (unat u) 120) (lit ''final'') Finalized 3 8 demo_fact) =
      Ok [demo_fact, demo_final]"
      unfolding demo_final_def
      by (simp add: log_insert_def check_insert_def check_terminal_def terminal_child_def demo_fact_def alloc_key_def lit_def)
  qed
qed

theorem credit_lots_never_overdrawn_witness:
  "\<exists>prov fin. lot_progress [demo_fact, demo_final] 1 = (Ok (prov, fin) :: (StoreError, int \<times> int) outcome) \<and>
     0 \<le> prov \<and> 0 \<le> fin \<and> prov + fin \<le> 100 \<and> prov + fin + 0 = 30"
  using credit_lots_never_overdrawn[OF demo_reachable, of demo_lot]
  by (simp add: demo_lot_def demo_fact_def demo_final_def terminal_child_def)

end
