(* ===== verification/Enforcement.thy ===== *)
theory Enforcement
  imports Store
begin

text \<open>
  Model of the money gate, \<open>application/src/money/enforcement.rs\<close>, with the compliance reads it makes of the
  store (\<open>fakes/credit.rs\<close>) and the shadow caps of \<open>money/statuses.rs\<close>. The gate reads every fact once
  (\<open>gate_snapshot\<close>) and decides by a pure function of the snapshot (\<open>decide_money_mutation\<close>).
\<close>

section \<open>Compliance reads\<close>

definition user_status :: "user_id \<Rightarrow> ustring tx" where
  "user_status user =
     asks (\<lambda>w. case map_of (user_statuses (phase7 (committed w))) user of Some s \<Rightarrow> s | None \<Rightarrow> lit ''active'')"

definition user_kyc_tier :: "user_id \<Rightarrow> i32 tx" where
  "user_kyc_tier user =
     asks (\<lambda>w. case map_of (kyc_tiers (phase7 (committed w))) user of Some t \<Rightarrow> t | None \<Rightarrow> 2)"

text \<open>Without a persisted screening fact the store answers that the user is clear.\<close>

definition fresh_clear :: "user_id \<Rightarrow> ustring \<Rightarrow> time \<Rightarrow> bool tx" where
  "fresh_clear user context' now =
     asks (\<lambda>w. case find (\<lambda>(u, ctx, _). u = user \<and> ctx = context') (rev (screens (phase7 (committed w)))) of
         Some (_, _, v) \<Rightarrow> allows_progress v now
       | None \<Rightarrow> True)"

definition self_excluded :: "user_id \<Rightarrow> time \<Rightarrow> bool tx" where
  "self_excluded user now =
     asks (\<lambda>w. case map_of (exclusions (phase7 (committed w))) user of Some until \<Rightarrow> now < until | None \<Rightarrow> False)"

definition deposit_limit_micro :: "user_id \<Rightarrow> i64 option tx" where
  "deposit_limit_micro user = asks (\<lambda>w. map_of (deposit_limits (phase7 (committed w))) user)"

definition required_config_flag :: "ustring \<Rightarrow> bool tx" where
  "required_config_flag key =
     inquire (\<lambda>w. ok_or (map_of (flags (phase7 (committed w))) key)
       (Invariant ''required money config missing or malformed''))"

definition config_i64 :: "ustring \<Rightarrow> i64 option tx" where
  "config_i64 key = asks (\<lambda>w. map_of (ints (phase7 (committed w))) key)"

definition required_i64 :: "ustring \<Rightarrow> i64 tx" where
  "required_i64 key =
     seq (config_i64 key) (\<lambda>v. lift (ok_or v (Invariant ''required money config missing or malformed'')))"

section \<open>The gate\<close>

datatype MoneyMutation = GatePlaceTrade | GateCastVote | GateDepositAdmit | GateCreditGrant

datatype UserMoneyStatus = Active | ShadowLimited | Banned

definition UserMoneyStatus_parse :: "ustring \<Rightarrow> UserMoneyStatus" where
  "UserMoneyStatus_parse value =
     (if value = lit ''banned'' then Banned
      else if value = lit ''shadow_limited'' then ShadowLimited
      else Active)"

record MoneyGateSnapshot =
  gate_status :: UserMoneyStatus
  gate_self_excluded :: bool
  gate_kyc_tier :: i64
  required_kyc_tier :: i64
  geo_clear :: bool
  sanctions_clear :: bool
  gate_deposit_limit_micro :: "i64 option"
  deposits_paused :: bool
  shadow_trade_cap_micro :: i64
  shadow_deposit_cap_micro :: i64

definition gate_snapshot :: "user_id \<Rightarrow> time \<Rightarrow> MoneyGateSnapshot tx" where
  "gate_snapshot user now =
     seq (user_status user) (\<lambda>status.
     seq (self_excluded user now) (\<lambda>excluded.
     seq (user_kyc_tier user) (\<lambda>kyc.
     seq (required_i64 (lit ''deposit_kyc_tier'')) (\<lambda>required.
     seq (fresh_clear user (lit ''geo'') now) (\<lambda>geo.
     seq (fresh_clear user (lit ''sanctions'') now) (\<lambda>sanctions.
     seq (deposit_limit_micro user) (\<lambda>limit.
     seq (required_config_flag (lit ''pause_deposits'')) (\<lambda>paused.
     seq (required_i64 (lit ''shadow_trade_cap_micro'')) (\<lambda>trade_cap.
     seq (required_i64 (lit ''shadow_deposit_cap_micro'')) (\<lambda>deposit_cap.
     ret \<lparr>gate_status = UserMoneyStatus_parse status, gate_self_excluded = excluded, gate_kyc_tier = kyc,
       required_kyc_tier = required, geo_clear = geo, sanctions_clear = sanctions,
       gate_deposit_limit_micro = limit, deposits_paused = paused, shadow_trade_cap_micro = trade_cap,
       shadow_deposit_cap_micro = deposit_cap\<rparr>))))))))))"

definition homogeneous_cap_exceeded :: "i64 \<Rightarrow> i64 \<times> u8" where
  "homogeneous_cap_exceeded cap_micro = (cap_micro, 0)"

definition shadow_refusal :: "i64 \<Rightarrow> AppError" where
  "shadow_refusal cap_micro = (case homogeneous_cap_exceeded cap_micro of (cap, tier) \<Rightarrow> PositionCapExceeded cap tier)"

definition decide_money_mutation ::
  "MoneyGateSnapshot \<Rightarrow> MoneyMutation \<Rightarrow> i64 \<Rightarrow> (AppError, unit) outcome" where
  "decide_money_mutation snap kind amount_micro =
     (if gate_status snap = Banned \<and> kind \<noteq> GateDepositAdmit then Err (MoneyForbidden ''user banned'')
      else if gate_self_excluded snap then Err (MoneyForbidden ''self-excluded'')
      else case kind of
        GateDepositAdmit \<Rightarrow>
          (if deposits_paused snap then Err DepositsPaused
           else if gate_kyc_tier snap < required_kyc_tier snap then Err (ComplianceHold ''kyc'')
           else if \<not> geo_clear snap then Err (ComplianceHold ''geo'')
           else if \<not> sanctions_clear snap then Err (ComplianceHold ''sanctions'')
           else if (case gate_deposit_limit_micro snap of Some limit \<Rightarrow> limit < amount_micro | None \<Rightarrow> False)
             then Err (ComplianceHold ''deposit_limit'')
           else if gate_status snap = ShadowLimited \<and> shadow_deposit_cap_micro snap < amount_micro
             then Err (shadow_refusal (shadow_deposit_cap_micro snap))
           else Ok ())
      | GatePlaceTrade \<Rightarrow>
          (if gate_kyc_tier snap < required_kyc_tier snap then Err (MoneyForbidden ''kyc'')
           else if \<not> geo_clear snap then Err (MoneyForbidden ''geo'')
           else if \<not> sanctions_clear snap then Err (MoneyForbidden ''sanctions'')
           else if gate_status snap = ShadowLimited \<and> shadow_trade_cap_micro snap < amount_micro
             then Err (shadow_refusal (shadow_trade_cap_micro snap))
           else Ok ())
      | GateCastVote \<Rightarrow> (if \<not> geo_clear snap then Err (MoneyForbidden ''geo'') else Ok ())
      | GateCreditGrant \<Rightarrow> (if gate_status snap \<noteq> Active then Err (MoneyForbidden ''status'') else Ok ()))"

definition enforce_money_mutation :: "user_id \<Rightarrow> MoneyMutation \<Rightarrow> i64 \<Rightarrow> time \<Rightarrow> unit app" where
  "enforce_money_mutation user kind amount_micro now =
     seq (store (gate_snapshot user now)) (\<lambda>snap. lift (decide_money_mutation snap kind amount_micro))"

section \<open>Properties of the gate\<close>

lemma quiet_gate [quiet_intros]:
  "framed quiet (gate_snapshot user now)" "framed quiet (enforce_money_mutation user kind amount now)"
  unfolding enforce_money_mutation_def gate_snapshot_def user_status_def self_excluded_def user_kyc_tier_def
    required_i64_def config_i64_def fresh_clear_def deposit_limit_micro_def required_config_flag_def
  by (intro quiet_intros quiet.framed_rules)+

definition cleared :: "MoneyGateSnapshot \<Rightarrow> bool" where
  "cleared snap \<longleftrightarrow> required_kyc_tier snap \<le> gate_kyc_tier snap \<and> geo_clear snap \<and> sanctions_clear snap"

definition within_cap :: "MoneyGateSnapshot \<Rightarrow> i64 \<Rightarrow> i64 \<Rightarrow> bool" where
  "within_cap snap cap amount \<longleftrightarrow> gate_status snap = ShadowLimited \<longrightarrow> amount \<le> cap"

text \<open>What the gate lets through, kind by kind.\<close>

fun admissible :: "MoneyGateSnapshot \<Rightarrow> MoneyMutation \<Rightarrow> i64 \<Rightarrow> bool" where
  "admissible snap GateDepositAdmit amount \<longleftrightarrow>
     cleared snap \<and> \<not> deposits_paused snap \<and> within_cap snap (shadow_deposit_cap_micro snap) amount \<and>
     (case gate_deposit_limit_micro snap of Some limit \<Rightarrow> amount \<le> limit | None \<Rightarrow> True)"
| "admissible snap GatePlaceTrade amount \<longleftrightarrow>
     cleared snap \<and> gate_status snap \<noteq> Banned \<and> within_cap snap (shadow_trade_cap_micro snap) amount"
| "admissible snap GateCastVote amount \<longleftrightarrow> geo_clear snap \<and> gate_status snap \<noteq> Banned"
| "admissible snap GateCreditGrant amount \<longleftrightarrow> gate_status snap = Active"

lemma decide_iff:
  "decide_money_mutation snap kind amount = Ok () \<longleftrightarrow> \<not> gate_self_excluded snap \<and> admissible snap kind amount"
  by (cases kind; cases "gate_status snap"; cases "gate_deposit_limit_micro snap")
     (auto simp: decide_money_mutation_def cleared_def within_cap_def)


end
