(* ===== verification/Collection.thy ===== *)
theory Collection
  imports Credits Enforcement
begin

text \<open>
  What a user owes the house and what the house owes the user in credit. Receivables are opened by market
  unwinds and collected from the user's cash before a money path goes on (\<open>auto_collect\<close>,
  application/src/ops/receivable_collection.rs); credit lots whose promise is finalized are paid out lazily
  (\<open>convert_then_collect\<close>, application/src/fakes/credit.rs).

  The relation \<open>side\<close> bounds what such a step may buffer: ledger transactions on accounts that are no
  market's escrow, receivable movements and credit rows.
\<close>

section \<open>Receivables\<close>

definition movement_step :: "i64 \<Rightarrow> ReceivableMovement \<Rightarrow> i64" where
  "movement_step total' m =
     (case mv_kind m of
        Opened \<Rightarrow> saturate_i64 (total' + mv_amount_micro m)
      | _ \<Rightarrow> saturate_i64 (total' - mv_amount_micro m))"

definition outstanding_of :: "ReceivableMovement list \<Rightarrow> uuid \<Rightarrow> i64" where
  "outstanding_of ms receivable = foldl movement_step 0 (filter (\<lambda>m. mv_receivable m = receivable) ms)"

definition outstanding_view :: "world \<Rightarrow> uuid \<Rightarrow> i64" where
  "outstanding_view w receivable =
     saturate_i64 (outstanding_of (movements (phase6 (committed w))) receivable +
       outstanding_of (p_movement_inserts (p_phase6 (pending w))) receivable)"

definition open_receivables_for_user :: "user_id \<Rightarrow> (Receivable \<times> i64) list tx" where
  "open_receivables_for_user user =
     asks (\<lambda>w.
       let rows = List.map_filter (map_of (receivables (phase6 (committed w)))) (receivable_order (phase6 (committed w))) @
             p_receivable_inserts (p_phase6 (pending w)) in
       filter (\<lambda>(_, outstanding). 0 < outstanding)
         (map (\<lambda>r. (r, outstanding_view w (rv_id r))) (filter (\<lambda>r. rv_user r = user) rows)))"

definition insert_receivable_movement :: "ReceivableMovement \<Rightarrow> unit tx" where
  "insert_receivable_movement m =
     (if mv_amount_micro m \<le> 0 then fail (Invariant ''non-positive receivable movement'')
      else
        seq (asks (\<lambda>w. mv_idempotency_key m \<in> set (movement_keys (phase6 (committed w))) \<or>
               list_ex (\<lambda>x. mv_idempotency_key x = mv_idempotency_key m) (p_movement_inserts (p_phase6 (pending w)))))
          (\<lambda>key_taken.
        if key_taken then fail (Conflict ''receivable movement key'')
        else buffer (\<lambda>p. p\<lparr>p_phase6 := (p_phase6 p)\<lparr>p_movement_inserts := p_movement_inserts (p_phase6 p) @ [m]\<rparr>\<rparr>)))"

section \<open>Automatic collection\<close>

definition collect_key :: "ustring \<Rightarrow> ustring" where
  "collect_key deposit_key = lit ''recv-collect:'' @ deposit_key"

fun collect_loop :: "ustring \<Rightarrow> ustring \<Rightarrow> uuid \<Rightarrow> (Receivable \<times> i64) list \<Rightarrow> i64 \<Rightarrow> unit tx" where
  "collect_loop deposit_key actor txn [] remaining = ret ()"
| "collect_loop deposit_key actor txn ((r, outstanding) # rows) remaining =
     (if remaining = 0 then ret ()
      else
        let take' = min remaining outstanding in
        seq new_v4 (\<lambda>new_id.
        seq (asks uuid_string) (\<lambda>show_uuid.
        seq (insert_receivable_movement
          \<lparr>mv_id = new_id, mv_receivable = rv_id r, mv_kind = Collected, mv_amount_micro = take',
           mv_actor = actor, cash_txn = Some txn,
           mv_idempotency_key = collect_key deposit_key @ lit '':'' @ show_uuid (rv_id r)\<rparr>) (\<lambda>_.
        collect_loop deposit_key actor txn rows (remaining - take')))))"

definition auto_collect :: "user_id \<Rightarrow> ustring \<Rightarrow> ustring \<Rightarrow> i64 app" where
  "auto_collect user deposit_key actor =
     seq (store (open_receivables_for_user user)) (\<lambda>open_rows.
     seq (lift (try_fold (\<lambda>sum (_, outstanding). ok_or (checked fits_i64 (sum + outstanding)) AppOverflow) open_rows 0)) (\<lambda>owed.
     if owed = 0 then ret 0
     else
       seq (store (account (UserOwner user) Usdc)) (\<lambda>user_account.
       seq (store (account_balance user_account)) (\<lambda>b.
       let collect = min owed (max 0 b) in
       if collect = 0 then ret 0
       else
         seq (store (account HouseOwner Usdc)) (\<lambda>house.
         seq (store (ledger_apply Reversal (collect_key deposit_key)
            [\<lparr>entry_account = user_account, entry_amount = - collect\<rparr>,
             \<lparr>entry_account = house, entry_amount = collect\<rparr>])) (\<lambda>txn.
         seq (store (collect_loop deposit_key actor txn open_rows collect)) (\<lambda>_.
         ret collect)))))))"

section \<open>Lazy conversion\<close>

definition convert_key :: "(uuid \<Rightarrow> ustring) \<Rightarrow> uuid \<Rightarrow> ustring" where
  "convert_key show_uuid lot = lit ''credit-convert:'' @ show_uuid lot"

definition convert_pay_key :: "(uuid \<Rightarrow> ustring) \<Rightarrow> uuid \<Rightarrow> ustring" where
  "convert_pay_key show_uuid lot = lit ''credit-convert-pay:'' @ show_uuid lot"

text \<open>One lot: retire the user's credit to the house, then pay the same amount in cash from the reserve.\<close>

definition convert_lot :: "user_id \<Rightarrow> time \<Rightarrow> CreditLotRow \<Rightarrow> (uuid \<times> uuid) app" where
  "convert_lot user now lot =
     seq (store (account (UserOwner user) UsdcCredit)) (\<lambda>user_credit.
     seq (store (account HouseOwner UsdcCredit)) (\<lambda>house_credit.
     seq (store (account BonusReserveOwner Usdc)) (\<lambda>reserve.
     seq (store (account (UserOwner user) Usdc)) (\<lambda>user_cash.
     seq (asks uuid_string) (\<lambda>show_uuid.
     seq (lift (arith fits_i64 (- lot_amount_micro lot))) (\<lambda>minus.
     seq (store (ledger_apply CreditConvert (convert_key show_uuid (lot_id lot))
        [\<lparr>entry_account = user_credit, entry_amount = minus\<rparr>,
         \<lparr>entry_account = house_credit, entry_amount = lot_amount_micro lot\<rparr>])) (\<lambda>retire_txn.
     seq (store (ledger_apply CreditConvert (convert_pay_key show_uuid (lot_id lot))
        [\<lparr>entry_account = reserve, entry_amount = minus\<rparr>,
         \<lparr>entry_account = user_cash, entry_amount = lot_amount_micro lot\<rparr>])) (\<lambda>pay_txn.
     seq (store (mark_lot_converted (lot_id lot) now)) (\<lambda>_.
     ret (retire_txn, pay_txn))))))))))"

definition convert_step ::
  "user_id \<Rightarrow> time \<Rightarrow> i64 \<times> u32 \<times> CreditConversionTxn list \<Rightarrow> CreditLotRow \<Rightarrow>
     (i64 \<times> u32 \<times> CreditConversionTxn list) app" where
  "convert_step user now acc lot =
     (case acc of (converted, n, txns) \<Rightarrow>
     seq (asks uuid_string) (\<lambda>show_uuid.
     seq (store (txn_by_key (convert_key show_uuid (lot_id lot)))) (\<lambda>retire.
     seq (store (txn_by_key (convert_pay_key show_uuid (lot_id lot)))) (\<lambda>pay.
     case (retire, pay) of
       (Some retire_txn, Some pay_txn) \<Rightarrow>
         ret (converted, n, txns @ [\<lparr>cv_lot_id = lot_id lot, cv_retire_txn = retire_txn, cv_pay_txn = pay_txn,
           cv_replayed = True\<rparr>])
     | (None, None) \<Rightarrow>
         seq (store (allocations_for_lot (lot_id lot))) (\<lambda>facts.
         seq (lift (lot_ready_to_convert lot facts)) (\<lambda>ready.
         if \<not> ready then ret acc
         else
           seq (convert_lot user now lot) (\<lambda>(retire_txn, pay_txn).
           seq (lift (arith fits_i64 (converted + lot_amount_micro lot))) (\<lambda>converted.
           seq (lift (arith fits_u32 (n + 1))) (\<lambda>n.
           ret (converted, n, txns @ [\<lparr>cv_lot_id = lot_id lot, cv_retire_txn = retire_txn,
             cv_pay_txn = pay_txn, cv_replayed = False\<rparr>]))))))
     | _ \<Rightarrow> fail (AppStore (Invariant ''credit conversion has only one ledger transaction''))))))"

definition convert_then_collect :: "user_id \<Rightarrow> time \<Rightarrow> ustring \<Rightarrow> ConvertCollectReceipt app" where
  "convert_then_collect user now key =
     seq (store (lots_for_user user)) (\<lambda>lots'.
     seq (for_fold (convert_step user now) lots' (0, 0, [])) (\<lambda>(converted, n, txns).
     seq (auto_collect user key (lit ''machine:convert:'' @ key)) (\<lambda>collected.
     ret \<lparr>converted_micro = converted, collected_micro = collected, lots_converted = n, conversion_txns = txns\<rparr>)))"

section \<open>Frames\<close>

lemma quiet_credit_rows [quiet_intros]:
  "framed quiet (insert_credit_lot lot)" "framed quiet (lots_for_user u)" "framed quiet (lot_by_idempotency k)"
  "framed quiet (remember_lot_idempotency k i)" "framed quiet (mark_lot_converted i at)"
  "framed quiet (insert_allocation f)" "framed quiet (allocations_for_lot i)"
  "framed quiet (live_allocations_for_trade i)"
  unfolding insert_credit_lot_def lots_for_user_def lot_by_idempotency_def remember_lot_idempotency_def
    mark_lot_converted_def insert_allocation_def allocations_for_lot_def live_allocations_for_trade_def
  by (intro quiet_intros quiet.framed_rules)+

lemma quiet_move [quiet_intros]: "framed quiet (move_market_fee_allocations market kind)"
  unfolding move_market_fee_allocations_def move_one_def
  by (intro quiet_intros quiet.framed_rules)

lemma quiet_plan [quiet_intros]: "framed quiet (plan_trade_allocations L facts tr fee)"
  unfolding plan_trade_allocations_def plan_one_def
  by (intro quiet_intros quiet.framed_rules)

lemma quiet_receivables [quiet_intros]:
  "framed quiet (open_receivables_for_user u)" "framed quiet (insert_receivable_movement m)"
  unfolding open_receivables_for_user_def insert_receivable_movement_def
  by (intro quiet_intros quiet.framed_rules)+

lemma quiet_collect_loop [quiet_intros]: "framed quiet (collect_loop k a t rows n)"
proof (induction rows arbitrary: n)
  case (Cons row rows)
  obtain r outstanding where "row = (r, outstanding)" by force
  with Cons show ?case by (auto intro!: quiet_intros quiet.framed_rules)
qed (auto intro: quiet.framed_rules)

lemma quiet_auto_collect [quiet_intros]: "framed quiet (auto_collect u k a)"
  unfolding auto_collect_def by (intro quiet_intros quiet.framed_rules)

lemma quiet_convert_step [quiet_intros]: "framed quiet (convert_step u now acc lot)"
  unfolding convert_step_def convert_lot_def
  by (intro quiet_intros quiet.framed_rules)

lemma quiet_convert_then_collect [quiet_intros]: "framed quiet (convert_then_collect u now k)"
  unfolding convert_then_collect_def by (intro quiet_intros quiet.framed_rules)

section \<open>Successful runs\<close>

lemma new_v4_iff [run_simps]:
  "new_v4 w = (r, w') \<longleftrightarrow> r = Ok (uuids w 0) \<and> w' = w\<lparr>uuids := \<lambda>n. uuids w (Suc n)\<rparr>"
  by (auto simp: new_v4_def)

lemma clock_now_iff [run_simps]:
  "clock_now w = (r, w') \<longleftrightarrow> r = Ok (clock w 0) \<and> w' = w\<lparr>clock := \<lambda>n. clock w (Suc n)\<rparr>"
  by (auto simp: clock_now_def)

lemma now_utc_iff [run_simps]:
  "now_utc w = (r, w') \<longleftrightarrow> r = Ok (utc w 0) \<and> w' = w\<lparr>utc := \<lambda>n. utc w (Suc n)\<rparr>"
  by (auto simp: now_utc_def)

lemma buffer_iff [run_simps]: "buffer f w = (r, w') \<longleftrightarrow> r = Ok () \<and> w' = w\<lparr>pending := f (pending w)\<rparr>"
  by (auto simp: buffer_def run_simps)

lemma store_Ok_iff [run_simps]: "store m w = (Ok x, w') \<longleftrightarrow> m w = (Ok x, w')"
  by (simp add: store_def run_simps)

lemma account_Ok:
  assumes "account owner currency w = (Ok a, w')"
  shows "quiet w w' \<and> pending w' = pending w \<and> map_of (s_accounts (committed w')) (owner, currency) = Some a"
proof -
  have "quiet w w'" using framedD[OF quiet_account assms] .
  then show ?thesis using assms
    by (cases "map_of (s_accounts (committed w)) (owner, currency)")
       (auto simp: account_def run_simps put_account_def update_conv')
qed

definition booked :: "ustring \<Rightarrow> uuid \<Rightarrow> TxnKind \<Rightarrow> Entry list \<Rightarrow> time \<Rightarrow> PendingTxn" where
  "booked key i kind es at =
     \<lparr>pt_key = key, pt_id = i, pt_txn = \<lparr>txn_kind = kind, txn_entries = es\<rparr>, pt_created_at = at\<rparr>"

lemma ledger_apply_Ok:
  assumes "ledger_apply kind key es w = (Ok i, w')"
  shows "committed w' = committed w \<and> i = uuids w 0 \<and>
    pending w' = (pending w)\<lparr>p_txns := p_txns (pending w) @ [booked key i kind es (utc w 0)]\<rparr>"
  using assms
  by (cases "Transaction_new kind es")
     (auto simp: ledger_apply_def validate_against_current_def run_simps booked_def split: if_splits dest!: Transaction_new_Ok)

text \<open>
  Side business of a money path: before its own writes, a transaction may buffer ledger transactions on
  accounts that are not a market's escrow, receivable movements and credit rows.
\<close>

definition plain :: "State \<Rightarrow> account_id \<Rightarrow> bool" where
  "plain s a \<longleftrightarrow> (\<exists>owner currency. map_of (s_accounts s) (owner, currency) = Some a \<and> (\<forall>m. owner \<noteq> MarketEscrow m))"

definition plain_txn :: "State \<Rightarrow> PendingTxn \<Rightarrow> bool" where
  "plain_txn s t \<longleftrightarrow> wf_entries (txn_entries (pt_txn t)) \<and> list_all (\<lambda>e. plain s (entry_account e)) (txn_entries (pt_txn t))"

definition side :: "world \<Rightarrow> world \<Rightarrow> bool" where
  "side w w' \<longleftrightarrow> quiet w w' \<and>
     (\<exists>ts p6 p7. pending w' = (pending w)\<lparr>p_txns := p_txns (pending w) @ ts, p_phase6 := p6, p_phase7 := p7\<rparr> \<and>
        list_all (plain_txn (committed w')) ts)"

lemma quiet_accounts:
  "quiet w w' \<Longrightarrow> map_of (s_accounts (committed w)) k = Some a \<Longrightarrow> map_of (s_accounts (committed w')) k = Some a"
  by (cases k) (auto simp: quiet_def)

lemma plain_mono: "quiet w w' \<Longrightarrow> plain (committed w) a \<Longrightarrow> plain (committed w') a"
  unfolding plain_def by (blast intro: quiet_accounts)

lemma plain_txn_mono: "quiet w w' \<Longrightarrow> plain_txn (committed w) t \<Longrightarrow> plain_txn (committed w') t"
  unfolding plain_txn_def by (auto simp: list_all_iff intro: plain_mono)

interpretation side: frame side
proof
  fix w :: world
  show "side w w" unfolding side_def
    by (intro conjI exI[of _ "[]"] exI[of _ "p_phase6 (pending w)"] exI[of _ "p_phase7 (pending w)"]) auto
next
  fix u v w :: world
  assume uv: "side u v" and vw: "side v w"
  then obtain ts p6 p7 ts' p6' p7' where
    1: "pending v = (pending u)\<lparr>p_txns := p_txns (pending u) @ ts, p_phase6 := p6, p_phase7 := p7\<rparr>"
    "list_all (plain_txn (committed v)) ts" and
    2: "pending w = (pending v)\<lparr>p_txns := p_txns (pending v) @ ts', p_phase6 := p6', p_phase7 := p7'\<rparr>"
    "list_all (plain_txn (committed w)) ts'"
    unfolding side_def by blast
  have q: "quiet u v" "quiet v w" using uv vw by (simp_all add: side_def)
  have "list_all (plain_txn (committed w)) (ts @ ts')"
    using 1(2) 2(2) plain_txn_mono[OF q(2)] by (auto simp: list_all_iff)
  moreover have "pending w = (pending u)\<lparr>p_txns := p_txns (pending u) @ (ts @ ts'), p_phase6 := p6', p_phase7 := p7'\<rparr>"
    using 1(1) 2(1) by simp
  ultimately show "side u w" unfolding side_def using quiet.trans[OF q] by blast
qed

lemma side_quiet: "side w w' \<Longrightarrow> quiet w w'"
  by (simp add: side_def)

lemma side_same: "quiet w w' \<Longrightarrow> pending w' = pending w \<Longrightarrow> side w w'"
  unfolding side_def
  by (intro conjI exI[of _ "[]"] exI[of _ "p_phase6 (pending w)"] exI[of _ "p_phase7 (pending w)"]) auto

lemma side_account: "account owner currency w = (Ok a, w') \<Longrightarrow> side w w'"
  using account_Ok side_same by blast

lemma side_ledger_apply:
  assumes "ledger_apply kind key es w = (Ok i, w')" "wf_entries es" "list_all (\<lambda>e. plain (committed w) (entry_account e)) es"
  shows "side w w'"
proof -
  have q: "quiet w w'" using framedD[OF quiet_writes(1) assms(1)] .
  have "plain_txn (committed w') (booked key i kind es (utc w 0))"
    using assms(2,3) ledger_apply_Ok[OF assms(1)] by (simp add: plain_txn_def booked_def)
  then show ?thesis
    unfolding side_def using q ledger_apply_Ok[OF assms(1)]
    by (intro conjI exI[of _ "[booked key i kind es (utc w 0)]"] exI[of _ "p_phase6 (pending w)"]
        exI[of _ "p_phase7 (pending w)"]) auto
qed

lemma side_buffer:
  assumes "\<And>p. \<exists>p6 p7. f p = p\<lparr>p_phase6 := p6, p_phase7 := p7\<rparr>"
  shows "framed side (buffer f)"
  unfolding buffer_def
proof (rule side.framed_modify)
  fix w :: world
  obtain p6 p7 where "f (pending w) = (pending w)\<lparr>p_phase6 := p6, p_phase7 := p7\<rparr>" using assms by blast
  then show "side w (w\<lparr>pending := f (pending w)\<rparr>)"
    unfolding side_def
    by (intro conjI exI[of _ "[]"] exI[of _ p6] exI[of _ p7]) (auto intro: quiet_same)
qed

lemma side_phase6: "framed side (buffer (\<lambda>p. p\<lparr>p_phase6 := g p\<rparr>))"
proof (rule side_buffer)
  fix p :: Pending
  show "\<exists>p6 p7. p\<lparr>p_phase6 := g p\<rparr> = p\<lparr>p_phase6 := p6, p_phase7 := p7\<rparr>"
    by (intro exI[of _ "g p"] exI[of _ "p_phase7 p"]) simp
qed

lemma side_phase7: "framed side (buffer (\<lambda>p. p\<lparr>p_phase7 := g p\<rparr>))"
proof (rule side_buffer)
  fix p :: Pending
  show "\<exists>p6 p7. p\<lparr>p_phase7 := g p\<rparr> = p\<lparr>p_phase6 := p6, p_phase7 := p7\<rparr>"
    by (intro exI[of _ "p_phase6 p"] exI[of _ "g p"]) simp
qed

section \<open>What collection collects\<close>

definition open_caps :: "(Receivable \<times> i64) list \<Rightarrow> LotCapacity list" where
  "open_caps rows = map (\<lambda>(r, outstanding). \<lparr>cap_lot_id = rv_id r, remaining_micro = outstanding\<rparr>) rows"

text \<open>The movements an automatic collection writes: every slice of the waterfall, against one cash transaction.\<close>

definition collection_of :: "(Receivable \<times> i64) list \<Rightarrow> i64 \<Rightarrow> uuid \<Rightarrow> ustring \<Rightarrow> ReceivableMovement list \<Rightarrow> bool" where
  "collection_of rows cash txn actor ms \<longleftrightarrow>
     map (\<lambda>m. (mv_receivable m, 0, mv_amount_micro m)) ms = waterfall (open_caps rows) cash \<and>
     list_all (\<lambda>m. mv_kind m = Collected \<and> cash_txn m = Some txn \<and> mv_actor m = actor) ms"

definition with_movements :: "ReceivableMovement list \<Rightarrow> Pending \<Rightarrow> Pending" where
  "with_movements ms p = p\<lparr>p_phase6 := (p_phase6 p)\<lparr>p_movement_inserts := p_movement_inserts (p_phase6 p) @ ms\<rparr>\<rparr>"

lemma insert_receivable_movement_Ok:
  "insert_receivable_movement m w = (Ok u, w') \<Longrightarrow>
     0 < mv_amount_micro m \<and> w' = w\<lparr>pending := with_movements [m] (pending w)\<rparr>"
  by (auto simp: insert_receivable_movement_def run_simps with_movements_def split: if_splits)

lemma collect_loop_Ok:
  assumes "collect_loop k actor txn rows n w = (Ok u, w')" "0 \<le> n" "list_all (\<lambda>(_, outstanding). 0 < outstanding) rows"
  shows "\<exists>ms. pending w' = with_movements ms (pending w) \<and> collection_of rows n txn actor ms"
  using assms
proof (induction rows arbitrary: n w)
  case Nil
  then show ?case
    by (intro exI[of _ "[]"]) (simp add: run_simps with_movements_def collection_of_def open_caps_def waterfall_def)
next
  case (Cons row rows)
  obtain r out where row: "row = (r, out)" by force
  have out: "0 < out" using Cons.prems row by simp
  show ?case
  proof (cases "n = 0")
    case True
    with Cons.prems row show ?thesis
      by (intro exI[of _ "[]"]) (simp add: run_simps with_movements_def collection_of_def waterfall_dry)
  next
    case False
    let ?take = "min n out"
    define m where "m = \<lparr>mv_id = uuids w 0, mv_receivable = rv_id r, mv_kind = Collected, mv_amount_micro = ?take,
      mv_actor = actor, cash_txn = Some txn,
      mv_idempotency_key = collect_key k @ lit '':'' @ uuid_string w (rv_id r)\<rparr>"
    from Cons.prems row False obtain v where
      w1: "insert_receivable_movement m (w\<lparr>uuids := \<lambda>n. uuids w (Suc n)\<rparr>) = (Ok (), v)" and
      v2: "collect_loop k actor txn rows (n - ?take) v = (Ok u, w')"
      by (auto simp: run_simps Let_def m_def)
    then have v: "pending v = with_movements [m] (pending w)" by (auto dest: insert_receivable_movement_Ok)
    have "0 \<le> n - ?take" by simp
    from Cons.IH[OF v2 this] Cons.prems(3) obtain ms where
      ms: "pending w' = with_movements ms (pending v)" "collection_of rows (n - ?take) txn actor ms" by auto
    have "waterfall (open_caps (row # rows)) n = (rv_id r, 0, ?take) # waterfall (open_caps rows) (n - ?take)"
      using out False Cons.prems(2)
      by (cases "out \<le> n") (auto simp: row open_caps_def waterfall_Cons waterfall_dry Let_def min_def)
    then show ?thesis using ms v
      by (intro exI[of _ "m # ms"]) (simp add: collection_of_def with_movements_def m_def)
  qed
qed

definition owed_by :: "(Receivable \<times> i64) list \<Rightarrow> int" where
  "owed_by rows = sum_list (map snd rows)"

lemma owed_fold:
  assumes "try_fold (\<lambda>sum (_, outstanding). ok_or (checked fits_i64 (sum + outstanding)) AppOverflow) rows n = Ok owed"
  shows "owed = n + owed_by rows"
  using assms
proof (induction rows arbitrary: n)
  case (Cons row rows)
  obtain r out where row: "row = (r, out)" by force
  show ?case using Cons.prems Cons.IH[of "n + out"] by (auto simp: row owed_by_def)
qed (simp add: owed_by_def)

definition collects :: "user_id \<Rightarrow> ustring \<Rightarrow> ustring \<Rightarrow> (Receivable \<times> i64) list \<Rightarrow> i64 \<Rightarrow> world \<Rightarrow> world \<Rightarrow> bool" where
  "collects user key actor rows cash w w' \<longleftrightarrow>
     (\<exists>user_account house txn at ms.
        map_of (s_accounts (committed w')) (UserOwner user, Usdc) = Some user_account \<and>
        map_of (s_accounts (committed w')) (HouseOwner, Usdc) = Some house \<and>
        pending w' = with_movements ms ((pending w)\<lparr>p_txns := p_txns (pending w) @
          [booked (collect_key key) txn Reversal
             [\<lparr>entry_account = user_account, entry_amount = - cash\<rparr>, \<lparr>entry_account = house, entry_amount = cash\<rparr>] at]\<rparr>) \<and>
        collection_of rows cash txn actor ms \<and>
        sum_list (map mv_amount_micro ms) = cash)"

lemma open_rows_positive:
  "open_receivables_for_user user w = (Ok rows, w') \<Longrightarrow> w' = w \<and> list_all (\<lambda>(_, outstanding). 0 < outstanding) rows"
  by (auto simp: open_receivables_for_user_def run_simps Let_def list_all_iff)

lemma owed_positive: "list_all (\<lambda>(_, outstanding). 0 < outstanding) rows \<Longrightarrow>
    sum_list (map (\<lambda>c. max 0 (remaining_micro c)) (open_caps rows)) = owed_by rows \<and> 0 \<le> owed_by rows"
  by (induction rows) (auto simp: open_caps_def owed_by_def)

lemma collection_total:
  assumes "collection_of rows cash txn actor ms" "list_all (\<lambda>(_, outstanding). 0 < outstanding) rows"
    "0 \<le> cash" "cash \<le> owed_by rows"
  shows "sum_list (map mv_amount_micro ms) = cash"
proof -
  have "sum_list (map mv_amount_micro ms) =
      sum_list (map (\<lambda>(_, _, a). a) (map (\<lambda>m. (mv_receivable m, 0 :: int, mv_amount_micro m)) ms))"
    by (simp add: comp_def)
  also have "\<dots> = sum_list (map (\<lambda>(_, _, a). a) (waterfall (open_caps rows) cash))"
    using assms(1) by (simp add: collection_of_def)
  also have "\<dots> = cash" using assms owed_positive[OF assms(2)] by (simp add: waterfall_total)
  finally show ?thesis .
qed

lemma account_balance_frame: "account_balance a w = (r, w') \<Longrightarrow> w' = w"
  by (auto simp: account_balance_def run_simps)

lemma account_found:
  "map_of (s_accounts (committed w)) (owner, currency) = Some a \<Longrightarrow> account owner currency w = (Ok a, w)"
  by (simp add: account_def seq_def asks_def ret_def)

lemma auto_collect_runs:
  assumes "auto_collect user key actor w = (Ok c, w')" "open_receivables_for_user user w = (Ok rows, w)"
  shows "(owed_by rows = 0 \<and> c = 0 \<and> w' = w) \<or>
    (\<exists>a w1 b. owed_by rows \<noteq> 0 \<and> account (UserOwner user) Usdc w = (Ok a, w1) \<and> account_balance a w1 = (Ok b, w1) \<and>
       c = min (owed_by rows) (max 0 b) \<and>
       (c = 0 \<and> w' = w1 \<or>
        c \<noteq> 0 \<and> (\<exists>h w2 txn w3. account HouseOwner Usdc w1 = (Ok h, w2) \<and>
          ledger_apply Reversal (collect_key key)
            [\<lparr>entry_account = a, entry_amount = - c\<rparr>, \<lparr>entry_account = h, entry_amount = c\<rparr>] w2 = (Ok txn, w3) \<and>
          collect_loop key actor txn rows c w3 = (Ok (), w'))))"
proof -
  from assms obtain owed where owed:
    "try_fold (\<lambda>sum (_, outstanding). ok_or (checked fits_i64 (sum + outstanding)) AppOverflow) rows 0 = Ok owed"
    by (auto simp: auto_collect_def run_simps)
  then have "owed = owed_by rows" using owed_fold by fastforce
  with assms owed show ?thesis
    by (fastforce simp: auto_collect_def run_simps Let_def dest: account_balance_frame split: if_splits)
qed

text \<open>
  C17. Automatic collection of a user's receivables. When it returns, what it took is the smaller of what
  the open receivables add up to and what the user holds in cash, never more. Taking nothing writes
  nothing. Otherwise it books one ledger transaction that moves exactly that amount from the user to the
  house, and one Collected movement per receivable it reached, in order: each open receivable is paid in
  full before the next one gets anything, every movement names that transaction, and the movements add up
  to the cash.
\<close>

theorem auto_collect_exact:
  assumes "auto_collect user key actor w = (Ok c, w')"
    and "open_receivables_for_user user w = (Ok rows, w)"
    and "map_of (s_accounts (committed w)) (UserOwner user, Usdc) = Some a"
    and "account_balance a w = (Ok b, w)"
  shows "c = min (owed_by rows) (max 0 b) \<and>
    (if c = 0 then pending w' = pending w else 0 < c \<and> collects user key actor rows c w w')"
proof -
  have pos: "list_all (\<lambda>(_, outstanding). 0 < outstanding) rows" using open_rows_positive[OF assms(2)] by simp
  have nn: "0 \<le> owed_by rows" using owed_positive[OF pos] by simp
  have acct: "account (UserOwner user) Usdc w = (Ok a, w)" by (rule account_found[OF assms(3)])
  from auto_collect_runs[OF assms(1,2)] consider
    (nothing) "c = min (owed_by rows) (max 0 b)" "c = 0" "w' = w"
  | (some) h w2 txn w3 where "c = min (owed_by rows) (max 0 b)" "c \<noteq> 0" "account HouseOwner Usdc w = (Ok h, w2)"
    "ledger_apply Reversal (collect_key key)
       [\<lparr>entry_account = a, entry_amount = - c\<rparr>, \<lparr>entry_account = h, entry_amount = c\<rparr>] w2 = (Ok txn, w3)"
    "collect_loop key actor txn rows c w3 = (Ok (), w')"
    using acct assms(4) by auto
  then show ?thesis
  proof cases
    case nothing
    then show ?thesis by simp
  next
    case some
    have c: "0 < c" "c \<le> owed_by rows" using some(1,2) nn by linarith+
    from collect_loop_Ok[OF some(5) _ pos] c(1) obtain ms where
      ms: "pending w' = with_movements ms (pending w3)" "collection_of rows c txn actor ms" by auto
    note house = account_Ok[OF some(3)] and booking = ledger_apply_Ok[OF some(4)]
    have q: "quiet w w2" "quiet w2 w'"
      using house framedD[OF quiet_writes(1) some(4)] framedD[OF quiet_collect_loop some(5)] quiet.trans by blast+
    have "map_of (s_accounts (committed w')) (UserOwner user, Usdc) = Some a"
      "map_of (s_accounts (committed w')) (HouseOwner, Usdc) = Some h"
      using quiet_accounts[OF quiet.trans[OF q] assms(3)] quiet_accounts[OF q(2)] house by auto
    moreover have "pending w' = with_movements ms ((pending w)\<lparr>p_txns := p_txns (pending w) @
        [booked (collect_key key) txn Reversal
           [\<lparr>entry_account = a, entry_amount = - c\<rparr>, \<lparr>entry_account = h, entry_amount = c\<rparr>] (utc w2 0)]\<rparr>)"
      using ms(1) booking house by simp
    moreover have "sum_list (map mv_amount_micro ms) = c"
      using collection_total[OF ms(2) pos] c by simp
    ultimately have "collects user key actor rows c w w'"
      unfolding collects_def using ms(2) by blast
    with some(1) c show ?thesis by (auto simp del: min_less_iff_conj)
  qed
qed

text \<open>A user with 100 in cash who owes 30 and then 90.\<close>

definition debt_world :: world where
  "debt_world =
     demo_world (State_default
       \<lparr>s_balances := \<lparr>accounts = [(10, User, Usdc, 100), (11, House, Usdc, 0)]\<rparr>,
        s_accounts := [((UserOwner 1, Usdc), 10), ((HouseOwner, Usdc), 11)],
        phase6 := Phase6_default
          \<lparr>receivables := [(20, \<lparr>rv_id = 20, rv_market = 5, rv_user = 1, origin_reversal_txn = 6, opened_micro = 30\<rparr>),
                           (21, \<lparr>rv_id = 21, rv_market = 5, rv_user = 1, origin_reversal_txn = 6, opened_micro = 90\<rparr>)],
           receivable_order := [20, 21],
           movements :=
             [\<lparr>mv_id = 30, mv_receivable = 20, mv_kind = Opened, mv_amount_micro = 30, mv_actor = lit ''ops'',
               cash_txn = None, mv_idempotency_key = lit ''a''\<rparr>,
              \<lparr>mv_id = 31, mv_receivable = 21, mv_kind = Opened, mv_amount_micro = 90, mv_actor = lit ''ops'',
               cash_txn = None, mv_idempotency_key = lit ''b''\<rparr>]\<rparr>\<rparr>) (demo_ops []) 40 0"

definition debt_rows :: "(Receivable \<times> i64) list" where
  "debt_rows =
     [(\<lparr>rv_id = 20, rv_market = 5, rv_user = 1, origin_reversal_txn = 6, opened_micro = 30\<rparr>, 30),
      (\<lparr>rv_id = 21, rv_market = 5, rv_user = 1, origin_reversal_txn = 6, opened_micro = 90\<rparr>, 90)]"

lemma debt_run: "fst (auto_collect 1 (lit ''d'') (lit ''x'') debt_world) = Ok 100"
  by code_simp

lemma debt_open: "fst (open_receivables_for_user 1 debt_world) = Ok debt_rows"
  by code_simp

lemma debt_cash: "fst (account_balance 10 debt_world) = Ok 100"
  by code_simp

theorem auto_collect_exact_witness:
  "collects 1 (lit ''d'') (lit ''x'') debt_rows 100 debt_world (snd (auto_collect 1 (lit ''d'') (lit ''x'') debt_world))"
proof -
  have "open_receivables_for_user 1 debt_world = (Ok debt_rows, debt_world)"
    using debt_open by (simp add: open_receivables_for_user_def asks_def)
  moreover have "account_balance 10 debt_world = (Ok 100, debt_world)"
    using debt_cash by (simp add: account_balance_def inquire_def)
  moreover have "map_of (s_accounts (committed debt_world)) (UserOwner 1, Usdc) = Some 10" by code_simp
  ultimately show ?thesis
    using auto_collect_exact[of 1 "lit ''d''" "lit ''x''" debt_world 100 _ debt_rows 10 100] debt_run
    by (metis prod.collapse zero_neq_numeral)
qed

end
