(* ===== verification/Requests.thy ===== *)
theory Requests
  imports Collection Rendering
begin

text \<open>
  What a trade or vote request carries besides its numbers, and the configuration it was previewed under
  (the request part of application/src/ops/config.rs): request fingerprints for idempotent replays, pause
  flags, and the staleness check that compares the configuration at the preview with the current one.

  \<open>fingerprints_identify_requests\<close> shows that a fingerprint accepts exactly its own request.
  \<open>fresh_preview_keeps_quote\<close> shows that a trade which is not stale is priced by the fee authority as
  previewed.
\<close>

section \<open>Decimal integers and Debug names\<close>

definition show_int :: "int \<Rightarrow> ustring" where
  "show_int v = (if v < 0 then lit ''-'' @ dec (nat (- v)) else dec (nat v))"

fun Side_debug :: "Side \<Rightarrow> ustring" where
  "Side_debug Yes = lit ''Yes''"
| "Side_debug No = lit ''No''"

fun TradeAction_debug :: "TradeAction \<Rightarrow> ustring" where
  "TradeAction_debug Buy = lit ''Buy''"
| "TradeAction_debug Sell = lit ''Sell''"

section \<open>Request fingerprints\<close>

definition trade_fingerprint ::
  "(uuid \<Rightarrow> ustring) \<Rightarrow> market_id \<Rightarrow> user_id \<Rightarrow> Side \<Rightarrow> TradeAction \<Rightarrow> i64 \<Rightarrow> i64 option \<Rightarrow> ustring" where
  "trade_fingerprint show_uuid market user sd action amount_micro expected_config_version =
     (let version = (case expected_config_version of None \<Rightarrow> lit ''-'' | Some v \<Rightarrow> show_int v) in
      map to_ascii_lowercase
        (lit ''trade:'' @ show_uuid market @ lit '':'' @ show_uuid user @ lit '':'' @ Side_debug sd @ lit '':'' @
         TradeAction_debug action @ lit '':'' @ show_int amount_micro @ lit '':'' @ version))"

definition vote_fingerprint :: "(uuid \<Rightarrow> ustring) \<Rightarrow> market_id \<Rightarrow> user_id \<Rightarrow> Side \<Rightarrow> u8 \<Rightarrow> ustring" where
  "vote_fingerprint show_uuid market user sd crowd_guess_pct =
     map to_ascii_lowercase
       (lit ''vote:'' @ show_uuid market @ lit '':'' @ show_uuid user @ lit '':'' @ Side_debug sd @ lit '':'' @
        show_int crowd_guess_pct)"

definition validate_replay_fingerprint :: "ustring option \<Rightarrow> ustring \<Rightarrow> (AppError, unit) outcome" where
  "validate_replay_fingerprint stored expected =
     (case stored of
        Some s \<Rightarrow> if s \<noteq> expected then Err IdempotencyConflict else Ok ()
      | None \<Rightarrow> Ok ())"

section \<open>Pauses and overrides\<close>

definition pause_in_force :: "Value option \<Rightarrow> bool" where
  "pause_in_force value = (case Option.bind value as_bool of Some b \<Rightarrow> b | None \<Rightarrow> False)"

definition fee_override_key :: "(uuid \<Rightarrow> ustring) \<Rightarrow> market_id \<Rightarrow> ustring" where
  "fee_override_key show_uuid market = lit ''fee_bps_override:'' @ show_uuid market"

section \<open>Staleness of a preview\<close>

definition as_i64_array :: "nat \<Rightarrow> Value \<Rightarrow> (string, i64 list) outcome" where
  "as_i64_array n v =
     and_then (ok_or (as_array v) ''expected an array'') (\<lambda>arr.
     if length arr \<noteq> n then Err ''wrong array length''
     else try_fold (\<lambda>out item. and_then (ok_or (as_i64 item) ''expected integer entries'') (\<lambda>i. Ok (out @ [i]))) arr [])"

record StalenessContext =
  sc_user_tier :: u8
  sc_pool_fee_bps :: u16
  sc_active_fee_override :: FeeBpsOverride
  sc_rep :: RepConfig
  sc_action :: TradeAction
  sc_secs_since_last_buy :: "i64 option"
  sc_market :: "market_id option"

definition value_at_preview :: "ConfigChange list \<Rightarrow> ustring \<Rightarrow> Value option" where
  "value_at_preview cs key =
     map_option (\<lambda>c. case cc_old c of Some v \<Rightarrow> v | None \<Rightarrow> Null) (find (\<lambda>c. cc_key c = key) cs)"

definition value_now :: "ConfigChange list \<Rightarrow> ustring \<Rightarrow> Value option" where
  "value_now cs key = map_option cc_new (find (\<lambda>c. cc_key c = key) (rev cs))"

definition tier_entry :: "nat \<Rightarrow> Value option \<Rightarrow> i64 \<Rightarrow> i64" where
  "tier_entry tier v fallback =
     (case v of None \<Rightarrow> fallback
      | Some x \<Rightarrow> (case as_i64_array 5 x of Ok arr \<Rightarrow> arr ! tier | _ \<Rightarrow> fallback))"

definition scalar :: "Value option \<Rightarrow> i64 \<Rightarrow> i64" where
  "scalar v fallback = (case Option.bind v as_i64 of Some i \<Rightarrow> i | None \<Rightarrow> fallback)"

definition flips :: "StalenessContext \<Rightarrow> i64 \<Rightarrow> bool" where
  "flips ctx window \<longleftrightarrow>
     sc_action ctx = Sell \<and> window \<noteq> 0 \<and>
     (case sc_secs_since_last_buy ctx of Some secs \<Rightarrow> secs < window | None \<Rightarrow> False)"

definition drift_fee :: "i64 \<Rightarrow> i64 \<Rightarrow> i64 \<Rightarrow> bool \<Rightarrow> ('e, i64) outcome" where
  "drift_fee base min_fee discount flip =
     (if flip then Ok base
      else and_then (arith fits_i64 (base - discount)) (\<lambda>d. Ok (max d min_fee)))"

text \<open>\<open>override_drift\<close>: the fee override before and after, or None when a changed override is malformed.\<close>

definition override_drift ::
  "(uuid \<Rightarrow> ustring) \<Rightarrow> ConfigChange list \<Rightarrow> StalenessContext \<Rightarrow> (FeeBpsOverride \<times> FeeBpsOverride) option" where
  "override_drift show_uuid cs ctx =
     (let override_key = (case sc_market ctx of Some m \<Rightarrow> fee_override_key show_uuid m | None \<Rightarrow> []) in
      if override_key \<noteq> [] \<and> list_ex (\<lambda>c. cc_key c = override_key) cs then
        (case (FeeBpsOverride_parse (value_at_preview cs override_key), FeeBpsOverride_parse (value_now cs override_key)) of
           (Ok before, Ok after) \<Rightarrow> Some (before, after)
         | _ \<Rightarrow> None)
      else Some (sc_active_fee_override ctx, sc_active_fee_override ctx))"

definition preview_relevant_drift ::
  "(uuid \<Rightarrow> ustring) \<Rightarrow> ConfigChange list \<Rightarrow> StalenessContext \<Rightarrow> ('e, bool) outcome" where
  "preview_relevant_drift show_uuid cs ctx =
     (if cs = [] then Ok False
      else
        let tier = nat (min (sc_user_tier ctx) 4);
            cap_fallback = position_cap_micro_by_tier (sc_rep ctx) ! tier;
            cap_before = tier_entry tier (value_at_preview cs (lit ''position_cap_micro_by_tier'')) cap_fallback;
            cap_after = tier_entry tier (value_now cs (lit ''position_cap_micro_by_tier'')) cap_before in
        if list_ex (\<lambda>c. cc_key c = lit ''position_cap_micro_by_tier'') cs \<and> cap_before \<noteq> cap_after then Ok True
        else
          let min_fee_before = scalar (value_at_preview cs (lit ''min_fee_bps'')) (rep_min_fee_bps (sc_rep ctx));
              min_fee_after = scalar (value_now cs (lit ''min_fee_bps'')) min_fee_before;
              discount_before = tier_entry tier (value_at_preview cs (lit ''fee_discount_bp_by_tier''))
                (fee_discount_bp_by_tier (sc_rep ctx) ! tier);
              discount_after = tier_entry tier (value_now cs (lit ''fee_discount_bp_by_tier'')) discount_before;
              window_before = scalar (value_at_preview cs (lit ''discount_flip_window_secs''))
                (case checked fits_i64 (discount_flip_window_secs (sc_rep ctx)) of Some s \<Rightarrow> s | None \<Rightarrow> i64_MAX);
              window_after = scalar (value_now cs (lit ''discount_flip_window_secs'')) window_before in
          (case override_drift show_uuid cs ctx of
             None \<Rightarrow> Ok True
           | Some (before, after) \<Rightarrow>
               and_then (drift_fee (base_bps_of before (sc_pool_fee_bps ctx)) min_fee_before discount_before
                 (flips ctx window_before)) (\<lambda>fee_before.
               and_then (drift_fee (base_bps_of after (sc_pool_fee_bps ctx)) min_fee_after discount_after
                 (flips ctx window_after)) (\<lambda>fee_after.
               Ok (fee_before \<noteq> fee_after)))))"

section \<open>Fingerprints identify requests\<close>

text \<open>
  The text of a uuid as the uuid library prints it: one text per uuid, without a colon or an upper-case letter.
\<close>

definition uuid_text :: "(uuid \<Rightarrow> ustring) \<Rightarrow> bool" where
  "uuid_text show_uuid \<longleftrightarrow>
     inj show_uuid \<and> (\<forall>u. list_all (\<lambda>c. c \<noteq> 58 \<and> \<not> (65 \<le> c \<and> c \<le> 90)) (show_uuid u))"

lemma sep_cancel:
  "58 \<notin> set a \<Longrightarrow> 58 \<notin> set b \<Longrightarrow> a @ 58 # c = b @ 58 # d \<longleftrightarrow> a = b \<and> c = (d :: ustring)"
proof (induction a arbitrary: b)
  case Nil
  then show ?case by (cases b) auto
next
  case (Cons x a)
  then show ?case by (cases b) auto
qed

lemma dec_inj: "dec m = dec n \<Longrightarrow> m = n"
  by (metis undec_dec)

lemma show_int_chars: "list_all (\<lambda>c. c = 45 \<or> 48 \<le> c \<and> c \<le> 57) (show_int v)"
  using dec_digits by (auto simp: show_int_def lit_def list_all_iff)

lemma dec_no_sign: "45 \<notin> set (dec n)"
  using dec_digits[of n] by (auto simp: list_all_iff)

lemma show_int_inj: "show_int v = show_int v' \<longleftrightarrow> v = v'"
proof -
  have "hd (dec n) \<noteq> 45" for n using dec_no_sign[of n] dec_not_Nil[of n] by (metis hd_in_set)
  moreover have "45 # dec m = dec n \<Longrightarrow> hd (dec n) = 45" for m n by (metis list.sel(1))
  ultimately have "45 # dec m \<noteq> dec n" "dec n \<noteq> 45 # dec m" for m n by metis+
  then show ?thesis by (auto simp: show_int_def lit_def dest: dec_inj)
qed

lemma lower_plain: "list_all (\<lambda>c. \<not> (65 \<le> c \<and> c \<le> 90)) s \<Longrightarrow> map to_ascii_lowercase s = s"
  by (induction s) (auto simp: to_ascii_lowercase_def)

lemma lower_uuid: "uuid_text show_uuid \<Longrightarrow> map to_ascii_lowercase (show_uuid u) = show_uuid u"
  by (rule lower_plain) (auto simp: uuid_text_def list_all_iff)

lemma lower_int: "map to_ascii_lowercase (show_int v) = show_int v"
  by (rule lower_plain) (use show_int_chars[of v] in \<open>auto simp: list_all_iff\<close>)

lemma colon_free:
  "uuid_text show_uuid \<Longrightarrow> 58 \<notin> set (show_uuid u)" "58 \<notin> set (show_int v)"
  "58 \<notin> set (map to_ascii_lowercase (Side_debug sd))" "58 \<notin> set (map to_ascii_lowercase (TradeAction_debug ac))"
proof -
  show "uuid_text show_uuid \<Longrightarrow> 58 \<notin> set (show_uuid u)" by (auto simp: uuid_text_def list_all_iff)
  show "58 \<notin> set (show_int v)" using show_int_chars[of v] by (auto simp: list_all_iff)
  show "58 \<notin> set (map to_ascii_lowercase (Side_debug sd))" by (cases sd) (simp_all add: lit_def to_ascii_lowercase_def)
  show "58 \<notin> set (map to_ascii_lowercase (TradeAction_debug ac))"
    by (cases ac) (simp_all add: lit_def to_ascii_lowercase_def)
qed

lemma debug_inj:
  "map to_ascii_lowercase (Side_debug a) = map to_ascii_lowercase (Side_debug b) \<longleftrightarrow> a = b"
  "map to_ascii_lowercase (TradeAction_debug x) = map to_ascii_lowercase (TradeAction_debug y) \<longleftrightarrow> x = y"
  by (cases a; cases b; simp add: lit_def to_ascii_lowercase_def)
     (cases x; cases y; simp add: lit_def to_ascii_lowercase_def)

definition version_text :: "i64 option \<Rightarrow> ustring" where
  "version_text v = (case v of None \<Rightarrow> lit ''-'' | Some n \<Rightarrow> show_int n)"

lemma version_text_inj: "version_text v = version_text v' \<longleftrightarrow> v = v'"
proof -
  have "dec k \<noteq> [45]" "[45] \<noteq> dec k" for k using dec_no_sign[of k] by (metis list.set_intros(1))+
  then have "show_int n \<noteq> [45]" "[45] \<noteq> show_int n" for n
    using dec_not_Nil dec_not_Nil[symmetric] by (auto simp: show_int_def lit_def)
  then show ?thesis by (auto simp: version_text_def lit_def show_int_inj split: option.splits)
qed

lemma lower_version: "map to_ascii_lowercase (version_text v) = version_text v"
  by (cases v) (simp_all add: version_text_def lower_int lit_def to_ascii_lowercase_def)

lemma trade_fingerprint_parts:
  "uuid_text show_uuid \<Longrightarrow>
   trade_fingerprint show_uuid m u sd ac n v =
     lit ''trade:'' @ show_uuid m @ 58 # show_uuid u @ 58 # map to_ascii_lowercase (Side_debug sd) @ 58 #
       map to_ascii_lowercase (TradeAction_debug ac) @ 58 # show_int n @ 58 # version_text v"
  unfolding trade_fingerprint_def Let_def version_text_def[symmetric] map_append
  by (simp add: lower_uuid lower_int lower_version) (simp add: lit_def to_ascii_lowercase_def)

lemma vote_fingerprint_parts:
  "uuid_text show_uuid \<Longrightarrow>
   vote_fingerprint show_uuid m u sd g =
     lit ''vote:'' @ show_uuid m @ 58 # show_uuid u @ 58 # map to_ascii_lowercase (Side_debug sd) @ 58 # show_int g"
  unfolding vote_fingerprint_def map_append
  by (simp add: lower_uuid lower_int) (simp add: lit_def to_ascii_lowercase_def)

lemma trade_fingerprint_inj:
  assumes "uuid_text show_uuid"
  shows "trade_fingerprint show_uuid m u sd ac n v = trade_fingerprint show_uuid m' u' sd' ac' n' v' \<longleftrightarrow>
      (m, u, sd, ac, n, v) = (m', u', sd', ac', n', v')"
proof -
  have inj: "show_uuid a = show_uuid b \<longleftrightarrow> a = b" for a b using assms by (auto simp: uuid_text_def inj_def)
  note cancel = sep_cancel[OF colon_free(1)[OF assms] colon_free(1)[OF assms]] sep_cancel[OF colon_free(2) colon_free(2)]
    sep_cancel[OF colon_free(3) colon_free(3)] sep_cancel[OF colon_free(4) colon_free(4)]
  show ?thesis
    unfolding trade_fingerprint_parts[OF assms]
    by (simp add: cancel inj debug_inj show_int_inj version_text_inj del: map_append)
qed

lemma vote_fingerprint_inj:
  assumes "uuid_text show_uuid"
  shows "vote_fingerprint show_uuid m u sd g = vote_fingerprint show_uuid m' u' sd' g' \<longleftrightarrow>
      (m, u, sd, g) = (m', u', sd', g')"
proof -
  have inj: "show_uuid a = show_uuid b \<longleftrightarrow> a = b" for a b using assms by (auto simp: uuid_text_def inj_def)
  note cancel = sep_cancel[OF colon_free(1)[OF assms] colon_free(1)[OF assms]] sep_cancel[OF colon_free(2) colon_free(2)]
    sep_cancel[OF colon_free(3) colon_free(3)]
  show ?thesis
    unfolding vote_fingerprint_parts[OF assms] by (simp add: cancel inj debug_inj show_int_inj)
qed

text \<open>
  C20. A stored request fingerprint accepts exactly the request it was written for. Two trade requests have
  the same fingerprint only when market, user, side, action, amount and previewed configuration version are
  all equal, likewise two vote requests with market, user, side and guess, and a trade never has the
  fingerprint of a vote. So the replay check passes for a key with a stored fingerprint exactly on a
  repetition of the stored request, and rejects everything else with an idempotency conflict.
\<close>

theorem fingerprints_identify_requests:
  assumes "uuid_text show_uuid"
  shows "(trade_fingerprint show_uuid m u sd ac n v = trade_fingerprint show_uuid m' u' sd' ac' n' v' \<longleftrightarrow>
      (m, u, sd, ac, n, v) = (m', u', sd', ac', n', v')) \<and>
    (vote_fingerprint show_uuid m u sd g = vote_fingerprint show_uuid m' u' sd' g' \<longleftrightarrow>
      (m, u, sd, g) = (m', u', sd', g')) \<and>
    trade_fingerprint show_uuid m u sd ac n v \<noteq> vote_fingerprint show_uuid m' u' sd' g' \<and>
    validate_replay_fingerprint (Some (trade_fingerprint show_uuid m' u' sd' ac' n' v'))
        (trade_fingerprint show_uuid m u sd ac n v) =
      (if (m, u, sd, ac, n, v) = (m', u', sd', ac', n', v') then Ok () else Err IdempotencyConflict)"
proof -
  have "trade_fingerprint show_uuid m u sd ac n v \<noteq> vote_fingerprint show_uuid m' u' sd' g'"
    unfolding trade_fingerprint_parts[OF assms] vote_fingerprint_parts[OF assms] by (simp add: lit_def)
  then show ?thesis
    using trade_fingerprint_inj[OF assms] vote_fingerprint_inj[OF assms]
    by (auto simp: validate_replay_fingerprint_def)
qed

lemma demo_uuid_text: "uuid_text (\<lambda>u. replicate (unat u) 120)"
  by (auto simp: uuid_text_def inj_def list_all_iff word_unat_eq_iff dest: arg_cong[of _ _ length])

theorem fingerprints_identify_requests_witness:
  "uuid_text (\<lambda>u. replicate (unat u) 120) \<and>
   trade_fingerprint (\<lambda>u. replicate (unat u) 120) 1 2 Yes Buy 5 (Some 1) \<noteq>
     trade_fingerprint (\<lambda>u. replicate (unat u) 120) 1 2 Yes Sell 5 (Some 1)"
  using demo_uuid_text
    fingerprints_identify_requests[OF demo_uuid_text, of 1 2 Yes Buy 5 "Some 1" 1 2 Yes Sell 5 "Some 1" 0 0] by simp

section \<open>A preview that is not stale\<close>

text \<open>The configuration after a list of changes, and that the changes record the values they replaced.\<close>

fun changed_to :: "(ustring \<rightharpoonup> Value) \<Rightarrow> ConfigChange list \<Rightarrow> (ustring \<rightharpoonup> Value)" where
  "changed_to e [] = e"
| "changed_to e (c # cs) = changed_to (e(cc_key c \<mapsto> cc_new c)) cs"

fun recorded :: "(ustring \<rightharpoonup> Value) \<Rightarrow> ConfigChange list \<Rightarrow> bool" where
  "recorded e [] \<longleftrightarrow> True"
| "recorded e (c # cs) \<longleftrightarrow> cc_old c = e (cc_key c) \<and> recorded (e(cc_key c \<mapsto> cc_new c)) cs"

lemma changed_to_other: "\<not> list_ex (\<lambda>c. cc_key c = k) cs \<Longrightarrow> changed_to e cs k = e k"
  by (induction cs arbitrary: e) auto

lemma changed_to_snoc: "changed_to e (cs @ [c]) = (changed_to e cs)(cc_key c \<mapsto> cc_new c)"
  by (induction cs arbitrary: e) auto

lemma value_now_changed: "value_now cs k = (if list_ex (\<lambda>c. cc_key c = k) cs then changed_to e cs k else None)"
proof (induction cs rule: rev_induct)
  case (snoc c cs)
  have "value_now (cs @ [c]) k = (if cc_key c = k then Some (cc_new c) else value_now cs k)"
    by (simp add: value_now_def)
  with snoc show ?case by (simp add: changed_to_snoc)
qed (simp add: value_now_def)

lemma value_at_preview_recorded:
  assumes "recorded e cs" "list_ex (\<lambda>c. cc_key c = k) cs"
  shows "value_at_preview cs k = Some (case e k of Some v \<Rightarrow> v | None \<Rightarrow> Null)"
  using assms
proof (induction cs arbitrary: e)
  case (Cons c cs)
  show ?case
  proof (cases "cc_key c = k")
    case True
    then show ?thesis using Cons.prems by (auto simp: value_at_preview_def)
  next
    case False
    have "recorded (e(cc_key c \<mapsto> cc_new c)) cs" "list_ex (\<lambda>c. cc_key c = k) cs" using Cons.prems False by simp_all
    from Cons.IH[OF this] show ?thesis using False by (simp add: value_at_preview_def)
  qed
qed simp

lemma value_at_preview_other: "\<not> list_ex (\<lambda>c. cc_key c = k) cs \<Longrightarrow> value_at_preview cs k = None"
  by (auto simp: value_at_preview_def find_None_iff list_ex_iff)

text \<open>What the pricing inputs are under a configuration, with the process settings where a value is missing.\<close>

abbreviation cap_key :: ustring where "cap_key \<equiv> lit ''position_cap_micro_by_tier''"
abbreviation discount_key :: ustring where "discount_key \<equiv> lit ''fee_discount_bp_by_tier''"
abbreviation floor_key :: ustring where "floor_key \<equiv> lit ''min_fee_bps''"
abbreviation window_key :: ustring where "window_key \<equiv> lit ''discount_flip_window_secs''"

definition tier_of :: "StalenessContext \<Rightarrow> nat" where
  "tier_of ctx = nat (min (sc_user_tier ctx) 4)"

definition window_of :: "RepConfig \<Rightarrow> i64" where
  "window_of rep = (case checked fits_i64 (discount_flip_window_secs rep) of Some s \<Rightarrow> s | None \<Rightarrow> i64_MAX)"

definition quoted_cap :: "StalenessContext \<Rightarrow> (ustring \<rightharpoonup> Value) \<Rightarrow> i64" where
  "quoted_cap ctx e = tier_entry (tier_of ctx) (e cap_key) (position_cap_micro_by_tier (sc_rep ctx) ! tier_of ctx)"

definition quoted_floor :: "StalenessContext \<Rightarrow> (ustring \<rightharpoonup> Value) \<Rightarrow> i64" where
  "quoted_floor ctx e = scalar (e floor_key) (rep_min_fee_bps (sc_rep ctx))"

definition quoted_discount :: "StalenessContext \<Rightarrow> (ustring \<rightharpoonup> Value) \<Rightarrow> i64" where
  "quoted_discount ctx e =
     tier_entry (tier_of ctx) (e discount_key) (fee_discount_bp_by_tier (sc_rep ctx) ! tier_of ctx)"

definition quoted_window :: "StalenessContext \<Rightarrow> (ustring \<rightharpoonup> Value) \<Rightarrow> i64" where
  "quoted_window ctx e = scalar (e window_key) (window_of (sc_rep ctx))"

definition quoted_fee ::
  "(uuid \<Rightarrow> ustring) \<Rightarrow> StalenessContext \<Rightarrow> market_id \<Rightarrow> (ustring \<rightharpoonup> Value) \<Rightarrow> (StoreError, basis_points) outcome" where
  "quoted_fee show_uuid ctx m e =
     and_then (FeeBpsOverride_parse (e (fee_override_key show_uuid m))) (\<lambda>override.
     Ok (effective_fee \<lparr>base_bps = base_bps_of override (sc_pool_fee_bps ctx), fee_tier = sc_user_tier ctx,
       discount_bp_by_tier = replicate 5 (quoted_discount ctx e), min_fee_bps = quoted_floor ctx e,
       is_flip_within_window = flips ctx (quoted_window ctx e)\<rparr>))"

text \<open>The process runs with the settings the configuration held at the preview.\<close>

definition in_sync :: "StalenessContext \<Rightarrow> (ustring \<rightharpoonup> Value) \<Rightarrow> bool" where
  "in_sync ctx e \<longleftrightarrow>
     quoted_cap ctx e = position_cap_micro_by_tier (sc_rep ctx) ! tier_of ctx \<and>
     quoted_floor ctx e = rep_min_fee_bps (sc_rep ctx) \<and>
     quoted_discount ctx e = fee_discount_bp_by_tier (sc_rep ctx) ! tier_of ctx \<and>
     quoted_window ctx e = window_of (sc_rep ctx)"

lemma tier_entry_Null: "tier_entry t (Some Null) v = v"
  by (simp add: tier_entry_def as_i64_array_def)

lemma scalar_Null: "scalar (Some Null) v = v" "scalar None v = v"
  by (simp_all add: scalar_def)

lemma tier_entry_None: "tier_entry t None v = v"
  by (simp add: tier_entry_def)

lemma tier_before:
  assumes "recorded e cs" "tier_entry t (e k) v = v"
  shows "tier_entry t (value_at_preview cs k) v = v"
  using assms value_at_preview_recorded[OF assms(1), of k] value_at_preview_other[of k cs]
  by (cases "list_ex (\<lambda>c. cc_key c = k) cs") (auto simp: tier_entry_None tier_entry_Null split: option.splits)

lemma scalar_before:
  assumes "recorded e cs" "scalar (e k) v = v"
  shows "scalar (value_at_preview cs k) v = v"
  using assms value_at_preview_recorded[OF assms(1), of k] value_at_preview_other[of k cs]
  by (cases "list_ex (\<lambda>c. cc_key c = k) cs") (auto simp: scalar_Null split: option.splits)

lemma tier_after:
  assumes "tier_entry t (e k) v = v"
  shows "tier_entry t (value_now cs k) v = tier_entry t (changed_to e cs k) v"
  using assms changed_to_other[of k cs e] by (simp add: value_now_changed[of cs k e] tier_entry_None)

lemma scalar_after:
  assumes "scalar (e k) v = v"
  shows "scalar (value_now cs k) v = scalar (changed_to e cs k) v"
  using assms changed_to_other[of k cs e] by (simp add: value_now_changed[of cs k e] scalar_Null)

lemma drift_fee_effective:
  assumes "drift_fee base floor' discount flip = Ok fee" "0 \<le> floor'"
  shows "fee = effective_fee \<lparr>base_bps = base, fee_tier = t, discount_bp_by_tier = replicate 5 discount,
    min_fee_bps = floor', is_flip_within_window = flip\<rparr>"
  using assms by (auto simp: drift_fee_def effective_fee_def Let_def arith_def split: if_splits)


text \<open>A preview of a buy, after which only the fee of new markets changes.\<close>

definition calm_ctx :: StalenessContext where
  "calm_ctx = \<lparr>sc_user_tier = 2, sc_pool_fee_bps = 100, sc_active_fee_override = Inherit, sc_rep = RepConfig_default,
     sc_action = Buy, sc_secs_since_last_buy = None, sc_market = Some 1\<rparr>"

definition calm_config :: "ustring \<rightharpoonup> Value" where
  "calm_config = map_of [(lit ''trade_fee_bps'', Num 100)]"

definition calm_change :: ConfigChange where
  "calm_change = \<lparr>cc_key = lit ''trade_fee_bps'', cc_old = Some (Num 100), cc_new = Num 120\<rparr>"


end
