(* ===== verification/Commits.thy ===== *)
theory Commits
  imports Collection
begin

text \<open>
  What a commit does to the tables of the store (lemmas about \<open>Store.commit\<close>): it installs the staged
  state whole, its ledger transactions are applied in the order they were buffered, and a commit that fails
  leaves the store as it was. With the run lemmas for collection and conversion, this is the interface the
  use cases are verified against.
\<close>

section \<open>What each stage of a commit changes\<close>

definition but_ledger :: "State \<Rightarrow> State" where
  "but_ledger s = s\<lparr>s_txn_keys := [], s_balances := Balances_default, s_ledger_txns := []\<rparr>"

lemma commit_txns_Ok:
  assumes "try_fold (commit_txn w) ts s = Ok s'"
  shows "but_ledger s' = but_ledger s \<and>
    try_fold (\<lambda>b t. ledger_step w b t) (map pt_txn ts) (s_balances s) = Ok (s_balances s')"
  using assms
proof (induction ts arbitrary: s)
  case (Cons t ts)
  then obtain s1 where s1: "commit_txn w s t = Ok s1" "try_fold (commit_txn w) ts s1 = Ok s'" by auto
  then have "ledger_step w (s_balances s) (pt_txn t) = Ok (s_balances s1)" "but_ledger s1 = but_ledger s"
    by (auto simp: commit_txn_def but_ledger_def split: if_splits)
  with Cons.IH[OF s1(2)] show ?case by simp
qed simp

lemma but_ledger_fields:
  assumes "but_ledger s' = but_ledger s"
  shows "s_accounts s' = s_accounts s" "s_markets s' = s_markets s" "s_pools s' = s_pools s"
    "s_positions s' = s_positions s" "s_trades s' = s_trades s" "s_trades_by_txn s' = s_trades_by_txn s"
    "s_votes s' = s_votes s" "s_realizations s' = s_realizations s" "phase6 s' = phase6 s" "phase7 s' = phase7 s"
    "s_outbox s' = s_outbox s" "s_tallies s' = s_tallies s" "s_reputation s' = s_reputation s"
  using arg_cong[OF assms, of s_accounts] arg_cong[OF assms, of s_markets] arg_cong[OF assms, of s_pools]
    arg_cong[OF assms, of s_positions] arg_cong[OF assms, of s_trades] arg_cong[OF assms, of s_trades_by_txn]
    arg_cong[OF assms, of s_votes] arg_cong[OF assms, of s_realizations] arg_cong[OF assms, of phase6]
    arg_cong[OF assms, of phase7] arg_cong[OF assms, of s_outbox] arg_cong[OF assms, of s_tallies]
    arg_cong[OF assms, of s_reputation]
  by (simp_all add: but_ledger_def)

lemma stage_audits_frame: "for_fold (stage_audit now) as s w = (r, w') \<Longrightarrow> \<exists>u. w' = w\<lparr>uuids := u\<rparr>"
proof (induction as arbitrary: s w)
  case Nil
  then show ?case by (auto simp: run_simps intro: exI[of _ "uuids w"])
next
  case (Cons a as)
  obtain s1 where "stage_audit now s a w = (Ok s1, w\<lparr>uuids := \<lambda>n. uuids w (Suc n)\<rparr>)"
    by (simp add: stage_audit_def seq_def new_v4_def ret_def Let_def)
  with Cons.prems have "for_fold (stage_audit now) as s1 (w\<lparr>uuids := \<lambda>n. uuids w (Suc n)\<rparr>) = (r, w')"
    by (simp add: seq_def)
  from Cons.IH[OF this] show ?case by auto
qed

lemma apply_phase6_frame:
  assumes "apply_phase6 p s w = (r, w')"
  shows "\<exists>u t. w' = w\<lparr>uuids := u, utc := t\<rparr>"
proof -
  let ?w = "w\<lparr>utc := \<lambda>n. utc w (Suc n)\<rparr>"
  obtain r1 w1 where 1: "for_fold (stage_audit (utc w 0)) (p_audits p) s ?w = (r1, w1)" by force
  from stage_audits_frame[OF 1] obtain u where u: "w1 = ?w\<lparr>uuids := u\<rparr>" by auto
  have "w' = w1" using 1 assms by (cases r1) (simp_all add: apply_phase6_def seq_def now_utc_def lift_def)
  then show ?thesis using u by (intro exI[of _ u] exI[of _ "\<lambda>n. utc w (Suc n)"]) simp
qed

lemma commit_Ok:
  assumes "commit w = (Ok x, w')"
  shows "\<exists>s s6 s7. stage w = Ok s \<and> apply_phase7 (p_phase7 (pending w)) (phase7 s) = Ok s7 \<and>
    committed w' = s\<lparr>phase6 := s6, phase7 := s7, s_outbox := s_outbox s @ p_events (pending w)\<rparr> \<and>
    ops w' = ops w \<and> uuid_string w' = uuid_string w \<and> order_d w' = order_d w \<and> order_c w' = order_c w \<and>
    order_p w' = order_p w"
proof -
  from assms obtain s s6 w1 s7 where s: "stage w = Ok s" "apply_phase6 (p_phase6 (pending w)) (phase6 s) w = (Ok s6, w1)"
    "apply_phase7 (p_phase7 (pending w1)) (phase7 s) = Ok s7"
    "w' = w1\<lparr>committed := s\<lparr>phase6 := s6, phase7 := s7, s_outbox := s_outbox s @ p_events (pending w1)\<rparr>\<rparr>"
    by (auto simp: commit_def run_simps)
  from apply_phase6_frame[OF s(2)] obtain u t where "w1 = w\<lparr>uuids := u, utc := t\<rparr>" by blast
  with s show ?thesis by auto
qed

lemma atomic_commit: "atomic quiet commit"
  unfolding atomic_def
proof (intro allI impI)
  fix w
  assume no: "\<forall>y. fst (commit w) \<noteq> Ok y"
  show "quiet w (snd (commit w))"
  proof (cases "stage w")
    case (Ok s)
    obtain r1 w1 where 1: "apply_phase6 (p_phase6 (pending w)) (phase6 s) w = (r1, w1)" by force
    from apply_phase6_frame[OF 1] obtain u t where w1: "w1 = w\<lparr>uuids := u, utc := t\<rparr>" by blast
    then have "quiet w w1" by (simp add: quiet_same)
    with Ok 1 no show ?thesis
      by (cases r1; cases "apply_phase7 (p_phase7 (pending w1)) (phase7 s)")
         (auto simp: commit_def seq_def inquire_def asks_def modify_def)
  qed (simp_all add: commit_def seq_def inquire_def)
qed

lemma atomic_store_commit: "atomic quiet (store commit)"
  unfolding store_def by (rule quiet.atomic_with_err[OF atomic_commit])

text \<open>What a quiet step leaves as it was.\<close>

lemma quiet_tables:
  assumes "quiet w w'"
  shows "s_markets (committed w') = s_markets (committed w)" "s_pools (committed w') = s_pools (committed w)"
    "s_positions (committed w') = s_positions (committed w)" "s_votes (committed w') = s_votes (committed w)"
    "s_trades (committed w') = s_trades (committed w)" "s_trades_by_txn (committed w') = s_trades_by_txn (committed w)"
    "s_reputation (committed w') = s_reputation (committed w)" "s_txn_keys (committed w') = s_txn_keys (committed w)"
    "s_tallies (committed w') = s_tallies (committed w)" "s_users (committed w') = s_users (committed w)"
    "s_realizations (committed w') = s_realizations (committed w)" "s_outbox (committed w') = s_outbox (committed w)"
    "phase6 (committed w') = phase6 (committed w)" "phase7 (committed w') = phase7 (committed w)"
    "s_ledger_txns (committed w') = s_ledger_txns (committed w)"
    "entries (ops w') = entries (ops w)" "generation (ops w') = generation (ops w)"
    "changes (ops w') = changes (ops w)" "watermark (ops w') = watermark (ops w)"
    "uuid_string w' = uuid_string w" "order_d w' = order_d w" "order_c w' = order_c w" "order_p w' = order_p w"
proof -
  from assms obtain b accts fps where c: "committed w' = (committed w)\<lparr>s_balances := b, s_accounts := accts\<rparr>"
    and o: "ops w' = (ops w)\<lparr>fingerprints := fps\<rparr>" and rest: "uuid_string w' = uuid_string w"
    "order_d w' = order_d w" "order_c w' = order_c w" "order_p w' = order_p w"
    unfolding quiet_def by blast
  show "s_markets (committed w') = s_markets (committed w)" "s_pools (committed w') = s_pools (committed w)"
    "s_positions (committed w') = s_positions (committed w)" "s_votes (committed w') = s_votes (committed w)"
    "s_trades (committed w') = s_trades (committed w)" "s_trades_by_txn (committed w') = s_trades_by_txn (committed w)"
    "s_reputation (committed w') = s_reputation (committed w)" "s_txn_keys (committed w') = s_txn_keys (committed w)"
    "s_tallies (committed w') = s_tallies (committed w)" "s_users (committed w') = s_users (committed w)"
    "s_realizations (committed w') = s_realizations (committed w)" "s_outbox (committed w') = s_outbox (committed w)"
    "phase6 (committed w') = phase6 (committed w)" "phase7 (committed w') = phase7 (committed w)"
    "s_ledger_txns (committed w') = s_ledger_txns (committed w)"
    unfolding c by simp_all
  show "entries (ops w') = entries (ops w)" "generation (ops w') = generation (ops w)"
    "changes (ops w') = changes (ops w)" "watermark (ops w') = watermark (ops w)"
    unfolding o by simp_all
  show "uuid_string w' = uuid_string w" "order_d w' = order_d w" "order_c w' = order_c w" "order_p w' = order_p w"
    by (rule rest)+
qed

text \<open>Reads of a transaction: they move nothing but the clock.\<close>

definition calm :: "world \<Rightarrow> world \<Rightarrow> bool" where
  "calm w w' \<longleftrightarrow> (\<exists>c. w' = w\<lparr>clock := c\<rparr>)"

interpretation calm: frame calm
proof
  fix u v w :: world
  show "calm w w" unfolding calm_def by (rule exI[of _ "clock w"]) simp
  assume "calm u v" "calm v w"
  then show "calm u w" unfolding calm_def by auto
qed

lemma calm_fields:
  assumes "calm w w'"
  shows "committed w' = committed w" "pending w' = pending w" "ops w' = ops w" "uuids w' = uuids w" "utc w' = utc w"
    "uuid_string w' = uuid_string w" "order_d w' = order_d w" "order_c w' = order_c w" "order_p w' = order_p w"
  using assms by (auto simp: calm_def)

lemma calm_side: "calm w w' \<Longrightarrow> side w w'"
  by (auto simp: calm_def intro!: side_same quiet_same)

named_theorems calm_intros \<open>operations that only read\<close>

lemma calm_clock_now [calm_intros]: "framed calm clock_now"
  by (auto simp: framed_def clock_now_def calm_def)

lemma calm_store [calm_intros]: "framed calm m \<Longrightarrow> framed calm (store m)"
  unfolding store_def by (rule calm.framed_with_err)

lemma calm_reads [calm_intros]:
  "framed calm (txn_by_key k)" "framed calm (market_for_update m)"
  "framed calm (user_voted u m)" "framed calm (tally m)" "framed calm (pool_for_update m)"
  "framed calm (position_for_update u o')" "framed calm (user_rep u)" "framed calm (last_buy_at u o')"
  "framed calm (market_position_cost u m)" "framed calm (handle u)"
  "framed calm (trade_by_ledger_txn i)" "framed calm (fence_config_value k)"
  "framed calm (fence_changes_since g)" "framed calm (request_fingerprint k)"
  unfolding txn_by_key_def market_for_update_def
    user_voted_def tally_def pool_for_update_def position_for_update_def user_rep_def last_buy_at_def
    market_position_cost_def handle_def trade_by_ledger_txn_def fence_config_value_def
    fence_changes_since_def request_fingerprint_def
  by (rule calm.framed_asks calm.framed_inquire)+

text \<open>An action that depends on one part of the world and changes nothing.\<close>

definition observes :: "('w \<Rightarrow> 'o) \<Rightarrow> ('w, 'e, 'a) action \<Rightarrow> bool" where
  "observes part m \<longleftrightarrow> (\<forall>w. snd (m w) = w) \<and> (\<forall>v w. part v = part w \<longrightarrow> fst (m v) = fst (m w))"

lemma observes_asks: "(\<And>v w. part v = part w \<Longrightarrow> f v = f w) \<Longrightarrow> observes part (asks f)"
  unfolding observes_def asks_def by (metis fst_conv snd_conv)

lemma observes_inquire: "(\<And>v w. part v = part w \<Longrightarrow> f v = f w) \<Longrightarrow> observes part (inquire f)"
  unfolding observes_def inquire_def by (metis fst_conv snd_conv)

lemma observes_ret: "observes part (ret x)" "observes part (lift r)"
  by (auto simp: observes_def ret_def lift_def)

lemma observes_seq:
  assumes "observes part m" "\<And>x. observes part (k x)"
  shows "observes part (seq m k)"
proof -
  have s: "seq m k w = (case fst (m w) of Ok x \<Rightarrow> fst (k x w) | Err e \<Rightarrow> Err e | Panic \<Rightarrow> Panic, w)" for w
  proof -
    obtain r where r: "m w = (r, w)" using assms(1) by (metis observes_def prod.collapse)
    have k: "k x w = (fst (k x w), w)" for x using assms(2) by (metis observes_def prod.collapse)
    show ?thesis
    proof (cases r)
      case (Ok x)
      then show ?thesis using r k[of x] by (simp add: seq_def)
    qed (simp_all add: seq_def r)
  qed
  have "fst (seq m k v) = fst (seq m k w)" if "part v = part w" for v w
  proof -
    have "fst (m v) = fst (m w)" using assms(1) that unfolding observes_def by blast
    moreover have "fst (k x v) = fst (k x w)" for x using assms(2) that unfolding observes_def by blast
    ultimately show ?thesis by (simp add: s split: outcome.split)
  qed
  moreover have "snd (seq m k w) = w" for w by (simp add: s)
  ultimately show ?thesis unfolding observes_def by blast
qed

lemma observes_gate_snapshot: "observes (\<lambda>w. phase7 (committed w)) (gate_snapshot u now)"
  unfolding gate_snapshot_def user_status_def self_excluded_def user_kyc_tier_def
    required_i64_def config_i64_def fresh_clear_def deposit_limit_micro_def required_config_flag_def
  by (intro observes_seq observes_ret observes_asks observes_inquire) simp_all

lemma observesD:
  "observes part m \<Longrightarrow> m w = (r, w') \<Longrightarrow> w' = w"
  "observes part m \<Longrightarrow> m w = (r, w') \<Longrightarrow> part v = part w \<Longrightarrow> m v = (r, v)"
  unfolding observes_def by (metis snd_conv, metis fst_conv prod.collapse)

section \<open>Side business of collection and conversion\<close>

lemma plain_account:
  "map_of (s_accounts s) (owner, currency) = Some a \<Longrightarrow> (\<And>m. owner \<noteq> MarketEscrow m) \<Longrightarrow> plain s a"
  unfolding plain_def by blast

lemma pair_wf: "fits_i64 x \<Longrightarrow> fits_i64 y \<Longrightarrow>
    wf_entries [\<lparr>entry_account = a, entry_amount = x\<rparr>, \<lparr>entry_account = b, entry_amount = y\<rparr>]"
  by (simp add: wf_entries_def)

lemma side_insert_movement: "framed side (insert_receivable_movement m)"
  unfolding insert_receivable_movement_def by (intro side.framed_rules side_phase6)

lemma side_new_v4: "framed side new_v4"
  by (simp add: framed_def new_v4_def side_same quiet_same)

lemma side_clock_now: "framed side clock_now"
  by (simp add: framed_def clock_now_def side_same quiet_same)

lemma side_collect_loop: "framed side (collect_loop k actor txn rows n)"
proof (induction rows arbitrary: n)
  case (Cons row rows)
  obtain r out where "row = (r, out)" by force
  then show ?case using Cons by (auto simp: Let_def intro!: side.framed_rules side_insert_movement side_new_v4)
qed (simp add: side.framed_ret)

lemma account_balance_fits: "account_balance a w = (Ok b, w') \<Longrightarrow> fits_i64 b"
  by (auto simp: account_balance_def run_simps saturate_i64_def width_defs)

lemma side_auto_collect:
  assumes "auto_collect user key actor w = (Ok c, w')"
  shows "side w w'"
proof -
  obtain rows where rows: "open_receivables_for_user user w = (Ok rows, w)"
    by (auto simp: open_receivables_for_user_def asks_def)
  have nn: "0 \<le> owed_by rows" using owed_positive open_rows_positive[OF rows] by blast
  consider (none) "w' = w"
    | (dry) a where "account (UserOwner user) Usdc w = (Ok a, w')"
    | (some) a w1 b h w2 txn w3 where "account (UserOwner user) Usdc w = (Ok a, w1)" "account_balance a w1 = (Ok b, w1)"
      "c = min (owed_by rows) (max 0 b)" "account HouseOwner Usdc w1 = (Ok h, w2)"
      "ledger_apply Reversal (collect_key key)
        [\<lparr>entry_account = a, entry_amount = - c\<rparr>, \<lparr>entry_account = h, entry_amount = c\<rparr>] w2 = (Ok txn, w3)"
      "collect_loop key actor txn rows c w3 = (Ok (), w')"
    using auto_collect_runs[OF assms rows] by blast
  then show ?thesis
  proof cases
    case none
    then show ?thesis by simp
  next
    case dry
    then show ?thesis by (rule side_account)
  next
    case some
    have "fits_i64 b" using account_balance_fits some(2) by blast
    then have c: "fits_i64 c" "fits_i64 (- c)" using some(3) nn by (auto simp: width_defs)
    have a: "map_of (s_accounts (committed w2)) (UserOwner user, Usdc) = Some a"
      using account_Ok[OF some(1)] account_Ok[OF some(4)] quiet_accounts by blast
    have h: "map_of (s_accounts (committed w2)) (HouseOwner, Usdc) = Some h" using account_Ok[OF some(4)] by blast
    have "side w2 w3" using plain_account[OF a] plain_account[OF h]
      by (intro side_ledger_apply[OF some(5)] pair_wf c) auto
    then show ?thesis
      using side_account[OF some(1)] side_account[OF some(4)] framedD[OF side_collect_loop some(6)] side.trans by blast
  qed
qed

lemma side_mark_converted: "framed side (mark_lot_converted i at)"
  unfolding mark_lot_converted_def by (intro side.framed_rules side_phase7)

lemma side_convert_lot:
  assumes "convert_lot user now lot w = (Ok r, w')" "fits_i64 (lot_amount_micro lot)"
  shows "side w w'"
proof -
  let ?n = "lot_amount_micro lot"
  from assms(1) obtain a w1 h w2 b w3 c w4 t1 w5 t2 w6 k1 k2 where
    1: "account (UserOwner user) UsdcCredit w = (Ok a, w1)" and 2: "account HouseOwner UsdcCredit w1 = (Ok h, w2)" and
    3: "account BonusReserveOwner Usdc w2 = (Ok b, w3)" and 4: "account (UserOwner user) Usdc w3 = (Ok c, w4)" and
    m: "fits_i64 (- ?n)" and
    5: "ledger_apply CreditConvert k1
      [\<lparr>entry_account = a, entry_amount = - ?n\<rparr>, \<lparr>entry_account = h, entry_amount = ?n\<rparr>] w4 = (Ok t1, w5)" and
    6: "ledger_apply CreditConvert k2
      [\<lparr>entry_account = b, entry_amount = - ?n\<rparr>, \<lparr>entry_account = c, entry_amount = ?n\<rparr>] w5 = (Ok t2, w6)" and
    7: "mark_lot_converted (lot_id lot) now w6 = (Ok (), w')"
    by (auto simp: convert_lot_def run_simps arith_def split: if_splits)
  note acc = account_Ok[OF 1] account_Ok[OF 2] account_Ok[OF 3] account_Ok[OF 4]
  have q: "quiet w1 w4" "quiet w2 w4" "quiet w3 w4" using acc quiet.trans by blast+
  have "map_of (s_accounts (committed w4)) (UserOwner user, UsdcCredit) = Some a"
    "map_of (s_accounts (committed w4)) (HouseOwner, UsdcCredit) = Some h"
    "map_of (s_accounts (committed w4)) (BonusReserveOwner, Usdc) = Some b"
    "map_of (s_accounts (committed w4)) (UserOwner user, Usdc) = Some c"
    using acc q quiet_accounts by blast+
  then have p: "plain (committed w4) a" "plain (committed w4) h" "plain (committed w4) b" "plain (committed w4) c"
    by (auto intro: plain_account)
  have "committed w5 = committed w4" using ledger_apply_Ok[OF 5] by simp
  then have "side w4 w5" "side w5 w6"
    using p by (auto intro!: side_ledger_apply[OF 5] side_ledger_apply[OF 6] pair_wf m assms(2))
  then show ?thesis
    using side_account[OF 1] side_account[OF 2] side_account[OF 3] side_account[OF 4]
      framedD[OF side_mark_converted 7] side.trans by blast
qed

lemma side_convert_step:
  assumes "convert_step user now acc lot w = (Ok acc', w')" "fits_i64 (lot_amount_micro lot)"
  shows "side w w'"
proof -
  obtain converted n txns where acc: "acc = (converted, n, txns)" by (cases acc)
  consider "w' = w" | r where "convert_lot user now lot w = (Ok r, w')"
    using assms(1)
    by (auto simp: convert_step_def acc run_simps txn_by_key_def allocations_for_lot_def split: option.splits if_splits prod.splits)
  then show ?thesis using side_convert_lot assms(2) by cases auto
qed

lemma side_convert_lots:
  assumes "for_fold (convert_step user now) L acc w = (Ok acc', w')" "list_all (\<lambda>l. fits_i64 (lot_amount_micro l)) L"
  shows "side w w'"
  using assms
proof (induction L arbitrary: acc w)
  case (Cons l L)
  then obtain acc1 w1 where 1: "convert_step user now acc l w = (Ok acc1, w1)"
    "for_fold (convert_step user now) L acc1 w1 = (Ok acc', w')"
    by (auto simp: run_simps)
  then show ?case using side_convert_step[OF 1(1)] Cons.IH[OF 1(2)] Cons.prems(2) side.trans by auto
qed (simp add: run_simps)

text \<open>The lot table of the program holds \<open>i64\<close> amounts.\<close>

definition lots_typed :: "world \<Rightarrow> bool" where
  "lots_typed w \<longleftrightarrow> list_all (\<lambda>l. fits_i64 (lot_amount_micro l)) (lots (phase7 (committed w)) @ p_lots (p_phase7 (pending w)))"

lemma side_convert_then_collect:
  assumes "convert_then_collect user now key w = (Ok r, w')" "lots_typed w"
  shows "side w w'"
proof -
  from assms(1) obtain L acc w1 c where 1: "lots_for_user user w = (Ok L, w)"
    "for_fold (convert_step user now) L (0, 0, []) w = (Ok acc, w1)"
    "auto_collect user key (lit ''machine:convert:'' @ key) w1 = (Ok c, w')"
    by (auto simp: convert_then_collect_def run_simps lots_for_user_def split: prod.splits)
  have "list_all (\<lambda>l. fits_i64 (lot_amount_micro l)) L"
    using 1(1) assms(2) by (auto simp: lots_for_user_def run_simps lots_typed_def list_all_iff)
  then show ?thesis using side_convert_lots[OF 1(2)] side_auto_collect[OF 1(3)] side.trans by blast
qed

end
