(* ===== verification/Grants.thy ===== *)
theory Grants
  imports Requests Commits
begin

text \<open>
  Granting bonus credit (\<open>GrantCredit\<close> of application/src/money/credits.rs) and the referral use cases
  (application/src/money/referrals.rs), with the credit and referral rows of the in-memory store
  (application/src/fakes/credit.rs) that they read and write. Every grant mints credit against the house
  account; a daily cap bounds what is minted, and the bonus reserve bounds what is promised in cash.
\<close>

section \<open>Reads of the credit plane\<close>

text \<open>The reserve read opens the reserve account when it is missing; it reads the committed balance only.\<close>

definition bonus_reserve_balance :: "i64 tx" where
  "bonus_reserve_balance =
     seq (account BonusReserveOwner Usdc) (\<lambda>_.
     asks (\<lambda>w. case Option.bind (map_of (s_accounts (committed w)) (BonusReserveOwner, Usdc))
            (balance (s_balances (committed w))) of Some b \<Rightarrow> b | None \<Rightarrow> 0))"

definition remaining_promise_view :: "i64 tx" where
  "remaining_promise_view =
     inquire (\<lambda>w. remaining_real_money_promise (lots (phase7 (committed w)) @ p_lots (p_phase7 (pending w))) (all_allocations w))"

definition bonus_minted_since :: "time \<Rightarrow> i64 tx" where
  "bonus_minted_since since =
     inquire (\<lambda>w. try_fold (\<lambda>sum lot. ok_or (checked fits_i64 (sum + lot_amount_micro lot)) (Invariant ''bonus mint total overflow''))
       (filter (\<lambda>lot. since \<le> granted_at lot) (lots (phase7 (committed w)) @ p_lots (p_phase7 (pending w)))) 0)"

definition config_flag :: "ustring \<Rightarrow> bool tx" where
  "config_flag key = asks (\<lambda>w. case map_of (flags (phase7 (committed w))) key of Some b \<Rightarrow> b | None \<Rightarrow> False)"

definition config_text :: "ustring \<Rightarrow> ustring option tx" where
  "config_text key = asks (\<lambda>w. map_of (strings (phase7 (committed w))) key)"

definition phone_verified :: "user_id \<Rightarrow> bool tx" where
  "phone_verified user =
     asks (\<lambda>w. case map_of (phone_verifieds (phase7 (committed w))) user of Some b \<Rightarrow> b | None \<Rightarrow> False)"

section \<open>Granting credit\<close>

record GrantCreditCmd =
  gc_user :: user_id
  gc_amount :: micro_usd
  gc_source :: ustring
  gc_grant_class :: GrantClass
  gc_policy_version :: ustring
  gc_idempotency_key :: ustring
  gc_granted_at :: time

record GrantReceipt =
  gr_lot_id :: uuid
  gr_ledger_txn :: uuid
  gr_replayed :: bool

definition one_day :: int where
  "one_day = seconds (24 * 3600)"

text \<open>A used key: the lot it granted must be the one asked for.\<close>

definition replay_grant :: "GrantCreditCmd \<Rightarrow> uuid \<Rightarrow> GrantReceipt app" where
  "replay_grant cmd txn =
     seq (store (lot_by_idempotency (gc_idempotency_key cmd))) (\<lambda>found.
     seq (lift (ok_or found (AppStore (Invariant ''credit grant transaction has no grant lot'')))) (\<lambda>lot.
     if lot_user lot \<noteq> gc_user cmd \<or> lot_amount_micro lot \<noteq> gc_amount cmd \<or> lot_source lot \<noteq> gc_source cmd \<or>
        grant_class lot \<noteq> gc_grant_class cmd \<or> policy_version lot \<noteq> gc_policy_version cmd \<or>
        granted_at lot \<noteq> gc_granted_at cmd
     then fail IdempotencyConflict
     else ret \<lparr>gr_lot_id = lot_id lot, gr_ledger_txn = txn, gr_replayed = True\<rparr>))"

text \<open>The daily mint cap, and for real-money grants the reserve that backs every open promise.\<close>

definition check_mint :: "i64 \<Rightarrow> i64 \<Rightarrow> i64 \<Rightarrow> GrantClass \<Rightarrow> time \<Rightarrow> unit app" where
  "check_mint reserve mint_cap amount class' at =
     seq (store (bonus_minted_since (at - one_day))) (\<lambda>minted.
     seq (lift (ok_or (checked fits_i64 (minted + amount)) AppOverflow)) (\<lambda>next_minted.
     if mint_cap = 0 \<or> mint_cap < next_minted then fail (MoneyForbidden ''bonus mint cap'')
     else if class' = RealMoney then
       seq (store remaining_promise_view) (\<lambda>promised.
       seq (lift (ok_or (checked fits_i64 (promised + amount)) AppOverflow)) (\<lambda>next_promised.
       if reserve < next_promised then fail (InsufficientBonusReserve reserve next_promised) else ret ()))
     else ret ()))"

definition credit_granted_event :: "(uuid \<Rightarrow> ustring) \<Rightarrow> GrantCreditCmd \<Rightarrow> uuid \<Rightarrow> Event" where
  "credit_granted_event show_uuid cmd lot =
     \<lparr>event_type = ''CreditGranted'', aggregate_type = ''user'', aggregate_id = gc_user cmd,
      payload = Object
        [(lit ''amount_micro'', Num (gc_amount cmd)),
         (lit ''grant_class'', Str (lit (GrantClass_as_str (gc_grant_class cmd)))),
         (lit ''lot_id'', Str (show_uuid lot)),
         (lit ''source'', Str (gc_source cmd))]\<rparr>"

definition book_grant :: "GrantCreditCmd \<Rightarrow> GrantReceipt app" where
  "book_grant cmd =
     seq (store (account HouseOwner UsdcCredit)) (\<lambda>house.
     seq (store (account (UserOwner (gc_user cmd)) UsdcCredit)) (\<lambda>user.
     seq (lift (arith fits_i64 (- gc_amount cmd))) (\<lambda>minus.
     seq (store (ledger_apply CreditGrant (gc_idempotency_key cmd)
        [\<lparr>entry_account = house, entry_amount = minus\<rparr>, \<lparr>entry_account = user, entry_amount = gc_amount cmd\<rparr>])) (\<lambda>ledger_txn.
     seq new_v4 (\<lambda>new_id.
     seq (store (insert_credit_lot
        \<lparr>lot_id = new_id, lot_user = gc_user cmd, lot_source = gc_source cmd, lot_amount_micro = gc_amount cmd,
         granted_at = gc_granted_at cmd, grant_class = gc_grant_class cmd, policy_version = gc_policy_version cmd,
         converted_at = None\<rparr>)) (\<lambda>lot.
     seq (store (remember_lot_idempotency (gc_idempotency_key cmd) lot)) (\<lambda>_.
     seq (asks uuid_string) (\<lambda>show_uuid.
     seq (store (append_event (credit_granted_event show_uuid cmd lot))) (\<lambda>_.
     seq (store commit) (\<lambda>_.
     ret \<lparr>gr_lot_id = lot, gr_ledger_txn = ledger_txn, gr_replayed = False\<rparr>))))))))))"

definition grant_credit :: "GrantCreditCmd \<Rightarrow> GrantReceipt app" where
  "grant_credit cmd =
     seq open_tx (\<lambda>_.
     seq (store (txn_by_key (gc_idempotency_key cmd))) (\<lambda>found.
     case found of
       Some txn \<Rightarrow> replay_grant cmd txn
     | None \<Rightarrow>
         seq (convert_then_collect (gc_user cmd) (gc_granted_at cmd) (lit ''credit-grant-lock:'' @ gc_idempotency_key cmd)) (\<lambda>_.
         seq (enforce_money_mutation (gc_user cmd) GateCreditGrant (gc_amount cmd) (gc_granted_at cmd)) (\<lambda>_.
         seq (store bonus_reserve_balance) (\<lambda>reserve.
         seq (store (required_i64 (lit ''bonus_mint_daily_cap_micro''))) (\<lambda>mint_cap.
         seq (check_mint reserve mint_cap (gc_amount cmd) (gc_grant_class cmd) (gc_granted_at cmd)) (\<lambda>_.
         book_grant cmd)))))))"

section \<open>Referral codes and binds\<close>

definition referral_code_for_user :: "user_id \<Rightarrow> ustring option tx" where
  "referral_code_for_user user =
     asks (\<lambda>w. case find (\<lambda>(u, _). u = user) (p_referral_codes (p_phase7 (pending w))) of
         Some (_, code) \<Rightarrow> Some code
       | None \<Rightarrow> map_of (referral_codes (phase7 (committed w))) user)"

text \<open>\<open>insert_referral_code\<close> keeps codes unique, so the iteration order of the code table does not matter.\<close>

definition referral_code_owner :: "ustring \<Rightarrow> user_id option tx" where
  "referral_code_owner code =
     asks (\<lambda>w. case find (\<lambda>(_, c). c = code) (p_referral_codes (p_phase7 (pending w))) of
         Some (u, _) \<Rightarrow> Some u
       | None \<Rightarrow> map_option fst (find (\<lambda>(_, c). c = code) (referral_codes (phase7 (committed w)))))"

definition insert_referral_code :: "user_id \<Rightarrow> ustring \<Rightarrow> unit tx" where
  "insert_referral_code user code =
     seq (referral_code_for_user user) (\<lambda>mine.
     seq (if mine \<noteq> None then ret True else seq (referral_code_owner code) (\<lambda>other. ret (other \<noteq> None))) (\<lambda>taken.
     if taken then fail (Conflict ''referral code'')
     else buffer (\<lambda>p. p\<lparr>p_phase7 := (p_phase7 p)\<lparr>p_referral_codes := p_referral_codes (p_phase7 p) @ [(user, code)]\<rparr>\<rparr>)))"

definition insert_referral_bind :: "user_id \<Rightarrow> user_id \<Rightarrow> ustring \<Rightarrow> uuid tx" where
  "insert_referral_bind referrer referee bind_key =
     seq new_v4 (\<lambda>id'.
     seq (buffer (\<lambda>p. p\<lparr>p_phase7 := (p_phase7 p)\<lparr>p_binds := p_binds (p_phase7 p) @ [(id', referrer, referee, bind_key)]\<rparr>\<rparr>)) (\<lambda>_.
     ret id'))"

definition referral_bind_by_key :: "ustring \<Rightarrow> uuid option tx" where
  "referral_bind_by_key bind_key =
     asks (\<lambda>w. case find (\<lambda>(_, _, _, k). k = bind_key) (p_binds (p_phase7 (pending w))) of
         Some (i, _) \<Rightarrow> Some i
       | None \<Rightarrow> map_option fst (find (\<lambda>(_, _, _, k). k = bind_key) (referral_binds (phase7 (committed w)))))"

definition referral_bind_parties :: "uuid \<Rightarrow> (user_id \<times> user_id \<times> ustring) option tx" where
  "referral_bind_parties bind =
     asks (\<lambda>w. case find (\<lambda>(i, _). i = bind) (p_binds (p_phase7 (pending w))) of
         Some (_, row) \<Rightarrow> Some row
       | None \<Rightarrow> map_option snd (find (\<lambda>(i, _). i = bind) (referral_binds (phase7 (committed w)))))"

definition referral_bind_for_referee :: "user_id \<Rightarrow> uuid option tx" where
  "referral_bind_for_referee referee =
     asks (\<lambda>w. case find (\<lambda>(_, _, r, _). r = referee) (referral_binds (phase7 (committed w))) of
         Some (i, _) \<Rightarrow> Some i
       | None \<Rightarrow> map_option fst (find (\<lambda>(_, _, r, _). r = referee) (p_binds (p_phase7 (pending w)))))"


text \<open>
  The notional of a user's trades per paid market; the earliest settlement first, ties by market id. \<open>order_t\<close>
  is the iteration order of the trade table, in which the notionals are summed.
\<close>

record ReferralPaidMarket =
  rp_market :: market_id
  rp_notional_micro :: i64

type_synonym trade_order = "(uuid \<times> StoredTrade) list \<Rightarrow> (uuid \<times> StoredTrade) list"

definition state_seen :: "world \<Rightarrow> market_id \<Rightarrow> MarketState option" where
  "state_seen w m =
     (case find (\<lambda>p. fst p = m) (rev (p_market_states (pending w))) of
        Some (_, s) \<Rightarrow> Some s
      | None \<Rightarrow> map_option mk_state (map_of (s_markets (committed w)) m))"

definition settled_at_seen :: "world \<Rightarrow> market_id \<Rightarrow> time" where
  "settled_at_seen w m =
     (case find (\<lambda>p. fst p = m) (rev (p_lp_results (pending w))) of
        Some (_, _, at) \<Rightarrow> at
      | None \<Rightarrow> (case map_of (s_lp_results (committed w)) m of Some (_, at) \<Rightarrow> at | None \<Rightarrow> UNIX_EPOCH))"

definition paid_notionals :: "trade_order \<Rightarrow> world \<Rightarrow> user_id \<Rightarrow> (StoreError, (market_id \<times> i64) list) outcome" where
  "paid_notionals order_t w user =
     try_fold (\<lambda>by_market t.
         let m = nt_market (st_new t); total' = (case map_of by_market m of Some n \<Rightarrow> n | None \<Rightarrow> 0) in
         and_then (ok_or (checked fits_i64 (total' + nt_gross (st_new t))) (Invariant ''referral notional overflow''))
           (\<lambda>n. Ok (AList.update m n by_market)))
       (filter (\<lambda>t. nt_user (st_new t) = user \<and> state_seen w (nt_market (st_new t)) = Some Paid)
         (map snd (order_t (s_trades (committed w))))) []"

definition first_paid_market_for_user :: "trade_order \<Rightarrow> user_id \<Rightarrow> ReferralPaidMarket option tx" where
  "first_paid_market_for_user order_t user =
     inquire (\<lambda>w. and_then (paid_notionals order_t w user) (\<lambda>by_market.
       Ok (case sort_key (\<lambda>(m, _). settled_at_seen w m) (sort_key fst by_market) of
             [] \<Rightarrow> None | (m, n) # _ \<Rightarrow> Some \<lparr>rp_market = m, rp_notional_micro = n\<rparr>)))"

definition referral_referees_for_paid_market :: "market_id \<Rightarrow> user_id list tx" where
  "referral_referees_for_paid_market market =
     asks (\<lambda>w.
       let traders = map (\<lambda>t. nt_user (st_new t)) (filter (\<lambda>t. nt_market (st_new t) = market)
             (map snd (s_trades (committed w)))) in
       remdups_adj (sort (filter (\<lambda>r. r \<in> set traders)
         (map (\<lambda>(_, _, referee, _). referee) (referral_binds (phase7 (committed w)))))))"

section \<open>Issuing and binding codes\<close>

record IssueReferralCodeCmd =
  irc_user :: user_id
  irc_idempotency_key :: ustring

record ReferralCodeReceipt =
  rcr_code :: ustring
  rcr_replayed :: bool

text \<open>\<open>simple\<close> is the uuid's text without hyphens.\<close>

definition issue_referral_code :: "(uuid \<Rightarrow> ustring) \<Rightarrow> IssueReferralCodeCmd \<Rightarrow> ReferralCodeReceipt app" where
  "issue_referral_code simple cmd =
     seq open_tx (\<lambda>_.
     seq (store (referral_code_for_user (irc_user cmd))) (\<lambda>found.
     case found of
       Some code \<Rightarrow> ret \<lparr>rcr_code = code, rcr_replayed = True\<rparr>
     | None \<Rightarrow>
         seq new_v4 (\<lambda>fresh.
         let code = lit ''OP-'' @ simple fresh in
         seq (store (insert_referral_code (irc_user cmd) code)) (\<lambda>_.
         seq (store (append_event \<lparr>event_type = ''ReferralCodeIssued'', aggregate_type = ''user'',
            aggregate_id = irc_user cmd, payload = Object [(lit ''code'', Str code)]\<rparr>)) (\<lambda>_.
         seq (store commit) (\<lambda>_.
         ret \<lparr>rcr_code = code, rcr_replayed = False\<rparr>))))))"

record BindReferralCmd =
  br_referrer :: user_id
  br_referee :: user_id
  br_bind_key :: ustring
  br_idempotency_key :: ustring

record BindReceipt =
  bd_bind_id :: uuid
  bd_replayed :: bool

definition reconcile_bind_indexes :: "uuid option \<Rightarrow> uuid option \<Rightarrow> (StoreError, uuid option) outcome" where
  "reconcile_bind_indexes by_key by_referee =
     (if by_key \<noteq> None \<and> by_referee \<noteq> None \<and> by_key \<noteq> by_referee
      then Err (Invariant ''referral bind indexes disagree'')
      else Ok (case by_key of Some i \<Rightarrow> Some i | None \<Rightarrow> by_referee))"

definition require_bind_parties ::
  "(user_id \<times> user_id \<times> ustring) option \<Rightarrow> (StoreError, user_id \<times> user_id \<times> ustring) outcome" where
  "require_bind_parties parties = ok_or parties (Invariant ''referral bind index points to no row'')"

definition referral_pair_matches :: "user_id \<Rightarrow> user_id \<Rightarrow> user_id \<Rightarrow> user_id \<Rightarrow> bool" where
  "referral_pair_matches referrer referee expected_referrer expected_referee \<longleftrightarrow>
     referrer = expected_referrer \<and> referee = expected_referee \<and> referrer \<noteq> referee"

definition reject_reciprocal_bind :: "user_id \<Rightarrow> user_id \<Rightarrow> user_id \<Rightarrow> user_id \<Rightarrow> (AppError, unit) outcome" where
  "reject_reciprocal_bind reverse_referrer reverse_referee referrer referee =
     (if reverse_referrer = referee \<and> reverse_referee = referrer then Err ReferralIneligible else Ok ())"

definition bind_parties :: "uuid \<Rightarrow> (user_id \<times> user_id \<times> ustring) tx" where
  "bind_parties bind = seq (referral_bind_parties bind) (\<lambda>found. lift (require_bind_parties found))"

definition bind_referral :: "BindReferralCmd \<Rightarrow> BindReceipt app" where
  "bind_referral cmd =
     (if br_referrer cmd = br_referee cmd then fail ReferralIneligible
      else
        seq open_tx (\<lambda>_.
        seq (store (referral_bind_by_key (br_bind_key cmd))) (\<lambda>by_key.
        seq (store (referral_bind_for_referee (br_referee cmd))) (\<lambda>by_referee.
        seq (store (lift (reconcile_bind_indexes by_key by_referee))) (\<lambda>found.
        case found of
          Some i \<Rightarrow>
            seq (store (bind_parties i)) (\<lambda>(referrer, referee, bind_key).
            if referrer = br_referrer cmd \<and> referee = br_referee cmd \<and> bind_key = br_bind_key cmd
            then ret \<lparr>bd_bind_id = i, bd_replayed = True\<rparr>
            else fail ReferralIneligible)
        | None \<Rightarrow>
            seq (store (referral_bind_for_referee (br_referrer cmd))) (\<lambda>reverse.
            seq (case reverse of
                   None \<Rightarrow> ret ()
                 | Some reverse_id \<Rightarrow>
                     seq (store (bind_parties reverse_id)) (\<lambda>(reverse_referrer, reverse_referee, _).
                     lift (reject_reciprocal_bind reverse_referrer reverse_referee (br_referrer cmd) (br_referee cmd)))) (\<lambda>_.
            seq now_utc (\<lambda>_.
            seq (store (phone_verified (br_referee cmd))) (\<lambda>verified.
            if \<not> verified then fail ReferralIneligible
            else
              seq (store (insert_referral_bind (br_referrer cmd) (br_referee cmd) (br_bind_key cmd))) (\<lambda>bind_id.
              seq (asks uuid_string) (\<lambda>show_uuid.
              seq (store (append_event \<lparr>event_type = ''ReferralBound'', aggregate_type = ''user'',
                 aggregate_id = br_referee cmd,
                 payload = Object [(lit ''bind_key'', Str (br_bind_key cmd)),
                   (lit ''referrer'', Str (show_uuid (br_referrer cmd)))]\<rparr>)) (\<lambda>_.
              seq (store commit) (\<lambda>_.
              ret \<lparr>bd_bind_id = bind_id, bd_replayed = False\<rparr>)))))))))))))"

record BindReferralCodeCmd =
  bc_code :: ustring
  bc_referee :: user_id
  bc_bind_key :: ustring
  bc_idempotency_key :: ustring

definition bind_referral_code :: "BindReferralCodeCmd \<Rightarrow> BindReceipt app" where
  "bind_referral_code cmd =
     seq open_tx (\<lambda>_.
     seq (store (referral_code_owner (bc_code cmd))) (\<lambda>found.
     seq (lift (ok_or found ReferralIneligible)) (\<lambda>referrer.
     bind_referral \<lparr>br_referrer = referrer, br_referee = bc_referee cmd, br_bind_key = bc_bind_key cmd,
       br_idempotency_key = bc_idempotency_key cmd\<rparr>)))"

section \<open>Referral grants\<close>

record ReferralGrantPolicy =
  minimum_notional_micro :: i64
  referrer_amount_micro :: i64
  referee_amount_micro :: i64
  policy_grant_class :: GrantClass
  mint_cap_micro :: i64

definition bonus_class :: "ustring option \<Rightarrow> (StoreError, GrantClass) outcome" where
  "bonus_class structure =
     (case structure of
        None \<Rightarrow> Err (Invariant ''required money config missing or malformed'')
      | Some s \<Rightarrow>
          if s = lit ''real_money'' then Ok RealMoney
          else if s = lit ''sweeps'' then Ok Sweeps
          else Err (Invariant ''invalid persisted bonus structure''))"

definition required_referral_policy :: "ReferralGrantPolicy tx" where
  "required_referral_policy =
     seq (required_i64 (lit ''referral_min_notional_micro'')) (\<lambda>minimum.
     seq (required_i64 (lit ''credit_referral_referrer_micro'')) (\<lambda>referrer.
     seq (required_i64 (lit ''credit_referral_referee_micro'')) (\<lambda>referee.
     seq (config_text (lit ''bonus_structure'')) (\<lambda>structure.
     seq (lift (bonus_class structure)) (\<lambda>class'.
     seq (required_i64 (lit ''bonus_mint_daily_cap_micro'')) (\<lambda>cap.
     ret \<lparr>minimum_notional_micro = minimum, referrer_amount_micro = referrer, referee_amount_micro = referee,
         policy_grant_class = class', mint_cap_micro = cap\<rparr>))))))"

definition referee_grant_eligible :: "user_id \<Rightarrow> bool app" where
  "referee_grant_eligible referee =
     seq (store (phone_verified referee)) (\<lambda>verified.
     if \<not> verified then ret False
     else seq (store (referral_bind_for_referee referee)) (\<lambda>bind. ret (bind \<noteq> None)))"

definition referral_grant_class :: "ustring \<Rightarrow> GrantClass" where
  "referral_grant_class structure = (if structure = lit ''sweeps'' then Sweeps else RealMoney)"

record GrantReferralCmd =
  gf_referee :: user_id
  gf_paid_market :: market_id
  gf_granted_at :: time

record GrantReferralReceipt =
  gf_bind_id :: uuid
  gf_ledger_txn :: uuid
  gf_referrer_lot :: "uuid option"
  gf_referee_lot :: "uuid option"
  gf_replayed :: bool

definition grant_key :: "(uuid \<Rightarrow> ustring) \<Rightarrow> uuid \<Rightarrow> ustring" where
  "grant_key show_uuid bind = lit ''referral-grant:'' @ show_uuid bind"

definition validated_referral_lots ::
  "CreditLotRow option \<Rightarrow> CreditLotRow option \<Rightarrow> user_id \<Rightarrow> user_id \<Rightarrow> (StoreError, CreditLotRow \<times> CreditLotRow) outcome" where
  "validated_referral_lots referrer_lot referee_lot referrer referee =
     and_then (ok_or referrer_lot (Invariant ''referral grant transaction has no referrer lot'')) (\<lambda>referrer_lot.
     and_then (ok_or referee_lot (Invariant ''referral grant transaction has no referee lot'')) (\<lambda>referee_lot.
     if lot_user referrer_lot \<noteq> referrer \<or> lot_user referee_lot \<noteq> referee
     then Err (Invariant ''referral grant lots name the wrong users'')
     else Ok (referrer_lot, referee_lot)))"

definition granted_lots :: "ustring \<Rightarrow> user_id \<Rightarrow> user_id \<Rightarrow> (CreditLotRow \<times> CreditLotRow) tx" where
  "granted_lots key referrer referee =
     seq (lot_by_idempotency (key @ lit '':referrer'')) (\<lambda>referrer_lot.
     seq (lot_by_idempotency (key @ lit '':referee'')) (\<lambda>referee_lot.
     lift (validated_referral_lots referrer_lot referee_lot referrer referee)))"

definition referral_granted_event ::
  "(uuid \<Rightarrow> ustring) \<Rightarrow> uuid \<Rightarrow> market_id \<Rightarrow> GrantClass \<Rightarrow> user_id \<times> uuid \<times> i64 \<times> string \<Rightarrow> Event" where
  "referral_granted_event show_uuid bind paid_market class' row =
     (case row of (user, lot, amount, leg) \<Rightarrow>
       \<lparr>event_type = ''CreditGranted'', aggregate_type = ''user'', aggregate_id = user,
        payload = Object
          [(lit ''amount_micro'', Num amount),
           (lit ''grant_class'', Str (lit (GrantClass_as_str class'))),
           (lit ''lot_id'', Str (show_uuid lot)),
           (lit ''paid_market'', Str (show_uuid paid_market)),
           (lit ''source'', Str (lit ''referral:'' @ show_uuid bind @ lit '':'' @ lit leg))]\<rparr>)"

text \<open>Both legs in one ledger transaction, a lot for each party, and an event for each; nothing is committed here.\<close>

definition mint_legs :: "ustring \<Rightarrow> user_id \<Rightarrow> user_id \<Rightarrow> i64 \<Rightarrow> i64 \<Rightarrow> uuid tx" where
  "mint_legs key referrer referee referrer_amount referee_amount =
     seq (account HouseOwner UsdcCredit) (\<lambda>house.
     seq (account (UserOwner referrer) UsdcCredit) (\<lambda>referrer_account.
     seq (account (UserOwner referee) UsdcCredit) (\<lambda>referee_account.
     seq (lift (arith fits_i64 (- (referrer_amount + referee_amount)))) (\<lambda>minus.
     ledger_apply CreditGrant key
       [\<lparr>entry_account = house, entry_amount = minus\<rparr>,
        \<lparr>entry_account = referrer_account, entry_amount = referrer_amount\<rparr>,
        \<lparr>entry_account = referee_account, entry_amount = referee_amount\<rparr>]))))"

definition book_referral ::
  "uuid \<Rightarrow> user_id \<Rightarrow> user_id \<Rightarrow> i64 \<Rightarrow> i64 \<Rightarrow> GrantClass \<Rightarrow> market_id \<Rightarrow> time \<Rightarrow> (uuid \<times> uuid \<times> uuid) tx" where
  "book_referral bind referrer referee referrer_amount referee_amount class' paid_market at =
     seq (asks uuid_string) (\<lambda>show_uuid.
     let key = grant_key show_uuid bind; source = lit ''referral:'' @ show_uuid bind;
         version = lit ''referral-paid:'' @ show_uuid paid_market in
     seq (mint_legs key referrer referee referrer_amount referee_amount) (\<lambda>ledger_txn.
     seq new_v4 (\<lambda>referrer_lot.
     seq new_v4 (\<lambda>referee_lot.
     seq (insert_credit_lot
       \<lparr>lot_id = referrer_lot, lot_user = referrer, lot_source = source @ lit '':referrer'',
        lot_amount_micro = referrer_amount, granted_at = at, grant_class = class',
        policy_version = version, converted_at = None\<rparr>) (\<lambda>_.
     seq (remember_lot_idempotency (key @ lit '':referrer'') referrer_lot) (\<lambda>_.
     seq (insert_credit_lot
       \<lparr>lot_id = referee_lot, lot_user = referee, lot_source = source @ lit '':referee'',
        lot_amount_micro = referee_amount, granted_at = at, grant_class = class',
        policy_version = version, converted_at = None\<rparr>) (\<lambda>_.
     seq (remember_lot_idempotency (key @ lit '':referee'') referee_lot) (\<lambda>_.
     seq (for_each (\<lambda>row. append_event (referral_granted_event show_uuid bind paid_market class' row))
       [(referrer, referrer_lot, referrer_amount, ''referrer''), (referee, referee_lot, referee_amount, ''referee'')]) (\<lambda>_.
     ret (ledger_txn, referrer_lot, referee_lot))))))))))"

definition party_key :: "(uuid \<Rightarrow> ustring) \<Rightarrow> uuid \<Rightarrow> user_id \<Rightarrow> ustring" where
  "party_key show_uuid bind user = lit ''referral-grant-lock:'' @ show_uuid bind @ lit '':'' @ show_uuid user"

definition grant_referral :: "trade_order \<Rightarrow> GrantReferralCmd \<Rightarrow> GrantReferralReceipt app" where
  "grant_referral order_t cmd =
     seq open_tx (\<lambda>_.
     seq (asks uuid_string) (\<lambda>show_uuid.
     seq (store (referral_bind_for_referee (gf_referee cmd))) (\<lambda>found.
     seq (lift (ok_or found ReferralIneligible)) (\<lambda>bind_id.
     seq (store (bind_parties bind_id)) (\<lambda>(referrer, referee, _).
     if \<not> referral_pair_matches referrer referee referrer (gf_referee cmd) then fail ReferralIneligible
     else
       let key = grant_key show_uuid bind_id; users = sort [referrer, referee] in
       seq (store (txn_by_key key)) (\<lambda>used.
       case used of
         Some ledger_txn \<Rightarrow>
           seq (store (granted_lots key referrer referee)) (\<lambda>(referrer_lot, referee_lot).
           ret \<lparr>gf_bind_id = bind_id, gf_ledger_txn = ledger_txn, gf_referrer_lot = Some (lot_id referrer_lot),
               gf_referee_lot = Some (lot_id referee_lot), gf_replayed = True\<rparr>)
       | None \<Rightarrow>
           seq (store (bind_parties bind_id)) (\<lambda>(locked_referrer, locked_referee, _).
           if \<not> referral_pair_matches locked_referrer locked_referee referrer referee then fail ReferralIneligible
           else
             seq (store (config_flag (lit ''feature_referrals''))) (\<lambda>feature.
             seq (if feature then store (phone_verified referee) else ret False) (\<lambda>open_to.
             if \<not> open_to then fail ReferralIneligible
             else
               seq (store required_referral_policy) (\<lambda>policy.
               seq (for_each (\<lambda>user. seq (convert_then_collect user (gf_granted_at cmd) (party_key show_uuid bind_id user))
                      (\<lambda>_. ret ())) users) (\<lambda>_.
               seq (for_each (\<lambda>user. enforce_money_mutation user GateCreditGrant 0 (gf_granted_at cmd)) users) (\<lambda>_.
               seq (store (first_paid_market_for_user order_t referee)) (\<lambda>first.
               seq (lift (ok_or first ReferralIneligible)) (\<lambda>paid'.
               if rp_market paid' \<noteq> gf_paid_market cmd \<or> rp_notional_micro paid' < minimum_notional_micro policy
               then fail ReferralIneligible
               else if referrer_amount_micro policy \<le> 0 \<or> referee_amount_micro policy \<le> 0 then fail ReferralIneligible
               else
                 seq (lift (ok_or (checked fits_i64 (referrer_amount_micro policy + referee_amount_micro policy)) AppOverflow)) (\<lambda>total'.
                 seq (store bonus_reserve_balance) (\<lambda>reserve.
                 seq (check_mint reserve (mint_cap_micro policy) total' (policy_grant_class policy) (gf_granted_at cmd)) (\<lambda>_.
                 seq (store (book_referral bind_id referrer referee (referrer_amount_micro policy) (referee_amount_micro policy)
                   (policy_grant_class policy) (gf_paid_market cmd) (gf_granted_at cmd))) (\<lambda>(ledger_txn, referrer_lot, referee_lot).
                 seq (store commit) (\<lambda>_.
                 ret \<lparr>gf_bind_id = bind_id, gf_ledger_txn = ledger_txn, gf_referrer_lot = Some referrer_lot,
                     gf_referee_lot = Some referee_lot, gf_replayed = False\<rparr>)))))))))))))))))))"

section \<open>Referral grants inside a paying settlement\<close>

fun referral_operation_error :: "AppError \<Rightarrow> StoreError" where
  "referral_operation_error (AppStore e) = e"
| "referral_operation_error _ = Invariant ''referral grant money operation failed''"

text \<open>A refusal of the money gate ends the grant quietly; a store error ends the transaction.\<close>

definition gate_allows :: "user_id \<Rightarrow> time \<Rightarrow> bool tx" where
  "gate_allows user at w =
     (case enforce_money_mutation user GateCreditGrant 0 at w of
        (Ok _, w') \<Rightarrow> (Ok True, w')
      | (Err (AppStore e), w') \<Rightarrow> (Err e, w')
      | (Err _, w') \<Rightarrow> (Ok False, w')
      | (Panic, w') \<Rightarrow> (Panic, w'))"

fun prepare_parties :: "uuid \<Rightarrow> time \<Rightarrow> user_id list \<Rightarrow> bool tx" where
  "prepare_parties bind at [] = ret True"
| "prepare_parties bind at (user # users) =
     seq (gate_allows user at) (\<lambda>allowed.
     if \<not> allowed then ret False
     else
       seq (asks uuid_string) (\<lambda>show_uuid.
       seq (with_err referral_operation_error (convert_then_collect user at (party_key show_uuid bind user))) (\<lambda>_.
       prepare_parties bind at users)))"

definition mint_allows :: "i64 \<Rightarrow> i64 \<Rightarrow> i64 \<Rightarrow> GrantClass \<Rightarrow> time \<Rightarrow> bool tx" where
  "mint_allows reserve mint_cap amount class' at =
     seq (bonus_minted_since (at - one_day)) (\<lambda>minted.
     seq (lift (ok_or (checked fits_i64 (minted + amount)) (Invariant ''referral mint total overflow''))) (\<lambda>next_minted.
     if mint_cap = 0 \<or> mint_cap < next_minted then ret False
     else if class' = RealMoney then
       seq remaining_promise_view (\<lambda>promised.
       seq (lift (ok_or (checked fits_i64 (promised + amount)) (Invariant ''referral promise total overflow''))) (\<lambda>next_promised.
       ret (next_promised \<le> reserve)))
     else ret True))"

definition grant_referral_on_paid_in_tx :: "trade_order \<Rightarrow> user_id \<Rightarrow> market_id \<Rightarrow> time \<Rightarrow> bool tx" where
  "grant_referral_on_paid_in_tx order_t referee paid_market at =
     seq (referral_bind_for_referee referee) (\<lambda>found.
     case found of
       None \<Rightarrow> ret False
     | Some bind_id \<Rightarrow>
         seq (bind_parties bind_id) (\<lambda>(referrer, bound_referee, _).
         if \<not> referral_pair_matches referrer bound_referee referrer referee then ret False
         else
           seq (asks uuid_string) (\<lambda>show_uuid.
           let key = grant_key show_uuid bind_id in
           seq (txn_by_key key) (\<lambda>used.
           if used \<noteq> None then seq (granted_lots key referrer referee) (\<lambda>_. ret False)
           else
             seq (config_flag (lit ''feature_referrals'')) (\<lambda>feature.
             seq (if feature then phone_verified referee else ret False) (\<lambda>open_to.
             if \<not> open_to then ret False
             else
               seq required_referral_policy (\<lambda>policy.
               seq (prepare_parties bind_id at (sort [referrer, referee])) (\<lambda>prepared.
               if \<not> prepared then ret False
               else
                 seq (first_paid_market_for_user order_t referee) (\<lambda>first.
                 case first of
                   None \<Rightarrow> ret False
                 | Some paid' \<Rightarrow>
                     if rp_market paid' \<noteq> paid_market \<or> rp_notional_micro paid' < minimum_notional_micro policy
                     then ret False
                     else if referrer_amount_micro policy \<le> 0 \<or> referee_amount_micro policy \<le> 0 then ret False
                     else
                       seq (lift (ok_or (checked fits_i64 (referrer_amount_micro policy + referee_amount_micro policy))
                         (Invariant ''referral grant total overflow''))) (\<lambda>total'.
                       seq bonus_reserve_balance (\<lambda>reserve.
                       seq (mint_allows reserve (mint_cap_micro policy) total' (policy_grant_class policy) at) (\<lambda>allowed.
                       if \<not> allowed then ret False
                       else
                         seq (book_referral bind_id referrer referee (referrer_amount_micro policy)
                           (referee_amount_micro policy) (policy_grant_class policy) paid_market at) (\<lambda>_.
                         ret True)))))))))))))"

section \<open>All or nothing\<close>

lemma quiet_grant_reads [quiet_intros]:
  "framed quiet bonus_reserve_balance" "framed quiet remaining_promise_view" "framed quiet (bonus_minted_since t)"
  "framed quiet (config_flag k)" "framed quiet (config_text k)" "framed quiet (phone_verified u)"
  "framed quiet (referral_code_for_user u)" "framed quiet (referral_code_owner c)"
  "framed quiet (referral_bind_by_key k)" "framed quiet (referral_bind_parties b)" "framed quiet (referral_bind_for_referee u)"
  "framed quiet (first_paid_market_for_user ot u)" "framed quiet (referral_referees_for_paid_market m)"
  unfolding bonus_reserve_balance_def remaining_promise_view_def bonus_minted_since_def config_flag_def config_text_def
    phone_verified_def referral_code_for_user_def referral_code_owner_def referral_bind_by_key_def
    referral_bind_parties_def referral_bind_for_referee_def first_paid_market_for_user_def
    referral_referees_for_paid_market_def
  by (intro quiet_intros quiet.framed_rules)+

lemma quiet_grant_writes [quiet_intros]:
  "framed quiet (insert_referral_code u c)" "framed quiet (insert_referral_bind r e k)" "framed quiet (bind_parties b)"
  "framed quiet (granted_lots k r e)" "framed quiet required_referral_policy"
  unfolding insert_referral_code_def insert_referral_bind_def bind_parties_def granted_lots_def
    required_referral_policy_def required_i64_def config_i64_def
  by (intro quiet_intros quiet.framed_rules)+

lemma quiet_required_i64 [quiet_intros]: "framed quiet (required_i64 k)"
  unfolding required_i64_def config_i64_def by (intro quiet_intros quiet.framed_rules)

lemma quiet_mint [quiet_intros]:
  "framed quiet (check_mint r c a g t)" "framed quiet (mint_allows r c a g t)"
  unfolding check_mint_def mint_allows_def by (intro quiet_intros quiet.framed_rules)+

lemma quiet_book_referral [quiet_intros]: "framed quiet (book_referral b r e x y c m t)"
  unfolding book_referral_def mint_legs_def by (intro quiet_intros quiet.framed_rules)

lemma quiet_gate_allows [quiet_intros]: "framed quiet (gate_allows u t)"
  unfolding framed_def
proof
  fix w
  obtain r w' where r: "enforce_money_mutation u GateCreditGrant 0 t w = (r, w')" by force
  have "quiet w w'" by (rule framedD[OF quiet_gate(2) r])
  then show "quiet w (snd (gate_allows u t w))"
    by (auto simp: gate_allows_def r split: outcome.split AppError.split)
qed

lemma quiet_prepare_parties [quiet_intros]: "framed quiet (prepare_parties b t us)"
  by (induction us) (auto intro!: quiet_intros quiet.framed_rules)

lemma quiet_grant_in_tx [quiet_intros]: "framed quiet (grant_referral_on_paid_in_tx ot u m t)"
  unfolding grant_referral_on_paid_in_tx_def by (intro quiet_intros quiet.framed_rules)

lemma quiet_replay_grant [quiet_intros]: "framed quiet (replay_grant cmd txn)"
  unfolding replay_grant_def by (intro quiet_intros quiet.framed_rules)

lemma atomic_grant_credit: "atomic quiet (grant_credit cmd)"
  unfolding grant_credit_def book_grant_def
  by (intro quiet.atomic_finish quiet.atomic_rules quiet_intros quiet.framed_rules atomic_store_commit)
     (rule quiet.atomic_framed, rule quiet_replay_grant)

lemma atomic_issue_referral_code: "atomic quiet (issue_referral_code simple cmd)"
  unfolding issue_referral_code_def
  by (intro quiet.atomic_finish quiet.atomic_rules quiet_intros quiet.framed_rules atomic_store_commit)

lemma atomic_bind_referral: "atomic quiet (bind_referral cmd)"
  unfolding bind_referral_def
  by (intro quiet.atomic_finish quiet.atomic_rules quiet_intros quiet.framed_rules atomic_store_commit
      quiet.atomic_framed[OF quiet.framed_fail])

lemma atomic_bind_referral_code: "atomic quiet (bind_referral_code cmd)"
  unfolding bind_referral_code_def
  by (intro quiet.atomic_rules atomic_bind_referral quiet_intros quiet.framed_rules)

lemma atomic_grant_referral: "atomic quiet (grant_referral ot cmd)"
  unfolding grant_referral_def
  by (intro quiet.atomic_finish quiet.atomic_rules quiet_intros quiet.framed_rules atomic_store_commit
      quiet.atomic_framed[OF quiet.framed_fail])

end
