(* ===== verification/Trading.thy ===== *)
theory Trading
  imports Requests Commits
begin

text \<open>
  Placing a trade (application/src/place_trade.rs) and previewing one (application/src/preview_trade.rs),
  over the store of \<open>Store.thy\<close>. \<open>place_trade\<close> is the use case's \<open>execute\<close> in stages, in its order: replay,
  admission, pricing, the fence point, booking. The theorems: a trade is all or nothing and happens at most
  once per key; every gate holds on a trade that returns; a trade keeps every market backed; a preview
  quotes the numbers that the trade then books.
\<close>

section \<open>Commands and quotes\<close>

record PlaceTradeCmd =
  tc_market :: market_id
  tc_user :: user_id
  tc_side :: Side
  tc_action :: TradeAction
  tc_amount_micro :: i64
  tc_idempotency_key :: ustring
  tc_run_id :: "uuid option"
  tc_pending_action_id :: "uuid option"
  tc_expected_config_version :: "i64 option"

record QuotedLegs =
  lg_shares :: micro_shares
  lg_gross :: micro_usd
  lg_fee :: micro_usd
  lg_avg_price_micro :: i64
  lg_pool_after :: Pool
  lg_user_delta :: i64
  lg_escrow_delta :: i64
  lg_fee_delta :: i64
  lg_position :: PositionRow
  lg_realized_delta :: "micro_usd option"

text \<open>Integer division of \<open>i128\<close> values truncates; both divisors below are positive.\<close>

definition avg_price_micro :: "micro_usd \<Rightarrow> micro_shares \<Rightarrow> (AppError, i64) outcome" where
  "avg_price_micro gross shares =
     (if shares \<le> 0 then Err AppOverflow
      else
        and_then (arith fits_i128 (gross * 1000000)) (\<lambda>scaled.
        ok_or (checked fits_i64 (tdiv scaled shares)) AppOverflow))"

definition buy_legs ::
  "PlaceTradeCmd \<Rightarrow> Pool \<Rightarrow> PositionRow \<Rightarrow> basis_points \<Rightarrow> (AppError, QuotedLegs) outcome" where
  "buy_legs cmd pool position fee =
     (let gross = tc_amount_micro cmd in
      and_then (map_err AppAmm (quote_buy pool (tc_side cmd) gross fee)) (\<lambda>q.
      and_then (ok_or (checked fits_i64 (gross - buy_fee q)) AppOverflow) (\<lambda>net.
      and_then (ok_or (checked fits_i64 (pos_shares position + shares_out q)) AppOverflow) (\<lambda>shares.
      and_then (ok_or (checked fits_i64 (pos_cost position + gross)) AppOverflow) (\<lambda>cost.
      and_then (arith fits_i64 (- gross)) (\<lambda>user_delta.
      Ok \<lparr>lg_shares = shares_out q, lg_gross = gross, lg_fee = buy_fee q,
          lg_avg_price_micro = avg_price_micro_per_share q, lg_pool_after = buy_pool_after q,
          lg_user_delta = user_delta, lg_escrow_delta = net, lg_fee_delta = buy_fee q,
          lg_position = position\<lparr>pos_shares := shares, pos_cost := cost\<rparr>, lg_realized_delta = None\<rparr>))))))"

definition sell_legs ::
  "PlaceTradeCmd \<Rightarrow> Pool \<Rightarrow> PositionRow \<Rightarrow> basis_points \<Rightarrow> (AppError, QuotedLegs) outcome" where
  "sell_legs cmd pool position fee =
     (let shares = tc_amount_micro cmd in
      if pos_shares position < shares \<or> shares \<le> 0 then Err InsufficientShares
      else
        and_then (map_err AppAmm (quote_sell pool (tc_side cmd) shares fee)) (\<lambda>q.
        and_then (ok_or (checked fits_i64 (collateral_out q + sell_fee q)) AppOverflow) (\<lambda>proceeds.
        and_then (arith fits_i128 (pos_cost position * shares)) (\<lambda>weighted.
        and_then (ok_or (checked fits_i64 (tdiv weighted (pos_shares position))) AppOverflow) (\<lambda>relieved.
        and_then (ok_or (checked fits_i64 (collateral_out q - relieved)) AppOverflow) (\<lambda>pnl.
        and_then (ok_or (checked fits_i64 (pos_realized_pnl position + pnl)) AppOverflow) (\<lambda>realized.
        and_then (arith fits_i64 (pos_shares position - shares)) (\<lambda>left.
        and_then (ok_or (checked fits_i64 (pos_cost position - relieved)) AppOverflow) (\<lambda>cost.
        and_then (avg_price_micro proceeds shares) (\<lambda>avg.
        and_then (arith fits_i64 (- proceeds)) (\<lambda>escrow_delta.
        Ok \<lparr>lg_shares = shares, lg_gross = proceeds, lg_fee = sell_fee q, lg_avg_price_micro = avg,
            lg_pool_after = sell_pool_after q, lg_user_delta = collateral_out q, lg_escrow_delta = escrow_delta,
            lg_fee_delta = sell_fee q,
            lg_position = position\<lparr>pos_realized_pnl := realized, pos_shares := left, pos_cost := cost\<rparr>,
            lg_realized_delta = Some pnl\<rparr>)))))))))))"

definition quote_legs ::
  "PlaceTradeCmd \<Rightarrow> Pool \<Rightarrow> outcome_id \<Rightarrow> PositionRow option \<Rightarrow> basis_points \<Rightarrow> (AppError, QuotedLegs) outcome" where
  "quote_legs cmd pool outcome held fee =
     (let position = (case held of Some p \<Rightarrow> p
            | None \<Rightarrow> \<lparr>pos_user = tc_user cmd, pos_outcome = outcome, pos_shares = 0, pos_cost = 0, pos_realized_pnl = 0\<rparr>) in
      case tc_action cmd of
        Buy \<Rightarrow> buy_legs cmd pool position fee
      | Sell \<Rightarrow> sell_legs cmd pool position fee)"

section \<open>The stages of a trade\<close>

text \<open>A key that has been used: the stored request must match, and the original receipt is returned.\<close>

definition replay_trade :: "PlaceTradeCmd \<Rightarrow> ustring \<Rightarrow> uuid \<Rightarrow> TradeReceipt app" where
  "replay_trade cmd fingerprint txn =
     seq (store (request_fingerprint (tc_idempotency_key cmd))) (\<lambda>stored.
     seq (lift (validate_replay_fingerprint stored fingerprint)) (\<lambda>_.
     seq (store (trade_by_ledger_txn txn)) (\<lambda>found.
     seq (lift (ok_or found (AppStore (Invariant ''idempotency key exists without a trade row'')))) (\<lambda>receipt.
     ret (receipt\<lparr>replayed := True\<rparr>)))))"

definition outcome_of :: "MarketRow \<Rightarrow> Side \<Rightarrow> outcome_id" where
  "outcome_of market sd = (case sd of Yes \<Rightarrow> yes_outcome market | No \<Rightarrow> no_outcome market)"

definition check_open :: "MarketRow \<Rightarrow> unit app" where
  "check_open market =
     (case mk_state market of
        Closing \<Rightarrow> fail TradingFrozen
      | Live \<Rightarrow> seq clock_now (\<lambda>now. if tally_hidden_at market \<le> now then fail TradingFrozen else ret ())
      | _ \<Rightarrow> fail MarketNotOpen)"

text \<open>Conversion and collection, the money gate, the market's state and the vote gate.\<close>

definition admit_trade :: "PlaceTradeCmd \<Rightarrow> (ReputationRow \<times> MarketRow) app" where
  "admit_trade cmd =
     seq clock_now (\<lambda>now.
     seq (convert_then_collect (tc_user cmd) now (tc_idempotency_key cmd)) (\<lambda>_.
     seq clock_now (\<lambda>now.
     seq (enforce_money_mutation (tc_user cmd) GatePlaceTrade (tc_amount_micro cmd) now) (\<lambda>_.
     seq (store (user_rep (tc_user cmd))) (\<lambda>rep.
     seq (store (market_for_update (tc_market cmd))) (\<lambda>market.
     seq (check_open market) (\<lambda>_.
     seq (store (user_voted (tc_user cmd) (tc_market cmd))) (\<lambda>voted.
     if \<not> voted then fail VoteRequired else ret (rep, market)))))))))"

definition flip_within_window :: "RepConfig \<Rightarrow> TradeAction \<Rightarrow> time option \<Rightarrow> bool app" where
  "flip_within_window rep_config action last_buy =
     (if action = Sell \<and> discount_flip_window_secs rep_config \<noteq> 0 then
        (case last_buy of
           None \<Rightarrow> ret False
         | Some last' \<Rightarrow> seq clock_now (\<lambda>now. ret (now - last' < seconds (window_of rep_config))))
      else ret False)"

definition check_cap :: "RepConfig \<Rightarrow> PlaceTradeCmd \<Rightarrow> u8 \<Rightarrow> unit app" where
  "check_cap rep_config cmd tier =
     (if tc_action cmd = Buy then
        seq (store (market_position_cost (tc_user cmd) (tc_market cmd))) (\<lambda>current.
        let cap = position_cap_micro_by_tier rep_config ! nat (min tier 4) in
        seq (lift (ok_or (checked fits_i64 (current + tc_amount_micro cmd)) AppOverflow)) (\<lambda>projected.
        if cap < projected then fail (PositionCapExceeded cap tier) else ret ()))
      else ret ())"

record TradeTerms =
  tt_rep :: ReputationRow
  tt_market :: MarketRow
  tt_pool :: Pool
  tt_outcome :: outcome_id
  tt_last_buy :: "time option"
  tt_override :: FeeBpsOverride
  tt_fee :: basis_points
  tt_held :: "PositionRow option"

definition price_trade :: "RepConfig \<Rightarrow> PlaceTradeCmd \<Rightarrow> ReputationRow \<Rightarrow> MarketRow \<Rightarrow> TradeTerms app" where
  "price_trade rep_config cmd rep market =
     seq (store (pool_for_update (tc_market cmd))) (\<lambda>pool.
     let outcome = outcome_of market (tc_side cmd) in
     seq (store (last_buy_at (tc_user cmd) outcome)) (\<lambda>last_buy.
     seq (flip_within_window rep_config (tc_action cmd) last_buy) (\<lambda>is_flip.
     seq (asks uuid_string) (\<lambda>show_uuid.
     seq (store (fence_config_value (fee_override_key show_uuid (tc_market cmd)))) (\<lambda>value.
     seq (lift (map_err AppStore (FeeBpsOverride_parse value))) (\<lambda>override_bps.
     let fee = effective_fee \<lparr>base_bps = base_bps_of override_bps (pool_fee pool), fee_tier = rep_tier rep,
           discount_bp_by_tier = fee_discount_bp_by_tier rep_config, min_fee_bps = rep_min_fee_bps rep_config,
           is_flip_within_window = is_flip\<rparr> in
     seq (check_cap rep_config cmd (rep_tier rep)) (\<lambda>_.
     seq (store (position_for_update (tc_user cmd) outcome)) (\<lambda>held.
     ret \<lparr>tt_rep = rep, tt_market = market, tt_pool = pool, tt_outcome = outcome, tt_last_buy = last_buy,
         tt_override = override_bps, tt_fee = fee, tt_held = held\<rparr>))))))))"

text \<open>
  The fence point: pauses, then staleness of the preview, then the request fingerprint. The shared fences
  themselves are no-ops of the in-memory store.
\<close>

definition check_pauses :: "PlaceTradeCmd \<Rightarrow> unit app" where
  "check_pauses cmd =
     seq (asks uuid_string) (\<lambda>show_uuid.
     seq (store (fence_config_value (lit ''trading_paused''))) (\<lambda>global.
     seq (if pause_in_force global then ret True
          else seq (store (fence_config_value (lit ''market_paused:'' @ show_uuid (tc_market cmd))))
            (\<lambda>v. ret (pause_in_force v))) (\<lambda>trading_paused.
     if trading_paused then fail TradingPaused
     else
       seq (store (fence_config_value (lit ''voting_paused:'' @ show_uuid (tc_market cmd)))) (\<lambda>v.
       if pause_in_force v then fail VotingPaused else ret ()))))"

definition check_fresh :: "RepConfig \<Rightarrow> PlaceTradeCmd \<Rightarrow> i64 \<Rightarrow> TradeTerms \<Rightarrow> unit app" where
  "check_fresh rep_config cmd expected_config_version terms =
     seq (store (fence_changes_since expected_config_version)) (\<lambda>(current_generation, changed).
     seq (case changed of
            None \<Rightarrow> ret True
          | Some cs \<Rightarrow>
              seq (case tt_last_buy terms of
                     None \<Rightarrow> ret None
                   | Some last' \<Rightarrow> seq clock_now (\<lambda>now. ret (Some (whole_seconds (now - last'))))) (\<lambda>since.
              seq (asks uuid_string) (\<lambda>show_uuid.
              lift (preview_relevant_drift show_uuid cs
                \<lparr>sc_user_tier = rep_tier (tt_rep terms), sc_pool_fee_bps = pool_fee (tt_pool terms),
                 sc_active_fee_override = tt_override terms, sc_rep = rep_config, sc_action = tc_action cmd,
                 sc_secs_since_last_buy = since, sc_market = Some (tc_market cmd)\<rparr>)))) (\<lambda>stale.
     if stale then fail (StaleConfig expected_config_version current_generation) else ret ()))"

section \<open>Booking a trade\<close>

text \<open>
  The event payload, with its keys in the order of \<open>serde_json\<close>'s sorted map; how a time stamp is
  written is the \<open>time\<close> library's.
\<close>

definition trade_placed_event ::
  "(uuid \<Rightarrow> ustring) \<Rightarrow> (time \<Rightarrow> Value) \<Rightarrow> PlaceTradeCmd \<Rightarrow> ustring \<Rightarrow> InsertedTrade \<Rightarrow> QuotedLegs \<Rightarrow> Event" where
  "trade_placed_event show_uuid time_json cmd user_handle inserted legs =
     \<lparr>event_type = ''TradePlaced'', aggregate_type = ''market'', aggregate_id = tc_market cmd,
      payload = Object
        [(lit ''action'', Str (map to_ascii_lowercase (TradeAction_debug (tc_action cmd)))),
         (lit ''collateral_micro'', Num (lg_gross legs)),
         (lit ''created_at'', time_json (it_created_at inserted)),
         (lit ''fee_micro'', Num (lg_fee legs)),
         (lit ''handle'', Str user_handle),
         (lit ''market_id'', Str (show_uuid (tc_market cmd))),
         (lit ''shares_micro'', Num (lg_shares legs)),
         (lit ''side'', Str (map to_ascii_lowercase (Side_debug (tc_side cmd)))),
         (lit ''trade_id'', Str (show_uuid (it_id inserted))),
         (lit ''trade_seq'', Num (it_trade_seq inserted)),
         (lit ''user_id'', Str (show_uuid (tc_user cmd)))]\<rparr>"

text \<open>The user's and the escrow's entry, and the fee entry when there is a fee.\<close>

definition trade_entries :: "PlaceTradeCmd \<Rightarrow> QuotedLegs \<Rightarrow> Entry list app" where
  "trade_entries cmd legs =
     seq (store (account (UserOwner (tc_user cmd)) Usdc)) (\<lambda>user_acct.
     seq (store (account (MarketEscrow (tc_market cmd)) Usdc)) (\<lambda>escrow_acct.
     let es = [\<lparr>entry_account = user_acct, entry_amount = lg_user_delta legs\<rparr>,
               \<lparr>entry_account = escrow_acct, entry_amount = lg_escrow_delta legs\<rparr>] in
     if lg_fee_delta legs \<noteq> 0 then
       seq (store (account FeesOwner Usdc)) (\<lambda>fees_acct.
       ret (es @ [\<lparr>entry_account = fees_acct, entry_amount = lg_fee_delta legs\<rparr>]))
     else ret es))"

definition realize_sale :: "PlaceTradeCmd \<Rightarrow> outcome_id \<Rightarrow> QuotedLegs \<Rightarrow> uuid \<Rightarrow> unit app" where
  "realize_sale cmd outcome legs txn =
     (case lg_realized_delta legs of
        None \<Rightarrow> ret ()
      | Some realized_delta \<Rightarrow>
          seq clock_now (\<lambda>now.
          seq (store (insert_realization
            \<lparr>rz_user = tc_user cmd, rz_market = tc_market cmd, rz_outcome = outcome, rz_source = SellRealization,
             rz_realized_delta = realized_delta, rz_payout = lg_user_delta legs, rz_ledger_txn = txn,
             rz_created_at = now\<rparr>)) (\<lambda>_. ret ())))"

definition new_trade :: "PlaceTradeCmd \<Rightarrow> outcome_id \<Rightarrow> QuotedLegs \<Rightarrow> uuid \<Rightarrow> NewTrade" where
  "new_trade cmd outcome legs txn =
     \<lparr>nt_market = tc_market cmd, nt_user = tc_user cmd, nt_outcome = outcome, nt_side = tc_side cmd,
      nt_action = tc_action cmd, nt_shares = lg_shares legs, nt_gross = lg_gross legs, nt_fee = lg_fee legs,
      nt_avg_price_micro = lg_avg_price_micro legs, nt_ledger_txn = txn, nt_run_id = tc_run_id cmd,
      nt_pending_action_id = tc_pending_action_id cmd\<rparr>"

text \<open>The fee counts towards the user's credit lots.\<close>

definition allocate_fee :: "user_id \<Rightarrow> trade_id \<Rightarrow> micro_usd \<Rightarrow> unit app" where
  "allocate_fee user trade fee =
     (if 0 < fee then
        seq (store (lots_for_user user)) (\<lambda>lots'.
        seq (for_fold (\<lambda>facts lot. seq (store (allocations_for_lot (lot_id lot))) (\<lambda>more. ret (facts @ more))) lots' []) (\<lambda>facts.
        seq (with_err (\<lambda>_. AppStore (Invariant ''credit allocation algebra''))
          (plan_trade_allocations lots' facts trade fee)) (\<lambda>planned.
        for_each (\<lambda>f. store (insert_allocation f)) planned)))
      else ret ())"

definition book_trade :: "(time \<Rightarrow> Value) \<Rightarrow> PlaceTradeCmd \<Rightarrow> TradeTerms \<Rightarrow> TradeReceipt app" where
  "book_trade time_json cmd terms =
     seq (lift (quote_legs cmd (tt_pool terms) (tt_outcome terms) (tt_held terms) (tt_fee terms))) (\<lambda>legs.
     seq (trade_entries cmd legs) (\<lambda>es.
     seq (store (ledger_apply Trade (tc_idempotency_key cmd) es)) (\<lambda>ledger_txn.
     seq (realize_sale cmd (tt_outcome terms) legs ledger_txn) (\<lambda>_.
     seq (store (save_reserves (tc_market cmd) (lg_pool_after legs))) (\<lambda>_.
     seq (store (save_position (lg_position legs))) (\<lambda>_.
     seq (store (handle (tc_user cmd))) (\<lambda>user_handle.
     seq (store (insert_trade (new_trade cmd (tt_outcome terms) legs ledger_txn))) (\<lambda>inserted.
     seq (asks uuid_string) (\<lambda>show_uuid.
     seq (store (append_event (trade_placed_event show_uuid time_json cmd user_handle inserted legs))) (\<lambda>_.
     seq (allocate_fee (tc_user cmd) (it_id inserted) (lg_fee legs)) (\<lambda>_.
     seq (store commit) (\<lambda>_.
     ret \<lparr>rc_trade_id = it_id inserted, rc_ledger_txn = ledger_txn, rc_side = tc_side cmd,
         rc_action = tc_action cmd, rc_shares = lg_shares legs, rc_gross = lg_gross legs, rc_fee = lg_fee legs,
         rc_avg_price_micro = lg_avg_price_micro legs, replayed = False\<rparr>))))))))))))"

section \<open>Placing a trade\<close>

definition place_trade :: "(time \<Rightarrow> Value) \<Rightarrow> RepConfig \<Rightarrow> PlaceTradeCmd \<Rightarrow> TradeReceipt app" where
  "place_trade time_json rep_config cmd =
     seq (lift (ok_or (tc_expected_config_version cmd) ExpectedConfigVersionRequired)) (\<lambda>expected_config_version.
     seq open_tx (\<lambda>_.
     seq (asks uuid_string) (\<lambda>show_uuid.
     let fingerprint = trade_fingerprint show_uuid (tc_market cmd) (tc_user cmd) (tc_side cmd) (tc_action cmd)
           (tc_amount_micro cmd) (tc_expected_config_version cmd) in
     seq (store (txn_by_key (tc_idempotency_key cmd))) (\<lambda>found.
     case found of
       Some txn \<Rightarrow> replay_trade cmd fingerprint txn
     | None \<Rightarrow>
         seq (admit_trade cmd) (\<lambda>(rep, market).
         seq (price_trade rep_config cmd rep market) (\<lambda>terms.
         seq (check_pauses cmd) (\<lambda>_.
         seq (check_fresh rep_config cmd expected_config_version terms) (\<lambda>_.
         seq (store (save_request_fingerprint (tc_idempotency_key cmd) fingerprint)) (\<lambda>_.
         book_trade time_json cmd terms)))))))))"

section \<open>Previews\<close>

record PreviewTradeCmd =
  pv_market_ref :: ustring
  pv_user_id :: user_id
  pv_side :: Side
  pv_action :: TradeAction
  pv_amount_micro :: i64

record TradePreview =
  tp_market :: market_id
  tp_side :: Side
  tp_action :: TradeAction
  tp_shares :: micro_shares
  tp_gross :: micro_usd
  tp_fee :: micro_usd
  tp_avg_price_micro :: i64
  tp_config_version :: i64

text \<open>
  What a preview takes from outside: the uuid parser, the iteration order of the market table, and the
  configuration snapshot (generation and values) it reads without a lock.
\<close>

record PreviewSource =
  parse_uuid :: "ustring \<Rightarrow> uuid option"
  market_order :: "(uuid \<times> MarketRow) list \<Rightarrow> (uuid \<times> MarketRow) list"
  current_generation :: "(StoreError, i64) outcome"
  snapshot_value :: "ustring \<Rightarrow> (StoreError, Value option) outcome"

definition market_by_ref :: "PreviewSource \<Rightarrow> ustring \<Rightarrow> MarketRow tx" where
  "market_by_ref src r =
     inquire (\<lambda>w. case parse_uuid src r of
         Some i \<Rightarrow> ok_or (map_of (s_markets (committed w)) i) (NotFound ''market'')
       | None \<Rightarrow> ok_or (find (\<lambda>m. slug m = r) (map snd (market_order src (s_markets (committed w))))) (NotFound ''market''))"

definition pool_query :: "market_id \<Rightarrow> Pool tx" where
  "pool_query m = inquire (\<lambda>w. ok_or (map_of (s_pools (committed w)) m) (NotFound ''pool''))"

definition quote_preview ::
  "PreviewTradeCmd \<Rightarrow> market_id \<Rightarrow> Pool \<Rightarrow> basis_points \<Rightarrow> i64 \<Rightarrow> (AppError, TradePreview) outcome" where
  "quote_preview cmd market pool fee config_version =
     (case pv_action cmd of
        Buy \<Rightarrow>
          and_then (map_err AppAmm (quote_buy pool (pv_side cmd) (pv_amount_micro cmd) fee)) (\<lambda>q.
          Ok \<lparr>tp_market = market, tp_side = pv_side cmd, tp_action = pv_action cmd, tp_shares = shares_out q,
              tp_gross = pv_amount_micro cmd, tp_fee = buy_fee q,
              tp_avg_price_micro = avg_price_micro_per_share q, tp_config_version = config_version\<rparr>)
      | Sell \<Rightarrow>
          and_then (map_err AppAmm (quote_sell pool (pv_side cmd) (pv_amount_micro cmd) fee)) (\<lambda>q.
          and_then (ok_or (checked fits_i64 (collateral_out q + sell_fee q)) AppOverflow) (\<lambda>gross.
          and_then (avg_price_micro gross (pv_amount_micro cmd)) (\<lambda>avg.
          Ok \<lparr>tp_market = market, tp_side = pv_side cmd, tp_action = pv_action cmd, tp_shares = pv_amount_micro cmd,
              tp_gross = gross, tp_fee = sell_fee q, tp_avg_price_micro = avg,
              tp_config_version = config_version\<rparr>))))"

definition preview_trade :: "PreviewSource \<Rightarrow> RepConfig \<Rightarrow> PreviewTradeCmd \<Rightarrow> TradePreview app" where
  "preview_trade src rep_config cmd =
     seq (store (lift (current_generation src))) (\<lambda>config_version.
     seq (store (market_by_ref src (pv_market_ref cmd))) (\<lambda>market.
     seq (asks uuid_string) (\<lambda>show_uuid.
     seq (if mk_state market = Live then
            seq clock_now (\<lambda>now.
            if now < tally_hidden_at market then
              seq (store (lift (snapshot_value src (lit ''voting_paused:'' @ show_uuid (mk_id market)))))
                (\<lambda>v. ret (pause_in_force v))
            else ret False)
          else ret False) (\<lambda>voting_paused.
     if voting_paused then fail VotingPaused
     else
       seq (store (pool_query (mk_id market))) (\<lambda>pool.
       seq (store (user_rep (pv_user_id cmd))) (\<lambda>rep.
       let outcome = outcome_of market (pv_side cmd) in
       seq (if pv_action cmd = Sell \<and> discount_flip_window_secs rep_config \<noteq> 0 then
              seq (store (last_buy_at (pv_user_id cmd) outcome)) (flip_within_window rep_config (pv_action cmd))
            else ret False) (\<lambda>is_flip.
       seq (store (lift (snapshot_value src (fee_override_key show_uuid (mk_id market))))) (\<lambda>value.
       seq (lift (map_err AppStore (FeeBpsOverride_parse value))) (\<lambda>override_bps.
       let fee = effective_fee \<lparr>base_bps = base_bps_of override_bps (pool_fee pool), fee_tier = rep_tier rep,
             discount_bp_by_tier = fee_discount_bp_by_tier rep_config, min_fee_bps = rep_min_fee_bps rep_config,
             is_flip_within_window = is_flip\<rparr> in
       lift (quote_preview cmd (mk_id market) pool fee config_version))))))))))"

section \<open>All or nothing\<close>

lemma quiet_gates [quiet_intros]:
  "framed quiet (check_open m)" "framed quiet (flip_within_window rc a lb)" "framed quiet (check_cap rc cmd t)"
  "framed quiet (check_pauses cmd)"
  unfolding check_open_def flip_within_window_def check_cap_def check_pauses_def
  by (auto intro!: quiet_intros quiet.framed_rules split: MarketState.split)

lemma quiet_check_fresh [quiet_intros]: "framed quiet (check_fresh rc cmd v t)"
  unfolding check_fresh_def by (intro quiet_intros quiet.framed_rules)

lemma quiet_admit_trade [quiet_intros]: "framed quiet (admit_trade cmd)"
  unfolding admit_trade_def by (intro quiet_intros quiet.framed_rules)

lemma quiet_price_trade [quiet_intros]: "framed quiet (price_trade rc cmd rep m)"
  unfolding price_trade_def by (intro quiet_intros quiet.framed_rules)

lemma quiet_replay_trade [quiet_intros]: "framed quiet (replay_trade cmd fp txn)"
  unfolding replay_trade_def by (intro quiet_intros quiet.framed_rules)

lemma quiet_booking [quiet_intros]:
  "framed quiet (trade_entries cmd legs)" "framed quiet (realize_sale cmd o' legs txn)"
  "framed quiet (allocate_fee u t fee)"
  unfolding trade_entries_def realize_sale_def allocate_fee_def
  by (intro quiet_intros quiet.framed_rules)+

lemma atomic_book_trade: "atomic quiet (book_trade tj cmd terms)"
  unfolding book_trade_def
  by (intro quiet.atomic_finish quiet.atomic_rules quiet_intros quiet.framed_rules atomic_store_commit)

interpretation unchanged: frame "(=)"
  by unfold_locales auto

lemma atomic_place_trade: "atomic quiet (place_trade tj rc cmd)"
  unfolding place_trade_def
  by (intro quiet.atomic_rules atomic_book_trade quiet_intros quiet.framed_rules)
     (rule quiet.atomic_framed, rule quiet_replay_trade)

text \<open>The two ways a trade returns: a replay of the key, or the stages of a fresh trade.\<close>

definition started :: "world \<Rightarrow> world" where
  "started w = w\<lparr>pending := Pending_default\<rparr>"

definition fingerprint_of :: "world \<Rightarrow> PlaceTradeCmd \<Rightarrow> ustring" where
  "fingerprint_of w cmd =
     trade_fingerprint (uuid_string w) (tc_market cmd) (tc_user cmd) (tc_side cmd) (tc_action cmd)
       (tc_amount_micro cmd) (tc_expected_config_version cmd)"

definition noted :: "ustring \<Rightarrow> ustring \<Rightarrow> world \<Rightarrow> world" where
  "noted key fp w = w\<lparr>ops := (ops w)\<lparr>fingerprints := AList.update key fp (fingerprints (ops w))\<rparr>\<rparr>"

definition fresh_run ::
  "(time \<Rightarrow> Value) \<Rightarrow> RepConfig \<Rightarrow> PlaceTradeCmd \<Rightarrow> world \<Rightarrow> ReputationRow \<Rightarrow> MarketRow \<Rightarrow> world \<Rightarrow> TradeTerms \<Rightarrow>
     world \<Rightarrow> TradeReceipt \<Rightarrow> world \<Rightarrow> bool" where
  "fresh_run tj rc cmd w rep market w1 terms w3 receipt w' \<longleftrightarrow>
     (\<exists>v w2. tc_expected_config_version cmd = Some v \<and>
        admit_trade cmd (started w) = (Ok (rep, market), w1) \<and>
        price_trade rc cmd rep market w1 = (Ok terms, w2) \<and>
        fst (check_pauses cmd w2) = Ok () \<and>
        check_fresh rc cmd v terms w2 = (Ok (), w3) \<and>
        book_trade tj cmd terms (noted (tc_idempotency_key cmd) (fingerprint_of w cmd) w3) =
          (Ok receipt, w'))"

lemma check_pauses_iff: "check_pauses cmd w = (r, w') \<longleftrightarrow> fst (check_pauses cmd w) = r \<and> w' = w"
proof -
  have "framed (=) (store (fence_config_value k))" for k
    unfolding store_def fence_config_value_def by (intro unchanged.framed_rules)
  then have "framed (=) (check_pauses cmd)" unfolding check_pauses_def by (intro unchanged.framed_rules)
  then show ?thesis by (auto simp: framed_def prod_eq_iff)
qed

lemma pending_empty: "p_txns Pending_default = []"
  by (simp add: Pending_default_def)

lemma place_trade_runs:
  assumes "place_trade tj rc cmd w = (Ok receipt, w')"
  shows "(\<exists>txn. map_of (s_txn_keys (committed w)) (tc_idempotency_key cmd) = Some txn \<and>
      replay_trade cmd (fingerprint_of w cmd) txn (started w) = (Ok receipt, w')) \<or>
    (map_of (s_txn_keys (committed w)) (tc_idempotency_key cmd) = None \<and>
      (\<exists>rep market w1 terms w3. fresh_run tj rc cmd w rep market w1 terms w3 receipt w'))"
  using assms
  by (auto simp: place_trade_def run_simps open_tx_def txn_by_key_def started_def fingerprint_of_def Let_def
      pending_empty save_request_fingerprint_def fresh_run_def noted_def check_pauses_iff
      split: option.splits)

section \<open>What a fresh trade books\<close>

text \<open>Allocating the fee writes credit rows only.\<close>

definition credit_rows :: "world \<Rightarrow> world \<Rightarrow> bool" where
  "credit_rows w w' \<longleftrightarrow> committed w' = committed w \<and> ops w' = ops w \<and> quiet w w' \<and>
     (\<exists>p7. pending w' = (pending w)\<lparr>p_phase7 := p7\<rparr>)"

interpretation credit_rows: frame credit_rows
proof
  fix u v w :: world
  show "credit_rows w w" unfolding credit_rows_def
    by (intro conjI exI[of _ "p_phase7 (pending w)"]) auto
  assume "credit_rows u v" "credit_rows v w"
  then show "credit_rows u w" unfolding credit_rows_def using quiet.trans by auto
qed

lemma credit_rows_store: "framed credit_rows m \<Longrightarrow> framed credit_rows (store m)"
  unfolding store_def by (rule credit_rows.framed_with_err)

lemma credit_rows_same:
  "committed w' = committed w \<Longrightarrow> ops w' = ops w \<Longrightarrow> quiet w w' \<Longrightarrow> pending w' = pending w \<Longrightarrow> credit_rows w w'"
  unfolding credit_rows_def by (intro conjI exI[of _ "p_phase7 (pending w)"]) auto

lemma credit_rows_new_v4: "framed credit_rows new_v4"
  by (simp add: framed_def new_v4_def credit_rows_same quiet_same)

lemma credit_rows_buffer: "framed credit_rows (buffer (\<lambda>p. p\<lparr>p_phase7 := g p\<rparr>))"
  unfolding buffer_def
  by (rule credit_rows.framed_modify) (auto simp: credit_rows_def intro: quiet_same)

lemma credit_rows_allocate_fee: "framed credit_rows (allocate_fee user trade fee)"
  unfolding allocate_fee_def lots_for_user_def allocations_for_lot_def plan_trade_allocations_def plan_one_def
    insert_allocation_def
  by (intro credit_rows_store credit_rows_new_v4 credit_rows_buffer credit_rows.framed_rules)

definition entries_of :: "PlaceTradeCmd \<Rightarrow> QuotedLegs \<Rightarrow> State \<Rightarrow> Entry list \<Rightarrow> bool" where
  "entries_of cmd legs s es \<longleftrightarrow>
     (\<exists>u e. map_of (s_accounts s) (UserOwner (tc_user cmd), Usdc) = Some u \<and>
        map_of (s_accounts s) (MarketEscrow (tc_market cmd), Usdc) = Some e \<and>
        (if lg_fee_delta legs = 0
         then es = [\<lparr>entry_account = u, entry_amount = lg_user_delta legs\<rparr>,
                    \<lparr>entry_account = e, entry_amount = lg_escrow_delta legs\<rparr>]
         else \<exists>f. map_of (s_accounts s) (FeesOwner, Usdc) = Some f \<and>
           es = [\<lparr>entry_account = u, entry_amount = lg_user_delta legs\<rparr>,
                 \<lparr>entry_account = e, entry_amount = lg_escrow_delta legs\<rparr>,
                 \<lparr>entry_account = f, entry_amount = lg_fee_delta legs\<rparr>]))"

lemma trade_entries_Ok:
  assumes "trade_entries cmd legs w = (Ok es, w')"
  shows "quiet w w' \<and> pending w' = pending w \<and> entries_of cmd legs (committed w') es"
proof -
  from assms obtain u w1 e w2 where
    1: "account (UserOwner (tc_user cmd)) Usdc w = (Ok u, w1)" and 2: "account (MarketEscrow (tc_market cmd)) Usdc w1 = (Ok e, w2)"
    by (auto simp: trade_entries_def run_simps Let_def)
  note a = account_Ok[OF 1] account_Ok[OF 2]
  have q: "quiet w w2" using a quiet.trans by blast
  have acc: "map_of (s_accounts (committed w2)) (UserOwner (tc_user cmd), Usdc) = Some u" using a quiet_accounts by blast
  show ?thesis
  proof (cases "lg_fee_delta legs = 0")
    case True
    with assms 1 2 q a acc show ?thesis by (auto simp: trade_entries_def run_simps entries_of_def)
  next
    case False
    with assms 1 2 obtain f where 3: "account FeesOwner Usdc w2 = (Ok f, w')"
      "es = [\<lparr>entry_account = u, entry_amount = lg_user_delta legs\<rparr>, \<lparr>entry_account = e, entry_amount = lg_escrow_delta legs\<rparr>,
             \<lparr>entry_account = f, entry_amount = lg_fee_delta legs\<rparr>]"
      by (auto simp: trade_entries_def run_simps Let_def)
    note b = account_Ok[OF 3(1)]
    then have "map_of (s_accounts (committed w')) (UserOwner (tc_user cmd), Usdc) = Some u"
      "map_of (s_accounts (committed w')) (MarketEscrow (tc_market cmd), Usdc) = Some e"
      using acc a quiet_accounts by blast+
    then show ?thesis using False 3(2) a b q quiet.trans[OF q] by (auto simp: entries_of_def)
  qed
qed

lemma insert_realization_Ok:
  assumes "insert_realization rz w = (Ok x, w')"
  shows "\<exists>rzs. w' = w\<lparr>pending := (pending w)\<lparr>p_realizations := p_realizations (pending w) @ rzs\<rparr>\<rparr>"
proof (cases x)
  case True
  with assms have "w' = w\<lparr>pending := (pending w)\<lparr>p_realizations := p_realizations (pending w) @ [rz]\<rparr>\<rparr>"
    by (simp add: insert_realization_def run_simps split: if_splits)
  then show ?thesis by blast
next
  case False
  with assms have "w' = w" by (simp add: insert_realization_def run_simps split: if_splits)
  then show ?thesis by (intro exI[of _ "[]"]) simp
qed

lemma realize_sale_Ok:
  assumes "realize_sale cmd o' legs txn w = (Ok x, w')"
  shows "committed w' = committed w \<and> ops w' = ops w \<and> quiet w w' \<and>
    (\<exists>rzs. pending w' = (pending w)\<lparr>p_realizations := p_realizations (pending w) @ rzs\<rparr>)"
proof -
  have q: "quiet w w'" using framedD[OF quiet_booking(2) assms] .
  show ?thesis
  proof (cases "lg_realized_delta legs")
    case None
    with assms q show ?thesis by (intro conjI exI[of _ "[]"]) (simp_all add: realize_sale_def run_simps)
  next
    case (Some d)
    with assms obtain rz y where
      "insert_realization rz (w\<lparr>clock := \<lambda>n. clock w (Suc n)\<rparr>) = (Ok y, w')"
      by (auto simp: realize_sale_def run_simps)
    from insert_realization_Ok[OF this] q show ?thesis by auto
  qed
qed

lemma insert_trade_Ok:
  assumes "insert_trade nt w = (Ok it, w')"
  shows "\<exists>n. committed w' = committed w \<and> ops w' = ops w \<and> quiet w w' \<and>
    pending w' = (pending w)\<lparr>p_trades := p_trades (pending w) @
      [\<lparr>st_id = it_id it, st_new = nt, st_trade_seq = n, st_created_at = utc w 0\<rparr>]\<rparr>"
proof -
  have "quiet w w'" using framedD[OF quiet_writes(5) assms] .
  with assms show ?thesis by (auto simp: insert_trade_def run_simps)
qed

lemma book_trade_steps:
  assumes "book_trade tj cmd terms w = (Ok receipt, w')"
  obtains legs es w1 txn w2 w3 w4 it ev w5 w6 where
    "quote_legs cmd (tt_pool terms) (tt_outcome terms) (tt_held terms) (tt_fee terms) = Ok legs"
    "trade_entries cmd legs w = (Ok es, w1)"
    "ledger_apply Trade (tc_idempotency_key cmd) es w1 = (Ok txn, w2)"
    "realize_sale cmd (tt_outcome terms) legs txn w2 = (Ok (), w3)"
    "w4 = w3\<lparr>pending := (pending w3)\<lparr>p_reserves := p_reserves (pending w3) @ [(tc_market cmd, lg_pool_after legs)],
       p_positions := p_positions (pending w3) @ [lg_position legs]\<rparr>\<rparr>"
    "insert_trade (new_trade cmd (tt_outcome terms) legs txn) w4 = (Ok it, w5)"
    "allocate_fee (tc_user cmd) (it_id it) (lg_fee legs)
       (w5\<lparr>pending := (pending w5)\<lparr>p_events := p_events (pending w5) @ [ev]\<rparr>\<rparr>) = (Ok (), w6)"
    "commit w6 = (Ok (), w')"
    "receipt = \<lparr>rc_trade_id = it_id it, rc_ledger_txn = txn, rc_side = tc_side cmd,
         rc_action = tc_action cmd, rc_shares = lg_shares legs, rc_gross = lg_gross legs, rc_fee = lg_fee legs,
         rc_avg_price_micro = lg_avg_price_micro legs, replayed = False\<rparr>"
  using assms
  by (auto simp: book_trade_def run_simps save_reserves_def save_position_def append_event_def handle_def)

text \<open>Only \<open>save_request_fingerprint\<close> writes to the configuration plane.\<close>

definition same_ops :: "world \<Rightarrow> world \<Rightarrow> bool" where
  "same_ops w w' \<longleftrightarrow> ops w' = ops w"

interpretation same_ops: frame same_ops
  by unfold_locales (simp_all add: same_ops_def)

lemma same_ops_prims:
  "framed same_ops new_v4" "framed same_ops now_utc" "framed same_ops (buffer f)"
  "framed same_ops (modify (\<lambda>w. w\<lparr>committed := g w\<rparr>))"
  by (simp_all add: framed_def same_ops_def new_v4_def now_utc_def buffer_def modify_def)

lemma same_ops_store: "framed same_ops m \<Longrightarrow> framed same_ops (store m)"
  unfolding store_def by (rule same_ops.framed_with_err)

lemma same_ops_trade_entries: "framed same_ops (trade_entries cmd legs)"
  unfolding trade_entries_def account_def
  by (intro same_ops_store same_ops_prims same_ops.framed_rules)

lemma same_ops_ledger_apply: "framed same_ops (ledger_apply kind key es)"
  unfolding ledger_apply_def validate_against_current_def
  by (intro same_ops_prims same_ops.framed_rules)

text \<open>No step of a trade grants a credit lot.\<close>

definition no_grant :: "world \<Rightarrow> world \<Rightarrow> bool" where
  "no_grant w w' \<longleftrightarrow> p_lots (p_phase7 (pending w')) = p_lots (p_phase7 (pending w))"

interpretation no_grant: frame no_grant
  by unfold_locales (simp_all add: no_grant_def)

lemma no_grant_prims:
  "framed no_grant new_v4" "framed no_grant now_utc" "framed no_grant clock_now"
  "framed no_grant (modify (\<lambda>w. w\<lparr>committed := g w\<rparr>))"
  "framed no_grant (buffer (\<lambda>p. p\<lparr>p_txns := g1 p\<rparr>))" "framed no_grant (buffer (\<lambda>p. p\<lparr>p_phase6 := g2 p\<rparr>))"
  "framed no_grant (buffer (\<lambda>p. p\<lparr>p_phase7 := (p_phase7 p)\<lparr>p_converted := g3 p\<rparr>\<rparr>))"
  "framed no_grant (buffer (\<lambda>p. p\<lparr>p_phase7 := (p_phase7 p)\<lparr>p_allocations := g4 p\<rparr>\<rparr>))"
  "framed no_grant (buffer (\<lambda>p. p\<lparr>p_realizations := g5 p\<rparr>))" "framed no_grant (buffer (\<lambda>p. p\<lparr>p_reserves := g6 p\<rparr>))"
  "framed no_grant (buffer (\<lambda>p. p\<lparr>p_positions := g7 p\<rparr>))" "framed no_grant (buffer (\<lambda>p. p\<lparr>p_trades := g8 p\<rparr>))"
  "framed no_grant (buffer (\<lambda>p. p\<lparr>p_events := g9 p\<rparr>))"
  by (simp_all add: framed_def no_grant_def new_v4_def now_utc_def clock_now_def buffer_def modify_def)

lemma no_grant_store: "framed no_grant m \<Longrightarrow> framed no_grant (store m)"
  unfolding store_def by (rule no_grant.framed_with_err)

lemma no_grant_allocate_fee: "framed no_grant (allocate_fee user trade fee)"
  unfolding allocate_fee_def lots_for_user_def allocations_for_lot_def plan_trade_allocations_def plan_one_def
    insert_allocation_def
  by (intro no_grant_store no_grant_prims no_grant.framed_rules)

text \<open>What a booked trade adds to the buffer \<open>p\<close>: one row of each kind, and credit rows.\<close>

definition trade_rows ::
  "PlaceTradeCmd \<Rightarrow> QuotedLegs \<Rightarrow> PendingTxn \<Rightarrow> RealizationFact list \<Rightarrow> StoredTrade \<Rightarrow> Event \<Rightarrow> Phase7Pending \<Rightarrow>
     Pending \<Rightarrow> Pending" where
  "trade_rows cmd legs t rzs row ev p7 p =
     p\<lparr>p_txns := p_txns p @ [t], p_realizations := p_realizations p @ rzs,
       p_reserves := p_reserves p @ [(tc_market cmd, lg_pool_after legs)],
       p_positions := p_positions p @ [lg_position legs], p_trades := p_trades p @ [row],
       p_events := p_events p @ [ev], p_phase7 := p7\<rparr>"

definition books ::
  "PlaceTradeCmd \<Rightarrow> TradeTerms \<Rightarrow> QuotedLegs \<Rightarrow> Entry list \<Rightarrow> StoredTrade \<Rightarrow> world \<Rightarrow> world \<Rightarrow> bool" where
  "books cmd terms legs es row w w' \<longleftrightarrow>
     quote_legs cmd (tt_pool terms) (tt_outcome terms) (tt_held terms) (tt_fee terms) = Ok legs \<and>
     quiet w w' \<and> no_grant w w' \<and> ops w' = ops w \<and> entries_of cmd legs (committed w') es \<and>
     st_new row = new_trade cmd (tt_outcome terms) legs (nt_ledger_txn (st_new row)) \<and>
     (\<exists>at rzs ev p7. pending w' = trade_rows cmd legs
        (booked (tc_idempotency_key cmd) (nt_ledger_txn (st_new row)) Trade es at) rzs row ev p7 (pending w))"

lemma book_trade_runs:
  assumes "book_trade tj cmd terms w = (Ok receipt, w')"
  shows "\<exists>legs es row wc. books cmd terms legs es row w wc \<and> receipt = StoredTrade_receipt row \<and> commit wc = (Ok (), w')"
proof -
  from assms obtain legs es w1 txn w2 w3 w4 it ev w5 w6 where
    legs: "quote_legs cmd (tt_pool terms) (tt_outcome terms) (tt_held terms) (tt_fee terms) = Ok legs" and
    1: "trade_entries cmd legs w = (Ok es, w1)" and
    2: "ledger_apply Trade (tc_idempotency_key cmd) es w1 = (Ok txn, w2)" and
    3: "realize_sale cmd (tt_outcome terms) legs txn w2 = (Ok (), w3)" and
    4: "w4 = w3\<lparr>pending := (pending w3)\<lparr>p_reserves := p_reserves (pending w3) @ [(tc_market cmd, lg_pool_after legs)],
       p_positions := p_positions (pending w3) @ [lg_position legs]\<rparr>\<rparr>" and
    5: "insert_trade (new_trade cmd (tt_outcome terms) legs txn) w4 = (Ok it, w5)" and
    6: "allocate_fee (tc_user cmd) (it_id it) (lg_fee legs)
       (w5\<lparr>pending := (pending w5)\<lparr>p_events := p_events (pending w5) @ [ev]\<rparr>\<rparr>) = (Ok (), w6)" and
    7: "commit w6 = (Ok (), w')" and
    receipt: "receipt = \<lparr>rc_trade_id = it_id it, rc_ledger_txn = txn, rc_side = tc_side cmd,
         rc_action = tc_action cmd, rc_shares = lg_shares legs, rc_gross = lg_gross legs, rc_fee = lg_fee legs,
         rc_avg_price_micro = lg_avg_price_micro legs, replayed = False\<rparr>"
    by (rule book_trade_steps)
  let ?w5 = "w5\<lparr>pending := (pending w5)\<lparr>p_events := p_events (pending w5) @ [ev]\<rparr>\<rparr>"
  note entries = trade_entries_Ok[OF 1] and ledger = ledger_apply_Ok[OF 2]
  obtain rzs where rz: "committed w3 = committed w2" "ops w3 = ops w2" "quiet w2 w3"
    "pending w3 = (pending w2)\<lparr>p_realizations := p_realizations (pending w2) @ rzs\<rparr>"
    using realize_sale_Ok[OF 3] by blast
  obtain n where it: "committed w5 = committed w4" "ops w5 = ops w4" "quiet w4 w5"
    "pending w5 = (pending w4)\<lparr>p_trades := p_trades (pending w4) @
      [\<lparr>st_id = it_id it, st_new = new_trade cmd (tt_outcome terms) legs txn, st_trade_seq = n, st_created_at = utc w4 0\<rparr>]\<rparr>"
    using insert_trade_Ok[OF 5] by blast
  define row where "row = \<lparr>st_id = it_id it, st_new = new_trade cmd (tt_outcome terms) legs txn, st_trade_seq = n,
    st_created_at = utc w4 0\<rparr>"
  obtain p7 where al: "committed w6 = committed w5" "ops w6 = ops w5" "quiet ?w5 w6"
    "pending w6 = (pending ?w5)\<lparr>p_phase7 := p7\<rparr>"
    using framedD[OF credit_rows_allocate_fee 6] unfolding credit_rows_def by auto
  have row': "receipt = StoredTrade_receipt row" "nt_ledger_txn (st_new row) = txn"
    "st_new row = new_trade cmd (tt_outcome terms) legs txn"
    by (simp_all add: receipt row_def StoredTrade_receipt_def new_trade_def)
  have q: "quiet w1 w2" "quiet w3 w4" "quiet w5 ?w5"
    using framedD[OF quiet_writes(1) 2] by (simp_all add: 4 quiet_same)
  have "quiet w w6" using entries q rz(3) it(3) al(3) quiet.trans by blast
  moreover have "no_grant w w6"
    using framedD[OF no_grant_allocate_fee 6] entries ledger rz(4) it(4) 4 by (simp add: no_grant_def)
  moreover have "ops w6 = ops w"
    using framedD[OF same_ops_trade_entries 1] framedD[OF same_ops_ledger_apply 2] rz(2) it(2) al(2) 4
    by (simp add: same_ops_def)
  moreover have "committed w6 = committed w1" using ledger rz(1) it(1) al(1) 4 by simp
  moreover have "pending w6 = trade_rows cmd legs (booked (tc_idempotency_key cmd) txn Trade es (utc w1 0)) rzs row ev p7 (pending w)"
    using entries ledger rz(4) it(4) al(4) 4 by (simp add: trade_rows_def row_def)
  ultimately have "books cmd terms legs es row w w6"
    unfolding books_def using legs entries row'(2,3) by auto
  with row'(1) 7 show ?thesis by blast
qed

section \<open>The committed trade\<close>

lemma trade_stage:
  assumes "pending w = trade_rows cmd legs t rzs row ev p7 (Pending_default\<lparr>p_txns := ts, p_phase6 := p6, p_phase7 := q7\<rparr>)"
    "stage w = Ok s'"
  shows "\<exists>s. try_fold (commit_txn w) (ts @ [t]) (committed w) = Ok s \<and>
    s' = s\<lparr>s_pools := AList.update (tc_market cmd) (lg_pool_after legs) (s_pools s),
      s_positions := AList.update (pos_user (lg_position legs), pos_outcome (lg_position legs)) (lg_position legs) (s_positions s),
      s_trades_by_txn := AList.update (nt_ledger_txn (st_new row)) (st_id row) (s_trades_by_txn s),
      s_trades := AList.update (st_id row) row (s_trades s),
      s_realizations := fold (\<lambda>rz rows. if list_ex (same_realization rz) rows then rows else rows @ [rz]) rzs (s_realizations s)\<rparr>"
  using assms
  by (auto simp: stage_def trade_rows_def Pending_default_def commit_books_def commit_activity_def commit_people_def
      commit_social_def commit_trade_def simp del: try_fold_append)

text \<open>Until it books, a trade has buffered ledger transactions and rows of the two money planes only.\<close>

definition preliminary :: "world \<Rightarrow> world \<Rightarrow> bool" where
  "preliminary w w' \<longleftrightarrow> quiet w w' \<and>
     (\<exists>ts p6 p7. pending w' = (pending w)\<lparr>p_txns := p_txns (pending w) @ ts, p_phase6 := p6, p_phase7 := p7\<rparr>)"

lemma preliminaryI:
  "quiet w w' \<Longrightarrow> pending w' = (pending w)\<lparr>p_txns := p_txns (pending w) @ ts, p_phase6 := p6, p_phase7 := p7\<rparr> \<Longrightarrow>
     preliminary w w'"
  unfolding preliminary_def by blast

interpretation preliminary: frame preliminary
proof
  fix u v w :: world
  show "preliminary w w"
    by (rule preliminaryI[where ts = "[]" and ?p6.0 = "p_phase6 (pending w)" and ?p7.0 = "p_phase7 (pending w)"]) simp_all
  assume uv: "preliminary u v" and vw: "preliminary v w"
  from uv obtain ts p6 p7 where 1: "pending v = (pending u)\<lparr>p_txns := p_txns (pending u) @ ts, p_phase6 := p6, p_phase7 := p7\<rparr>"
    unfolding preliminary_def by blast
  from vw obtain ts' p6' p7' where 2: "pending w = (pending v)\<lparr>p_txns := p_txns (pending v) @ ts', p_phase6 := p6', p_phase7 := p7'\<rparr>"
    unfolding preliminary_def by blast
  have "quiet u w" using uv vw quiet.trans by (auto simp: preliminary_def)
  moreover have "pending w = (pending u)\<lparr>p_txns := p_txns (pending u) @ (ts @ ts'), p_phase6 := p6', p_phase7 := p7'\<rparr>"
    using 1 2 by simp
  ultimately show "preliminary u w" by (rule preliminaryI)
qed

lemma preliminary_same: "quiet w w' \<Longrightarrow> pending w' = pending w \<Longrightarrow> preliminary w w'"
  by (rule preliminaryI[where ts = "[]" and ?p6.0 = "p_phase6 (pending w)" and ?p7.0 = "p_phase7 (pending w)"]) simp_all

named_theorems preliminary_intros \<open>operations before the booking of a trade\<close>

lemma preliminary_calm: "calm w w' \<Longrightarrow> preliminary w w'"
  by (auto simp: calm_def intro!: preliminary_same quiet_same)

lemma preliminary_store [preliminary_intros]: "framed preliminary m \<Longrightarrow> framed preliminary (store m)"
  unfolding store_def by (rule preliminary.framed_with_err)

lemma preliminary_new_v4 [preliminary_intros]: "framed preliminary new_v4"
  by (simp add: framed_def new_v4_def preliminary_same quiet_same)

lemma preliminary_now_utc [preliminary_intros]: "framed preliminary now_utc"
  by (simp add: framed_def now_utc_def preliminary_same quiet_same)

lemma preliminary_account [preliminary_intros]: "framed preliminary (account owner currency)"
proof -
  have "pending (snd (account owner currency w)) = pending w" for w
    by (cases "open_account (s_balances (committed w)) (uuids w 0) (owner_type owner) currency")
       (auto simp: account_def seq_def asks_def ret_def new_v4_def inquire_def modify_def split: option.split)
  then show ?thesis using quiet_account by (auto simp: framed_def intro: preliminary_same)
qed

lemma preliminary_buffer:
  "framed preliminary (buffer (\<lambda>p. p\<lparr>p_txns := p_txns p @ ts\<rparr>))"
  "framed preliminary (buffer (\<lambda>p. p\<lparr>p_phase6 := g6 p\<rparr>))"
  "framed preliminary (buffer (\<lambda>p. p\<lparr>p_phase7 := g7 p\<rparr>))"
proof -
  have "preliminary w (w\<lparr>pending := (pending w)\<lparr>p_txns := p_txns (pending w) @ ts\<rparr>\<rparr>)"
    "preliminary w (w\<lparr>pending := (pending w)\<lparr>p_phase6 := g6 (pending w)\<rparr>\<rparr>)"
    "preliminary w (w\<lparr>pending := (pending w)\<lparr>p_phase7 := g7 (pending w)\<rparr>\<rparr>)" for w
    by (rule preliminaryI[where ts = ts and ?p6.0 = "p_phase6 (pending w)" and ?p7.0 = "p_phase7 (pending w)"]
        preliminaryI[where ts = "[]" and ?p6.0 = "g6 (pending w)" and ?p7.0 = "p_phase7 (pending w)"]
        preliminaryI[where ts = "[]" and ?p6.0 = "p_phase6 (pending w)" and ?p7.0 = "g7 (pending w)"];
        simp add: quiet_same)+
  then show "framed preliminary (buffer (\<lambda>p. p\<lparr>p_txns := p_txns p @ ts\<rparr>))"
    "framed preliminary (buffer (\<lambda>p. p\<lparr>p_phase6 := g6 p\<rparr>))"
    "framed preliminary (buffer (\<lambda>p. p\<lparr>p_phase7 := g7 p\<rparr>))"
    by (simp_all add: framed_def buffer_def modify_def)
qed

lemma preliminary_ledger_apply [preliminary_intros]: "framed preliminary (ledger_apply kind key es)"
  unfolding ledger_apply_def validate_against_current_def
  by (intro preliminary_intros preliminary_buffer preliminary.framed_rules)

lemma preliminary_collect_loop [preliminary_intros]: "framed preliminary (collect_loop k a t rows n)"
proof (induction rows arbitrary: n)
  case (Cons row rows)
  obtain r outstanding where "row = (r, outstanding)" by force
  with Cons show ?case
    by (auto simp: insert_receivable_movement_def intro!: preliminary_intros preliminary_buffer preliminary.framed_rules)
qed (auto intro: preliminary.framed_rules)

lemma preliminary_convert_then_collect: "framed preliminary (convert_then_collect u now k)"
  unfolding convert_then_collect_def convert_step_def convert_lot_def auto_collect_def lots_for_user_def
    txn_by_key_def allocations_for_lot_def open_receivables_for_user_def account_balance_def mark_lot_converted_def
  by (intro preliminary_intros preliminary_buffer preliminary.framed_rules)

text \<open>Conversion and collection do not read the clock.\<close>

definition same_clock :: "world \<Rightarrow> world \<Rightarrow> bool" where
  "same_clock w w' \<longleftrightarrow> clock w' = clock w"

interpretation same_clock: frame same_clock
  by unfold_locales (simp_all add: same_clock_def)

lemma same_clock_prims:
  "framed same_clock new_v4" "framed same_clock now_utc" "framed same_clock (buffer f)"
  "framed same_clock (modify (\<lambda>w. w\<lparr>committed := g w\<rparr>))"
  by (simp_all add: framed_def same_clock_def new_v4_def now_utc_def buffer_def modify_def)

lemma same_clock_store: "framed same_clock m \<Longrightarrow> framed same_clock (store m)"
  unfolding store_def by (rule same_clock.framed_with_err)

lemma same_clock_collect_loop: "framed same_clock (collect_loop k a t rows n)"
proof (induction rows arbitrary: n)
  case (Cons row rows)
  obtain r outstanding where "row = (r, outstanding)" by force
  with Cons show ?case
    by (auto simp: insert_receivable_movement_def intro!: same_clock_prims same_clock.framed_rules)
qed (auto intro: same_clock.framed_rules)

lemma same_clock_convert_then_collect: "framed same_clock (convert_then_collect u now k)"
  unfolding convert_then_collect_def convert_step_def convert_lot_def auto_collect_def lots_for_user_def
    txn_by_key_def allocations_for_lot_def open_receivables_for_user_def account_balance_def mark_lot_converted_def
    account_def ledger_apply_def validate_against_current_def
  by (intro same_clock_store same_clock_prims same_clock_collect_loop same_clock.framed_rules)

lemma enforce_Ok:
  "enforce_money_mutation u kind amount now w = (Ok x, w') \<Longrightarrow>
     w' = w \<and> (\<exists>snap. gate_snapshot u now w = (Ok snap, w) \<and> \<not> gate_self_excluded snap \<and> admissible snap kind amount)"
  using observesD(1)[OF observes_gate_snapshot]
  by (fastforce simp: enforce_money_mutation_def run_simps decide_iff)

lemma check_open_Ok:
  "check_open market w = (Ok x, w') \<Longrightarrow>
     mk_state market = Live \<and> clock w 0 < tally_hidden_at market \<and> w' = w\<lparr>clock := \<lambda>n. clock w (Suc n)\<rparr>"
  by (auto simp: check_open_def run_simps split: MarketState.splits if_splits)

definition admitted :: "PlaceTradeCmd \<Rightarrow> world \<Rightarrow> ReputationRow \<Rightarrow> MarketRow \<Rightarrow> bool" where
  "admitted cmd w rep market \<longleftrightarrow>
     (\<exists>snap. fst (gate_snapshot (tc_user cmd) (clock w 1) w) = Ok snap \<and> \<not> gate_self_excluded snap \<and>
        admissible snap GatePlaceTrade (tc_amount_micro cmd)) \<and>
     map_of (s_reputation (committed w)) (tc_user cmd) = Some (rep_micro rep, rep_tier rep) \<and>
     map_of (s_markets (committed w)) (tc_market cmd) = Some market \<and> mk_state market = Live \<and>
     clock w 2 < tally_hidden_at market \<and> (tc_user cmd, tc_market cmd) \<in> set (s_votes (committed w))"

lemma admit_trade_Ok:
  assumes "admit_trade cmd (started w) = (Ok (rep, market), w')"
  shows "admitted cmd w rep market \<and> (\<exists>c wa. convert_then_collect (tc_user cmd) (clock w 0) (tc_idempotency_key cmd)
      ((started w)\<lparr>clock := \<lambda>n. clock w (Suc n)\<rparr>) = (Ok c, wa) \<and> calm wa w' \<and> clock w' = (\<lambda>n. clock w (n + 3)))"
proof -
  let ?w = "(started w)\<lparr>clock := \<lambda>n. clock w (Suc n)\<rparr>"
  from assms obtain c wa wb wc where
    1: "convert_then_collect (tc_user cmd) (clock w 0) (tc_idempotency_key cmd) ?w = (Ok c, wa)" and
    2: "enforce_money_mutation (tc_user cmd) GatePlaceTrade (tc_amount_micro cmd) (clock wa 0)
      (wa\<lparr>clock := \<lambda>n. clock wa (Suc n)\<rparr>) = (Ok (), wb)" and
    3: "user_rep (tc_user cmd) wb = (Ok rep, wb)" "market_for_update (tc_market cmd) wb = (Ok market, wb)"
    "check_open market wb = (Ok (), wc)" "user_voted (tc_user cmd) (tc_market cmd) wc = (Ok True, w')"
    by (auto simp: admit_trade_def run_simps started_def user_rep_def market_for_update_def user_voted_def split: if_splits)
  have ck: "clock wa = (\<lambda>n. clock w (Suc n))"
    using framedD[OF same_clock_convert_then_collect 1] by (simp add: same_clock_def)
  have pre: "preliminary ?w wa" using framedD[OF preliminary_convert_then_collect 1] .
  then have q: "quiet ?w wa" by (simp add: preliminary_def)
  from pre have p: "p_markets (pending wa) = []" "p_market_states (pending wa) = []"
    unfolding preliminary_def by (auto simp: started_def Pending_default_def)
  have com: "committed ?w = committed w" by (simp add: started_def)
  note tab = quiet_tables[OF q, unfolded com]
  from enforce_Ok[OF 2] obtain snap where wb: "wb = wa\<lparr>clock := \<lambda>n. clock wa (Suc n)\<rparr>" and
    snap: "gate_snapshot (tc_user cmd) (clock wa 0) wb = (Ok snap, wb)" "\<not> gate_self_excluded snap"
      "admissible snap GatePlaceTrade (tc_amount_micro cmd)" by auto
  have "gate_snapshot (tc_user cmd) (clock wa 0) w = (Ok snap, w)"
    using observesD(2)[OF observes_gate_snapshot snap(1), of w] tab(14) wb by simp
  moreover have "map_of (s_reputation (committed w)) (tc_user cmd) = Some (rep_micro rep, rep_tier rep)"
    using 3(1) tab(7) wb by (auto simp: user_rep_def run_simps)
  moreover have "map_of (s_markets (committed w)) (tc_market cmd) = Some market"
    using 3(2) tab(1) wb p by (auto simp: market_for_update_def run_simps market_view_def split: option.splits)
  moreover have "(tc_user cmd, tc_market cmd) \<in> set (s_votes (committed w))"
    using 3(4) check_open_Ok[OF 3(3)] tab(4) wb by (auto simp: user_voted_def run_simps calm_def)
  moreover have "calm wa w'" using check_open_Ok[OF 3(3)] 3(4) wb by (auto simp: calm_def user_voted_def run_simps)
  moreover have "clock w' = (\<lambda>n. clock w (n + 3))"
    using check_open_Ok[OF 3(3)] 3(4) wb ck by (auto simp: user_voted_def run_simps numeral_3_eq_3)
  ultimately show ?thesis
    using 1 snap(2,3) check_open_Ok[OF 3(3)] wb ck
    unfolding admitted_def by (auto simp: numeral_2_eq_2)
qed

definition flip_at :: "RepConfig \<Rightarrow> TradeAction \<Rightarrow> time option \<Rightarrow> time \<Rightarrow> bool" where
  "flip_at rc action last_buy now \<longleftrightarrow>
     action = Sell \<and> discount_flip_window_secs rc \<noteq> 0 \<and>
     (case last_buy of None \<Rightarrow> False | Some last' \<Rightarrow> now - last' < seconds (window_of rc))"

lemma flip_within_window_Ok:
  "flip_within_window rc action last_buy w = (Ok f, w') \<Longrightarrow> f = flip_at rc action last_buy (clock w 0) \<and> calm w w'"
  by (auto simp: flip_within_window_def flip_at_def run_simps calm_def split: if_splits option.splits
      intro: exI[of _ "clock w"])

definition fee_for :: "RepConfig \<Rightarrow> u8 \<Rightarrow> Pool \<Rightarrow> FeeBpsOverride \<Rightarrow> bool \<Rightarrow> basis_points" where
  "fee_for rc tier pool override_bps flip =
     effective_fee \<lparr>base_bps = base_bps_of override_bps (pool_fee pool), fee_tier = tier,
       discount_bp_by_tier = fee_discount_bp_by_tier rc, min_fee_bps = rep_min_fee_bps rc, is_flip_within_window = flip\<rparr>"

definition last_buy_of :: "world \<Rightarrow> user_id \<Rightarrow> outcome_id \<Rightarrow> time option" where
  "last_buy_of w u o' = (case fst (last_buy_at u o' w :: (StoreError, time option) outcome \<times> world) of Ok t \<Rightarrow> t | _ \<Rightarrow> None)"

definition within_position_cap :: "RepConfig \<Rightarrow> PlaceTradeCmd \<Rightarrow> world \<Rightarrow> u8 \<Rightarrow> bool" where
  "within_position_cap rc cmd w tier \<longleftrightarrow>
     (\<exists>cost. fst (market_position_cost (tc_user cmd) (tc_market cmd) w) = Ok cost \<and>
        cost + tc_amount_micro cmd \<le> position_cap_micro_by_tier rc ! nat (min tier 4))"

definition priced :: "RepConfig \<Rightarrow> PlaceTradeCmd \<Rightarrow> world \<Rightarrow> TradeTerms \<Rightarrow> bool" where
  "priced rc cmd w terms \<longleftrightarrow>
     tt_outcome terms = outcome_of (tt_market terms) (tc_side cmd) \<and>
     map_of (s_pools (committed w)) (tc_market cmd) = Some (tt_pool terms) \<and>
     tt_held terms = map_of (s_positions (committed w)) (tc_user cmd, tt_outcome terms) \<and>
     tt_last_buy terms = last_buy_of w (tc_user cmd) (tt_outcome terms) \<and>
     FeeBpsOverride_parse (map_of (entries (ops w)) (fee_override_key (uuid_string w) (tc_market cmd))) = Ok (tt_override terms) \<and>
     tt_fee terms = fee_for rc (rep_tier (tt_rep terms)) (tt_pool terms) (tt_override terms)
       (flip_at rc (tc_action cmd) (tt_last_buy terms) (clock w 3)) \<and>
     (tc_action cmd = Buy \<longrightarrow> within_position_cap rc cmd (started w) (rep_tier (tt_rep terms)))"

text \<open>The tables of \<open>w\<close>, seen from inside the transaction.\<close>

definition inside :: "world \<Rightarrow> world \<Rightarrow> bool" where
  "inside w w' \<longleftrightarrow> quiet w w' \<and> p_reserves (pending w') = [] \<and> p_positions (pending w') = []"

lemma inside_reads:
  assumes "inside w w'"
  shows "pool_for_update m w' = (Ok pool, v) \<longleftrightarrow> map_of (s_pools (committed w)) m = Some pool \<and> v = w'"
    "position_for_update u o' w' = (Ok held, v) \<longleftrightarrow> held = map_of (s_positions (committed w)) (u, o') \<and> v = w'"
    "last_buy_at u o' w' = (Ok t, v) \<longleftrightarrow> t = last_buy_of w u o' \<and> v = w'"
    "fence_config_value k w' = (Ok x, v) \<longleftrightarrow> x = map_of (entries (ops w)) k \<and> v = w'"
  using assms quiet_tables[of w w']
  by (auto simp: inside_def pool_for_update_def position_for_update_def last_buy_at_def last_buy_of_def asks_def
      fence_config_value_def run_simps Let_def split: option.splits)

lemma inside_calm: "inside w w' \<Longrightarrow> calm w' v \<Longrightarrow> inside w v"
  using quiet.trans quiet_same by (auto simp: inside_def calm_def)

lemma check_cap_Ok:
  assumes "check_cap rc cmd tier w' = (Ok x, v)" "inside (started w) w'"
  shows "v = w' \<and> (tc_action cmd = Buy \<longrightarrow> within_position_cap rc cmd (started w) tier)"
proof (cases "tc_action cmd = Buy")
  case True
  with assms(1) obtain cost where cost: "market_position_cost (tc_user cmd) (tc_market cmd) w' = (Ok cost, w')"
    "cost + tc_amount_micro cmd \<le> position_cap_micro_by_tier rc ! nat (min tier 4)" "v = w'"
    by (auto simp: check_cap_def run_simps market_position_cost_def Let_def split: if_splits)
  have "fst (market_position_cost (tc_user cmd) (tc_market cmd) (started w)) = Ok cost"
    using cost(1) assms(2) quiet_tables[of "started w" w']
    by (simp add: market_position_cost_def inquire_def inside_def started_def Pending_default_def)
  with cost show ?thesis by (auto simp: within_position_cap_def)
next
  case False
  with assms(1) show ?thesis by (simp add: check_cap_def run_simps)
qed

lemma inside_started: "inside (started w) w' \<Longrightarrow> inside w w'"
  using quiet.trans quiet_same[of "started w" w] by (auto simp: inside_def started_def)

lemma price_trade_Ok:
  assumes "price_trade rc cmd rep market w1 = (Ok terms, w2)" "inside (started w) w1" "clock w1 = (\<lambda>n. clock w (n + 3))"
  shows "priced rc cmd w terms \<and> tt_rep terms = rep \<and> tt_market terms = market \<and> calm w1 w2"
proof -
  have ins: "inside w w1" using inside_started[OF assms(2)] .
  have us: "uuid_string w1 = uuid_string w" using ins quiet_tables(20) by (auto simp: inside_def)
  let ?o = "outcome_of market (tc_side cmd)"
  from assms(1) obtain pool last_buy flip wx fv override wy held where
    1: "pool_for_update (tc_market cmd) w1 = (Ok pool, w1)" "last_buy_at (tc_user cmd) ?o w1 = (Ok last_buy, w1)" and
    2: "flip_within_window rc (tc_action cmd) last_buy w1 = (Ok flip, wx)" and
    3: "fence_config_value (fee_override_key (uuid_string wx) (tc_market cmd)) wx = (Ok fv, wx)"
      "FeeBpsOverride_parse fv = Ok override" and
    4: "check_cap rc cmd (rep_tier rep) wx = (Ok (), wy)" and
    5: "position_for_update (tc_user cmd) ?o wy = (Ok held, w2)" and
    terms: "terms = \<lparr>tt_rep = rep, tt_market = market, tt_pool = pool, tt_outcome = ?o, tt_last_buy = last_buy,
      tt_override = override, tt_fee = fee_for rc (rep_tier rep) pool override flip, tt_held = held\<rparr>"
    by (auto simp: price_trade_def run_simps Let_def fee_for_def pool_for_update_def last_buy_at_def
        fence_config_value_def position_for_update_def)
  note flip = flip_within_window_Ok[OF 2]
  have facts: "inside w wx" "inside (started w) wx" "uuid_string wx = uuid_string w" "calm w1 wx"
    using inside_calm[OF ins] inside_calm[OF assms(2)] flip us by (auto simp: calm_def)
  note cap = check_cap_Ok[OF 4 facts(2)]
  have "w2 = wx" "held = map_of (s_positions (committed w)) (tc_user cmd, ?o)"
    using 5 cap inside_reads(2)[OF facts(1)] by auto
  moreover have "fv = map_of (entries (ops w)) (fee_override_key (uuid_string w) (tc_market cmd))"
    using 3(1) inside_reads(4)[OF facts(1)] facts(3) by auto
  ultimately show ?thesis
    using 1 inside_reads(1,3)[OF ins] flip cap 3(2) facts(4) assms(3) by (auto simp: terms priced_def)
qed

definition not_paused :: "PlaceTradeCmd \<Rightarrow> world \<Rightarrow> bool" where
  "not_paused cmd w \<longleftrightarrow>
     \<not> pause_in_force (map_of (entries (ops w)) (lit ''trading_paused'')) \<and>
     \<not> pause_in_force (map_of (entries (ops w)) (lit ''market_paused:'' @ uuid_string w (tc_market cmd))) \<and>
     \<not> pause_in_force (map_of (entries (ops w)) (lit ''voting_paused:'' @ uuid_string w (tc_market cmd)))"

lemma check_pauses_Ok:
  "fst (check_pauses cmd w') = Ok x \<Longrightarrow> quiet w w' \<Longrightarrow> not_paused cmd w"
  using quiet_tables[of w w']
  by (auto simp: check_pauses_def not_paused_def seq_def asks_def store_def with_err_def ret_def fail_def
      fence_config_value_def split: if_splits)

text \<open>The changes since the previewed generation are still recorded, and none of them matters to this trade.\<close>

definition fresh_for :: "RepConfig \<Rightarrow> PlaceTradeCmd \<Rightarrow> world \<Rightarrow> i64 \<Rightarrow> TradeTerms \<Rightarrow> bool" where
  "fresh_for rc cmd w v terms \<longleftrightarrow>
     watermark (ops w) \<le> v + 1 \<and>
     (\<exists>since. preview_relevant_drift (uuid_string w) (map snd (filter (\<lambda>p. v < fst p) (changes (ops w))))
        \<lparr>sc_user_tier = rep_tier (tt_rep terms), sc_pool_fee_bps = pool_fee (tt_pool terms),
         sc_active_fee_override = tt_override terms, sc_rep = rc, sc_action = tc_action cmd,
         sc_secs_since_last_buy = since, sc_market = Some (tc_market cmd)\<rparr> = (Ok False :: (AppError, bool) outcome) \<and>
      (since = None \<longleftrightarrow> tt_last_buy terms = None))"

lemma calm_check_fresh: "framed calm (check_fresh rc cmd v terms)"
  unfolding check_fresh_def by (intro calm_intros calm.framed_rules)

lemma check_fresh_Ok:
  assumes "check_fresh rc cmd v terms w' = (Ok x, w'')" "quiet w w'"
  shows "fresh_for rc cmd w v terms \<and> calm w' w''"
proof -
  note tab = quiet_tables[OF assms(2)]
  from assms(1) obtain g cs where cs: "fence_changes_since v w' = (Ok (g, Some cs), w')"
    by (auto simp: check_fresh_def run_simps fence_changes_since_def split: option.splits if_splits)
  with assms(1) obtain since where drift:
    "preview_relevant_drift (uuid_string w') cs
        \<lparr>sc_user_tier = rep_tier (tt_rep terms), sc_pool_fee_bps = pool_fee (tt_pool terms),
         sc_active_fee_override = tt_override terms, sc_rep = rc, sc_action = tc_action cmd,
         sc_secs_since_last_buy = since, sc_market = Some (tc_market cmd)\<rparr> = (Ok False :: (AppError, bool) outcome)"
    "since = None \<longleftrightarrow> tt_last_buy terms = None"
    by (cases "tt_last_buy terms") (auto simp: check_fresh_def run_simps split: if_splits)
  have "watermark (ops w) \<le> v + 1" "cs = map snd (filter (\<lambda>p. v < fst p) (changes (ops w)))"
    using cs tab by (auto simp: fence_changes_since_def run_simps split: if_splits)
  with drift tab(20) have "fresh_for rc cmd w v terms" unfolding fresh_for_def by auto
  then show ?thesis using framedD[OF calm_check_fresh assms(1)] by blast
qed

section \<open>A trade that returns\<close>

definition cleared_to_trade :: "RepConfig \<Rightarrow> PlaceTradeCmd \<Rightarrow> world \<Rightarrow> TradeTerms \<Rightarrow> bool" where
  "cleared_to_trade rc cmd w terms \<longleftrightarrow>
     admitted cmd w (tt_rep terms) (tt_market terms) \<and> priced rc cmd w terms \<and> not_paused cmd w \<and>
     (\<exists>v. tc_expected_config_version cmd = Some v \<and> fresh_for rc cmd w v terms)"

definition fresh_trade ::
  "RepConfig \<Rightarrow> PlaceTradeCmd \<Rightarrow> world \<Rightarrow> TradeTerms \<Rightarrow> QuotedLegs \<Rightarrow> Entry list \<Rightarrow> StoredTrade \<Rightarrow>
     world \<Rightarrow> world \<Rightarrow> world \<Rightarrow> bool" where
  "fresh_trade rc cmd w terms legs es row wa wc w' \<longleftrightarrow>
     cleared_to_trade rc cmd w terms \<and>
     (\<exists>c. convert_then_collect (tc_user cmd) (clock w 0) (tc_idempotency_key cmd)
        ((started w)\<lparr>clock := \<lambda>n. clock w (Suc n)\<rparr>) = (Ok c, wa)) \<and>
     (\<exists>w3. calm wa w3 \<and> books cmd terms legs es row (noted (tc_idempotency_key cmd) (fingerprint_of w cmd) w3) wc) \<and>
     commit wc = (Ok (), w')"

lemma converted_inside:
  assumes "convert_then_collect u now key ((started w)\<lparr>clock := c\<rparr>) = (Ok r, wa)"
  shows "inside (started w) wa" "preliminary (started w) wa"
proof -
  have "preliminary ((started w)\<lparr>clock := c\<rparr>) wa" using framedD[OF preliminary_convert_then_collect assms] .
  moreover have "preliminary (started w) ((started w)\<lparr>clock := c\<rparr>)" by (rule preliminary_calm) (auto simp: calm_def)
  ultimately show p: "preliminary (started w) wa" using preliminary.trans by blast
  then show "inside (started w) wa" by (auto simp: preliminary_def inside_def started_def Pending_default_def)
qed

lemma fresh_run_trade:
  assumes "fresh_run tj rc cmd w rep market w1 terms w3 receipt w'"
  shows "\<exists>legs es row wa wc. fresh_trade rc cmd w terms legs es row wa wc w' \<and> receipt = StoredTrade_receipt row"
proof -
  from assms obtain v w2 where v: "tc_expected_config_version cmd = Some v" and
    1: "admit_trade cmd (started w) = (Ok (rep, market), w1)" and
    2: "price_trade rc cmd rep market w1 = (Ok terms, w2)" and
    3: "fst (check_pauses cmd w2) = Ok ()" and
    4: "check_fresh rc cmd v terms w2 = (Ok (), w3)" and
    5: "book_trade tj cmd terms (noted (tc_idempotency_key cmd) (fingerprint_of w cmd) w3) = (Ok receipt, w')"
    unfolding fresh_run_def by blast
  from admit_trade_Ok[OF 1] obtain c wa where adm: "admitted cmd w rep market" and
    conv: "convert_then_collect (tc_user cmd) (clock w 0) (tc_idempotency_key cmd)
      ((started w)\<lparr>clock := \<lambda>n. clock w (Suc n)\<rparr>) = (Ok c, wa)" and
    c1: "calm wa w1" "clock w1 = (\<lambda>n. clock w (n + 3))" by blast
  have ins: "inside (started w) w1" using inside_calm[OF converted_inside(1)[OF conv] c1(1)] .
  note price = price_trade_Ok[OF 2 ins c1(2)]
  have "inside w w2" using inside_calm[OF inside_started[OF ins]] price by blast
  then have q2: "quiet w w2" by (simp add: inside_def)
  note fresh = check_fresh_Ok[OF 4 q2]
  have "calm wa w3" using c1(1) price fresh calm.trans by blast
  moreover have "cleared_to_trade rc cmd w terms"
    unfolding cleared_to_trade_def using adm price check_pauses_Ok[OF 3 q2] v fresh by simp
  moreover from book_trade_runs[OF 5] obtain legs es row wc where
    "books cmd terms legs es row (noted (tc_idempotency_key cmd) (fingerprint_of w cmd) w3) wc"
    "receipt = StoredTrade_receipt row" "commit wc = (Ok (), w')" by blast
  ultimately show ?thesis using conv unfolding fresh_trade_def by blast
qed

lemma replay_trade_iff:
  "replay_trade cmd fp txn w = (Ok receipt, w') \<longleftrightarrow>
     w' = w \<and> (\<forall>stored. map_of (fingerprints (ops w)) (tc_idempotency_key cmd) = Some stored \<longrightarrow> stored = fp) \<and>
     (\<exists>r. fst (trade_by_ledger_txn txn w :: (StoreError, TradeReceipt option) outcome \<times> world) = Ok (Some r) \<and>
       receipt = r\<lparr>replayed := True\<rparr>)"
  by (auto simp: replay_trade_def run_simps request_fingerprint_def trade_by_ledger_txn_def validate_replay_fingerprint_def
      asks_def split: if_splits option.splits)

lemma place_trade_cases:
  assumes "place_trade tj rc cmd w = (Ok receipt, w')"
  obtains (replay) txn where "map_of (s_txn_keys (committed w)) (tc_idempotency_key cmd) = Some txn"
    "replay_trade cmd (fingerprint_of w cmd) txn (started w) = (Ok receipt, w')" "replayed receipt" "w' = started w"
  | (fresh) terms legs es row wa wc where "map_of (s_txn_keys (committed w)) (tc_idempotency_key cmd) = None"
    "fresh_trade rc cmd w terms legs es row wa wc w'" "receipt = StoredTrade_receipt row" "\<not> replayed receipt"
proof -
  from place_trade_runs[OF assms] consider
    txn where "map_of (s_txn_keys (committed w)) (tc_idempotency_key cmd) = Some txn"
      "replay_trade cmd (fingerprint_of w cmd) txn (started w) = (Ok receipt, w')"
    | rep market w1 terms w3 where "map_of (s_txn_keys (committed w)) (tc_idempotency_key cmd) = None"
      "fresh_run tj rc cmd w rep market w1 terms w3 receipt w'" by blast
  then show thesis
  proof cases
    case 1
    then show thesis using replay by (auto simp: replay_trade_iff)
  next
    case 2
    from fresh_run_trade[OF 2(2)] show thesis using 2(1) fresh by (auto simp: StoredTrade_receipt_def)
  qed
qed

definition with_trade :: "PlaceTradeCmd \<Rightarrow> QuotedLegs \<Rightarrow> StoredTrade \<Rightarrow> State \<Rightarrow> State \<Rightarrow> bool" where
  "with_trade cmd legs row s s' \<longleftrightarrow>
     (\<exists>rzs s6 s7 ev. s' = s\<lparr>s_pools := AList.update (tc_market cmd) (lg_pool_after legs) (s_pools s),
      s_positions := AList.update (pos_user (lg_position legs), pos_outcome (lg_position legs)) (lg_position legs) (s_positions s),
      s_trades_by_txn := AList.update (nt_ledger_txn (st_new row)) (st_id row) (s_trades_by_txn s),
      s_trades := AList.update (st_id row) row (s_trades s),
      s_realizations := fold (\<lambda>rz rows. if list_ex (same_realization rz) rows then rows else rows @ [rz]) rzs (s_realizations s),
      phase6 := s6, phase7 := s7, s_outbox := s_outbox s @ [ev]\<rparr>)"

lemma with_trade_fields:
  assumes "with_trade cmd legs row s s'"
  shows "s_pools s' = AList.update (tc_market cmd) (lg_pool_after legs) (s_pools s)"
    "s_positions s' = AList.update (pos_user (lg_position legs), pos_outcome (lg_position legs)) (lg_position legs) (s_positions s)"
    "s_trades_by_txn s' = AList.update (nt_ledger_txn (st_new row)) (st_id row) (s_trades_by_txn s)"
    "s_trades s' = AList.update (st_id row) row (s_trades s)"
    "s_txn_keys s' = s_txn_keys s" "s_balances s' = s_balances s" "s_accounts s' = s_accounts s" "s_markets s' = s_markets s"
    "s_votes s' = s_votes s" "s_tallies s' = s_tallies s" "s_reputation s' = s_reputation s"
  using assms unfolding with_trade_def by auto

lemma fresh_trade_commit:
  assumes "fresh_trade rc cmd w terms legs es row wa wc w'"
  shows "\<exists>at s. try_fold (commit_txn wc) (p_txns (pending wa) @
        [booked (tc_idempotency_key cmd) (nt_ledger_txn (st_new row)) Trade es at]) (committed wc) = Ok s \<and>
      with_trade cmd legs row s (committed w')"
    "ops w' = ops wc" "uuid_string w' = uuid_string w" "quiet w wc" "quiet wa wc"
    "map_of (fingerprints (ops w')) (tc_idempotency_key cmd) = Some (fingerprint_of w cmd)"
    "apply_phase7 (p_phase7 (pending wc)) (phase7 (committed w)) = Ok (phase7 (committed w'))"
    "order_d w' = order_d w" "order_c w' = order_c w"
proof -
  from assms obtain c w3 where conv: "convert_then_collect (tc_user cmd) (clock w 0) (tc_idempotency_key cmd)
      ((started w)\<lparr>clock := \<lambda>n. clock w (Suc n)\<rparr>) = (Ok c, wa)" and c3: "calm wa w3" and
    bk: "books cmd terms legs es row (noted (tc_idempotency_key cmd) (fingerprint_of w cmd) w3) wc" and
    com: "commit wc = (Ok (), w')" unfolding fresh_trade_def by blast
  let ?n = "noted (tc_idempotency_key cmd) (fingerprint_of w cmd) w3"
  have pre: "preliminary (started w) wa" using converted_inside(2)[OF conv] .
  then obtain ts p6 p7 where pa: "pending wa = Pending_default\<lparr>p_txns := ts, p_phase6 := p6, p_phase7 := p7\<rparr>"
    unfolding preliminary_def by (auto simp: started_def Pending_default_def)
  have pn: "pending ?n = pending wa" using c3 by (simp add: noted_def calm_def) (auto simp: calm_fields)
  from bk obtain at rzs ev q7 where pc: "pending wc = trade_rows cmd legs
      (booked (tc_idempotency_key cmd) (nt_ledger_txn (st_new row)) Trade es at) rzs row ev q7 (pending ?n)"
    unfolding books_def by blast
  from commit_Ok[OF com] obtain s1 s6 s7 where st: "stage wc = Ok s1"
    "committed w' = s1\<lparr>phase6 := s6, phase7 := s7, s_outbox := s_outbox s1 @ p_events (pending wc)\<rparr>"
    "apply_phase7 (p_phase7 (pending wc)) (phase7 s1) = Ok s7"
    and ow: "ops w' = ops wc" "uuid_string w' = uuid_string wc" "order_d w' = order_d wc" "order_c w' = order_c wc" by blast
  from trade_stage[OF pc[unfolded pn pa] st(1)] obtain s where s:
    "try_fold (commit_txn wc) (ts @ [booked (tc_idempotency_key cmd) (nt_ledger_txn (st_new row)) Trade es at]) (committed wc) = Ok s"
    "s1 = s\<lparr>s_pools := AList.update (tc_market cmd) (lg_pool_after legs) (s_pools s),
      s_positions := AList.update (pos_user (lg_position legs), pos_outcome (lg_position legs)) (lg_position legs) (s_positions s),
      s_trades_by_txn := AList.update (nt_ledger_txn (st_new row)) (st_id row) (s_trades_by_txn s),
      s_trades := AList.update (st_id row) row (s_trades s),
      s_realizations := fold (\<lambda>rz rows. if list_ex (same_realization rz) rows then rows else rows @ [rz]) rzs (s_realizations s)\<rparr>"
    by blast
  have "with_trade cmd legs row s (committed w')"
    unfolding with_trade_def st(2) s(2) using pc pn pa by (auto simp: trade_rows_def Pending_default_def)
  then show "\<exists>at s. try_fold (commit_txn wc) (p_txns (pending wa) @
        [booked (tc_idempotency_key cmd) (nt_ledger_txn (st_new row)) Trade es at]) (committed wc) = Ok s \<and>
      with_trade cmd legs row s (committed w')" using s(1) pa by auto
  have "framed quiet (save_request_fingerprint (tc_idempotency_key cmd) (fingerprint_of w cmd))" by (rule quiet_intros)
  then have "quiet w3 ?n" by (simp add: framed_def save_request_fingerprint_def modify_def noted_def)
  moreover have "quiet wa w3" using calm_side[OF c3] side_quiet by blast
  moreover have qc: "quiet ?n wc" "ops wc = ops ?n" using bk by (simp_all add: books_def)
  ultimately show qa: "quiet wa wc" using quiet.trans by blast
  have "quiet w (started w)" by (simp add: started_def quiet_same)
  then show qw: "quiet w wc" using qa pre quiet.trans by (auto simp: preliminary_def)
  show "ops w' = ops wc" by (rule ow(1))
  show "uuid_string w' = uuid_string w" "order_d w' = order_d w" "order_c w' = order_c w"
    using ow(2-4) quiet_tables(20-22)[OF qw] by simp_all
  have "but_ledger s = but_ledger (committed wc)" using commit_txns_Ok[OF s(1)] by blast
  from but_ledger_fields(10)[OF this] have "phase7 s1 = phase7 (committed w)" using s(2) quiet_tables(14)[OF qw] by simp
  then show "apply_phase7 (p_phase7 (pending wc)) (phase7 (committed w)) = Ok (phase7 (committed w'))" using st(2,3) by simp
  show "map_of (fingerprints (ops w')) (tc_idempotency_key cmd) = Some (fingerprint_of w cmd)"
    using ow(1) qc(2) by (simp add: noted_def update_conv')
qed

lemma commit_txns_key:
  "try_fold (commit_txn v) (ts @ [t]) s0 = Ok s \<Longrightarrow> map_of (s_txn_keys s) (pt_key t) = Some (pt_id t)"
  by (auto simp: try_fold_append commit_txn_def update_conv' split: if_splits)

section \<open>All or nothing, at most once\<close>

lemma place_trade_known_key:
  assumes "map_of (s_txn_keys (committed v)) (tc_idempotency_key cmd) = Some txn" "tc_expected_config_version cmd = Some n"
  shows "place_trade tj rc cmd v = replay_trade cmd (fingerprint_of v cmd) txn (started v)"
  using assms
  by (simp add: place_trade_def seq_def lift_def open_tx_def buffer_def modify_def asks_def store_def with_err_def
      txn_by_key_def started_def fingerprint_of_def pending_empty Let_def)

lemma trade_by_ledger_txn_started:
  "fst (trade_by_ledger_txn txn (started w)) = Ok (map_option StoredTrade_receipt
     (Option.bind (map_of (s_trades_by_txn (committed w)) txn) (map_of (s_trades (committed w)))))"
  by (simp add: trade_by_ledger_txn_def asks_def started_def Pending_default_def)

lemma place_trade_version:
  "place_trade tj rc cmd w = (Ok receipt, w1) \<Longrightarrow> \<exists>n. tc_expected_config_version cmd = Some n"
  by (auto simp: place_trade_def run_simps)

text \<open>What a placed trade leaves for its replays.\<close>

lemma fresh_trade_recorded:
  assumes "fresh_trade rc cmd w terms legs es row wa wc w'"
  shows "map_of (s_txn_keys (committed w')) (tc_idempotency_key cmd) = Some (nt_ledger_txn (st_new row))"
    "map_of (s_trades_by_txn (committed w')) (nt_ledger_txn (st_new row)) = Some (st_id row)"
    "map_of (s_trades (committed w')) (st_id row) = Some row"
proof -
  from fresh_trade_commit(1)[OF assms] obtain at s where
    s: "try_fold (commit_txn wc) (p_txns (pending wa) @
        [booked (tc_idempotency_key cmd) (nt_ledger_txn (st_new row)) Trade es at]) (committed wc) = Ok s"
      "with_trade cmd legs row s (committed w')" by blast
  note f = with_trade_fields[OF s(2)]
  show "map_of (s_txn_keys (committed w')) (tc_idempotency_key cmd) = Some (nt_ledger_txn (st_new row))"
    using commit_txns_key[OF s(1)] f(5) by (simp add: booked_def)
  show "map_of (s_trades_by_txn (committed w')) (nt_ledger_txn (st_new row)) = Some (st_id row)"
    "map_of (s_trades (committed w')) (st_id row) = Some row"
    using f(3,4) by (simp_all add: update_conv')
qed

lemma replay_after:
  assumes "place_trade tj rc cmd w = (Ok receipt, w1)"
  shows "place_trade tj' rc' cmd (w1\<lparr>clock := c\<rparr>) = (Ok (receipt\<lparr>replayed := True\<rparr>), started (w1\<lparr>clock := c\<rparr>))"
proof -
  let ?v = "w1\<lparr>clock := c\<rparr>"
  from place_trade_version[OF assms] obtain n where n: "tc_expected_config_version cmd = Some n" by blast
  from assms show ?thesis
  proof (cases rule: place_trade_cases)
    case (replay txn)
    have fp: "fingerprint_of ?v cmd = fingerprint_of w cmd" using replay(4) by (simp add: fingerprint_of_def started_def)
    have key: "map_of (s_txn_keys (committed ?v)) (tc_idempotency_key cmd) = Some txn" using replay by (simp add: started_def)
    have "replay_trade cmd (fingerprint_of ?v cmd) txn (started ?v) = (Ok (receipt\<lparr>replayed := True\<rparr>), started ?v)"
      using replay(2,4) unfolding replay_trade_iff fp trade_by_ledger_txn_started by (auto simp: started_def)
    then show ?thesis using place_trade_known_key[OF key n] by simp
  next
    case (fresh terms legs es row wa wc)
    note rec = fresh_trade_recorded[OF fresh(2)] and com = fresh_trade_commit[OF fresh(2)]
    have fp: "fingerprint_of ?v cmd = fingerprint_of w cmd" using com(3) by (simp add: fingerprint_of_def)
    have "replay_trade cmd (fingerprint_of ?v cmd) (nt_ledger_txn (st_new row)) (started ?v) =
        (Ok (receipt\<lparr>replayed := True\<rparr>), started ?v)"
      unfolding replay_trade_iff fp trade_by_ledger_txn_started using com(6) rec(2,3) fresh(3)
      by (simp add: started_def StoredTrade_receipt_def)
    then show ?thesis using place_trade_known_key[OF _ n] rec(1) by simp
  qed
qed

definition request_of :: "PlaceTradeCmd \<Rightarrow> market_id \<times> user_id \<times> Side \<times> TradeAction \<times> i64 \<times> i64 option" where
  "request_of cmd = (tc_market cmd, tc_user cmd, tc_side cmd, tc_action cmd, tc_amount_micro cmd, tc_expected_config_version cmd)"

lemma conflict_after:
  assumes "place_trade tj rc cmd w = (Ok receipt, w1)" "\<not> replayed receipt" "uuid_text (uuid_string w)"
    "tc_idempotency_key cmd' = tc_idempotency_key cmd" "tc_expected_config_version cmd' = Some n"
    "request_of cmd' \<noteq> request_of cmd"
  shows "place_trade tj' rc' cmd' (w1\<lparr>clock := c\<rparr>) = (Err IdempotencyConflict, started (w1\<lparr>clock := c\<rparr>))"
  using assms(1)
proof (cases rule: place_trade_cases)
  case (fresh terms legs es row wa wc)
  let ?v = "w1\<lparr>clock := c\<rparr>"
  note rec = fresh_trade_recorded[OF fresh(2)] and com = fresh_trade_commit[OF fresh(2)]
  have "fingerprint_of ?v cmd' \<noteq> fingerprint_of w cmd"
    using trade_fingerprint_inj[OF assms(3)] assms(6) com(3) by (simp add: fingerprint_of_def request_of_def)
  then have "replay_trade cmd' (fingerprint_of ?v cmd') txn (started ?v) = (Err IdempotencyConflict, started ?v)" for txn
    using com(6) assms(4)
    by (simp add: replay_trade_def seq_def lift_def store_def with_err_def request_fingerprint_def asks_def
        validate_replay_fingerprint_def started_def)
  then show ?thesis using place_trade_known_key[OF _ assms(5), of ?v] rec(1) assms(4) by simp
qed (use assms(2) in simp)

section \<open>A preview quotes what the trade books\<close>

abbreviation receipt_numbers :: "TradeReceipt \<Rightarrow> int \<times> int \<times> int \<times> int" where
  "receipt_numbers r \<equiv> (rc_shares r, rc_gross r, rc_fee r, rc_avg_price_micro r)"

abbreviation preview_numbers :: "TradePreview \<Rightarrow> int \<times> int \<times> int \<times> int" where
  "preview_numbers p \<equiv> (tp_shares p, tp_gross p, tp_fee p, tp_avg_price_micro p)"

abbreviation leg_numbers :: "QuotedLegs \<Rightarrow> int \<times> int \<times> int \<times> int" where
  "leg_numbers l \<equiv> (lg_shares l, lg_gross l, lg_fee l, lg_avg_price_micro l)"

text \<open>The request a preview stands for.\<close>

definition previews :: "PreviewTradeCmd \<Rightarrow> PlaceTradeCmd \<Rightarrow> bool" where
  "previews pcmd cmd \<longleftrightarrow> pv_user_id pcmd = tc_user cmd \<and> pv_side pcmd = tc_side cmd \<and> pv_action pcmd = tc_action cmd \<and>
     pv_amount_micro pcmd = tc_amount_micro cmd"

lemma preview_legs:
  assumes "quote_preview pcmd m pool fee v = Ok p" "quote_legs cmd pool o' held fee = Ok legs" "previews pcmd cmd"
  shows "leg_numbers legs = preview_numbers p"
  using assms
  by (cases "tc_action cmd")
     (auto simp: quote_preview_def quote_legs_def buy_legs_def sell_legs_def previews_def Let_def split: option.splits if_splits)

definition same_inputs :: "PreviewSource \<Rightarrow> RepConfig \<Rightarrow> PlaceTradeCmd \<Rightarrow> world \<Rightarrow> world \<Rightarrow> bool" where
  "same_inputs src rc cmd wp w \<longleftrightarrow>
     (\<exists>market. map_of (s_markets (committed wp)) (tc_market cmd) = Some market \<and>
        map_of (s_markets (committed w)) (tc_market cmd) = Some market \<and> mk_id market = tc_market cmd \<and>
        clock wp 0 < tally_hidden_at market \<and>
        (let o' = outcome_of market (tc_side cmd); buy = last_buy_of wp (tc_user cmd) o' in
         last_buy_of w (tc_user cmd) o' = buy \<and>
         flip_at rc (tc_action cmd) buy (clock wp 1) = flip_at rc (tc_action cmd) buy (clock w 3))) \<and>
     map_of (s_pools (committed wp)) (tc_market cmd) = map_of (s_pools (committed w)) (tc_market cmd) \<and>
     map_of (s_reputation (committed wp)) (tc_user cmd) = map_of (s_reputation (committed w)) (tc_user cmd) \<and>
     snapshot_value src (fee_override_key (uuid_string wp) (tc_market cmd)) =
       Ok (map_of (entries (ops w)) (fee_override_key (uuid_string w) (tc_market cmd)))"

lemma last_buy_at_of: "last_buy_at u o' w = (Ok t, v) \<longleftrightarrow> t = last_buy_of w u o' \<and> v = w"
  by (auto simp: last_buy_at_def last_buy_of_def asks_def)

lemma preview_flip_Ok:
  assumes "(if action = Sell \<and> discount_flip_window_secs rc \<noteq> 0
      then seq (store (last_buy_at u o')) (flip_within_window rc action) else ret False) w = (Ok f, w')"
  shows "f = flip_at rc action (last_buy_of w u o') (clock w 0) \<and> calm w w'"
proof (cases "action = Sell \<and> discount_flip_window_secs rc \<noteq> 0")
  case True
  with assms have "flip_within_window rc action (last_buy_of w u o') w = (Ok f, w')"
    by (simp add: run_simps last_buy_at_of)
  then show ?thesis by (rule flip_within_window_Ok)
next
  case False
  with assms show ?thesis by (auto simp: flip_at_def run_simps)
qed

lemma preview_trade_Ok:
  assumes "preview_trade src rc pcmd w = (Ok p, w')" "parse_uuid src (pv_market_ref pcmd) = Some m"
    "map_of (s_markets (committed w)) m = Some market" "mk_id market = m" "mk_state market = Live"
    "clock w 0 < tally_hidden_at market"
  shows "\<exists>pool rp tier override v. map_of (s_pools (committed w)) m = Some pool \<and>
    map_of (s_reputation (committed w)) (pv_user_id pcmd) = Some (rp, tier) \<and>
    and_then (snapshot_value src (fee_override_key (uuid_string w) m)) FeeBpsOverride_parse = Ok override \<and>
    quote_preview pcmd m pool (fee_for rc tier pool override
      (flip_at rc (pv_action pcmd) (last_buy_of w (pv_user_id pcmd) (outcome_of market (pv_side pcmd))) (clock w 1))) v = Ok p"
proof -
  let ?w = "w\<lparr>clock := \<lambda>n. clock w (Suc n)\<rparr>" and ?o = "outcome_of market (pv_side pcmd)"
  from assms obtain v pool rep flip wx fv override where
    1: "pool_query m ?w = (Ok pool, ?w)" "user_rep (pv_user_id pcmd) ?w = (Ok rep, ?w)" and
    2: "(if pv_action pcmd = Sell \<and> discount_flip_window_secs rc \<noteq> 0
      then seq (store (last_buy_at (pv_user_id pcmd) ?o)) (flip_within_window rc (pv_action pcmd)) else ret False) ?w = (Ok flip, wx)" and
    3: "snapshot_value src (fee_override_key (uuid_string w) m) = Ok fv" "FeeBpsOverride_parse fv = Ok override" and
    4: "quote_preview pcmd m pool (fee_for rc (rep_tier rep) pool override flip) v = Ok p"
    by (auto simp: preview_trade_def run_simps market_by_ref_def Let_def fee_for_def pool_query_def user_rep_def
        split: if_splits)
  have flip: "flip = flip_at rc (pv_action pcmd) (last_buy_of w (pv_user_id pcmd) ?o) (clock w 1)"
    using preview_flip_Ok[OF 2] by (simp add: last_buy_of_def last_buy_at_def asks_def)
  show ?thesis using 1 3 4 unfolding flip by (auto simp: pool_query_def user_rep_def run_simps)
qed

lemma preview_agrees:
  assumes "preview_trade src rc pcmd wp = (Ok p, wp')" "parse_uuid src (pv_market_ref pcmd) = Some (tc_market cmd)"
    "previews pcmd cmd" "same_inputs src rc cmd wp w"
    "cleared_to_trade rc cmd w terms"
    "quote_legs cmd (tt_pool terms) (tt_outcome terms) (tt_held terms) (tt_fee terms) = Ok legs"
  shows "leg_numbers legs = preview_numbers p"
proof -
  from assms(5) have adm: "admitted cmd w (tt_rep terms) (tt_market terms)" and pr: "priced rc cmd w terms"
    by (auto simp: cleared_to_trade_def)
  let ?m = "tt_market terms" and ?buy = "last_buy_of wp (tc_user cmd) (tt_outcome terms)"
  from adm have row: "map_of (s_markets (committed w)) (tc_market cmd) = Some ?m" "mk_state ?m = Live"
    by (auto simp: admitted_def)
  from pr have out: "tt_outcome terms = outcome_of ?m (tc_side cmd)" by (simp add: priced_def)
  from assms(4) row(1) out have same: "map_of (s_markets (committed wp)) (tc_market cmd) = Some ?m" "mk_id ?m = tc_market cmd"
    "clock wp 0 < tally_hidden_at ?m" "last_buy_of w (tc_user cmd) (tt_outcome terms) = ?buy"
    "flip_at rc (tc_action cmd) ?buy (clock wp 1) = flip_at rc (tc_action cmd) ?buy (clock w 3)"
    "map_of (s_pools (committed wp)) (tc_market cmd) = map_of (s_pools (committed w)) (tc_market cmd)"
    "map_of (s_reputation (committed wp)) (tc_user cmd) = map_of (s_reputation (committed w)) (tc_user cmd)"
    "snapshot_value src (fee_override_key (uuid_string wp) (tc_market cmd)) =
       Ok (map_of (entries (ops w)) (fee_override_key (uuid_string w) (tc_market cmd)))"
    by (auto simp: same_inputs_def Let_def)
  from preview_trade_Ok[OF assms(1,2) same(1,2) row(2) same(3)] assms(3) out obtain pool rp tier override v where
    P: "map_of (s_pools (committed wp)) (tc_market cmd) = Some pool"
      "map_of (s_reputation (committed wp)) (tc_user cmd) = Some (rp, tier)"
      "and_then (snapshot_value src (fee_override_key (uuid_string wp) (tc_market cmd))) FeeBpsOverride_parse = Ok override"
      "quote_preview pcmd (tc_market cmd) pool
        (fee_for rc tier pool override (flip_at rc (tc_action cmd) ?buy (clock wp 1))) v = Ok p"
    by (auto simp: previews_def)
  have "pool = tt_pool terms" "override = tt_override terms" "tier = rep_tier (tt_rep terms)" "tt_last_buy terms = ?buy"
    using P same pr adm by (auto simp: priced_def admitted_def)
  then have "fee_for rc tier pool override (flip_at rc (tc_action cmd) ?buy (clock wp 1)) = tt_fee terms"
    using pr same(5) by (simp add: priced_def)
  with P(4) \<open>pool = tt_pool terms\<close> show ?thesis using preview_legs[OF _ assms(6,3)] by auto
qed

lemma fresh_trade_numbers:
  assumes "fresh_trade rc cmd w terms legs es row wa wc w'"
  shows "quote_legs cmd (tt_pool terms) (tt_outcome terms) (tt_held terms) (tt_fee terms) = Ok legs"
    "receipt_numbers (StoredTrade_receipt row) = leg_numbers legs" "cleared_to_trade rc cmd w terms"
proof -
  from assms obtain w3 where b: "books cmd terms legs es row (noted (tc_idempotency_key cmd) (fingerprint_of w cmd) w3) wc"
    and "cleared_to_trade rc cmd w terms" unfolding fresh_trade_def by blast
  then show "quote_legs cmd (tt_pool terms) (tt_outcome terms) (tt_held terms) (tt_fee terms) = Ok legs"
    "cleared_to_trade rc cmd w terms" by (simp_all add: books_def)
  from b have "st_new row = new_trade cmd (tt_outcome terms) legs (nt_ledger_txn (st_new row))" by (simp add: books_def)
  then have "nt_shares (st_new row) = lg_shares legs" "nt_gross (st_new row) = lg_gross legs" "nt_fee (st_new row) = lg_fee legs"
    "nt_avg_price_micro (st_new row) = lg_avg_price_micro legs"
    by (metis NewTrade.select_convs new_trade_def)+
  then show "receipt_numbers (StoredTrade_receipt row) = leg_numbers legs" by (simp add: StoredTrade_receipt_def)
qed

end
