(* ===== verification/Settling.thy ===== *)
theory Settling
  imports Grants Trading
begin

text \<open>
  Resolving a market (application/src/resolve_market.rs) over the settlement rows of the in-memory store
  (\<open>SettlementIo\<close> and the referral hooks of application/src/fakes/market.rs). \<open>resolve_market\<close> is the use case's
  \<open>execute\<close> in stages, in its order: replay, participants, review, the payout hold, the decision, payout,
  collection, positions, results, scores, lifecycle, commit. Row locks are no-ops of a world used by one call.
\<close>

section \<open>Settlement rows of the store\<close>

datatype HoldingOwner = HolderUser user_id | HolderPool

record Holding =
  hd_account :: account_id
  hd_owner :: HoldingOwner
  hd_outcome :: outcome_id
  hd_side :: Side
  hd_shares :: micro_shares

definition side_of_outcome :: "MarketRow \<Rightarrow> outcome_id \<Rightarrow> Side option" where
  "side_of_outcome market o' =
     (if o' = yes_outcome market then Some Yes else if o' = no_outcome market then Some No else None)"

text \<open>
  Holdings are read from the committed rows and sorted by account and side at the end, so the iteration
  order of the position table does not matter.
\<close>

definition position_holding :: "State \<Rightarrow> MarketRow \<Rightarrow> PositionRow \<Rightarrow> (StoreError, Holding list) outcome" where
  "position_holding s market p =
     (case side_of_outcome market (pos_outcome p) of
        None \<Rightarrow> Ok []
      | Some sd \<Rightarrow>
          if pos_shares p = 0 then Ok []
          else
            and_then (ok_or (map_of (s_accounts s) (UserOwner (pos_user p), Usdc)) (Invariant ''position holder without account''))
              (\<lambda>a. Ok [\<lparr>hd_account = a, hd_owner = HolderUser (pos_user p), hd_outcome = pos_outcome p,
                 hd_side = sd, hd_shares = pos_shares p\<rparr>]))"

definition pool_holdings :: "State \<Rightarrow> MarketRow \<Rightarrow> market_id \<Rightarrow> (StoreError, Holding list) outcome" where
  "pool_holdings s market m =
     (case map_of (s_pools s) m of
        None \<Rightarrow> Ok []
      | Some pool \<Rightarrow>
          and_then (ok_or (map_of (s_accounts s) (MarketPool m, Usdc)) (Invariant ''pool reserves without pool account''))
            (\<lambda>a. Ok [\<lparr>hd_account = a, hd_owner = HolderPool, hd_outcome = yes_outcome market, hd_side = Yes,
                 hd_shares = pool_yes pool\<rparr>,
               \<lparr>hd_account = a, hd_owner = HolderPool, hd_outcome = no_outcome market, hd_side = No,
                 hd_shares = pool_no pool\<rparr>]))"

definition holdings :: "market_id \<Rightarrow> Holding list tx" where
  "holdings m =
     inquire (\<lambda>w. let s = committed w in
       and_then (ok_or (map_of (s_markets s) m) (NotFound ''market'')) (\<lambda>market.
       and_then (try_map (position_holding s market) (map snd (s_positions s))) (\<lambda>held.
       and_then (pool_holdings s market m) (\<lambda>pool.
       Ok (sort_key hd_account (sort_key (\<lambda>h. hd_side h = No) (concat held @ pool)))))))"

definition escrow_balance :: "market_id \<Rightarrow> micro_usd tx" where
  "escrow_balance m =
     inquire (\<lambda>w. and_then (ok_or (map_of (s_accounts (committed w)) (MarketEscrow m, Usdc)) (NotFound ''escrow account''))
       (\<lambda>escrow. ok_or (balance (s_balances (committed w)) escrow) (Invariant ''escrow account without balance'')))"

definition write_outcome_resolution :: "outcome_id \<Rightarrow> u16 \<Rightarrow> micro_usd \<Rightarrow> unit tx" where
  "write_outcome_resolution o' final_bps redemption =
     buffer (\<lambda>p. p\<lparr>p_outcome_resolutions := p_outcome_resolutions p @ [(o', final_bps, redemption)]\<rparr>)"

record VoteFact =
  vf_vote_id :: uuid
  vf_user :: user_id
  vf_side :: Side
  vf_crowd_guess_pct :: u8

text \<open>A market's vote sequence numbers are distinct, so sorting by them fixes the order.\<close>

definition vote_facts :: "market_id \<Rightarrow> VoteFact list tx" where
  "vote_facts m =
     asks (\<lambda>w. map (\<lambda>v. \<lparr>vf_vote_id = sv_id v, vf_user = sv_user v, vf_side = sv_side v,
           vf_crowd_guess_pct = sv_crowd_guess_pct v\<rparr>)
       (sort_key sv_seq (filter (\<lambda>v. sv_market v = m) (map snd (s_vote_rows (committed w))))))"

definition save_vote_scores :: "(uuid \<times> VoteScore) list \<Rightarrow> unit tx" where
  "save_vote_scores batch =
     seq (asks (\<lambda>w. list_ex (\<lambda>(v, _). map_of (s_vote_rows (committed w)) v = None) batch)) (\<lambda>unknown_vote.
     if unknown_vote then fail (Invariant ''score for unknown vote'')
     else
       seq now_utc (\<lambda>scored_at.
       buffer (\<lambda>p. p\<lparr>p_vote_scores := p_vote_scores p @ map (\<lambda>(v, score). (v, score, scored_at)) batch\<rparr>)))"

definition voter_ids :: "market_id \<Rightarrow> user_id list tx" where
  "voter_ids m = asks (\<lambda>w. map sv_user (filter (\<lambda>v. sv_market v = m) (map snd (s_vote_rows (committed w)))))"

definition reps_for_update :: "user_id list \<Rightarrow> ReputationRow list tx" where
  "reps_for_update users =
     inquire (\<lambda>w. try_map (\<lambda>u. and_then (ok_or (map_of (s_reputation (committed w)) u) (NotFound ''reputation''))
       (\<lambda>(micro, tier). Ok \<lparr>rep_user = u, rep_micro = micro, rep_tier = tier\<rparr>)) users)"

definition save_reps :: "ReputationRow list \<Rightarrow> unit tx" where
  "save_reps batch = buffer (\<lambda>p. p\<lparr>p_reputation := p_reputation p @ batch\<rparr>)"

definition open_interest :: "market_id \<Rightarrow> micro_usd tx" where
  "open_interest m =
     inquire (\<lambda>w.
       and_then (ok_or (map_of (s_markets (committed w)) m) (NotFound ''market'')) (\<lambda>market.
       try_fold (\<lambda>total' p. ok_or (checked fits_i64 (total' + pos_cost p)) (Invariant ''open interest overflow''))
         (filter (\<lambda>p. pos_outcome p = yes_outcome market \<or> pos_outcome p = no_outcome market)
           (map snd (order_p w (s_positions (committed w))))) 0))"

definition flag_curator_needed :: "market_id \<Rightarrow> bool tx" where
  "flag_curator_needed m =
     seq (asks (\<lambda>w. state_seen w m)) (\<lambda>st.
     if st \<noteq> Some Resolving then ret False
     else
       seq (asks (\<lambda>w. case find (\<lambda>p. fst p = m) (rev (p_curator_flags (pending w))) of
            Some (_, flag) \<Rightarrow> flag
          | None \<Rightarrow> Option.bind (map_of (s_markets (committed w)) m) curator_flagged_at)) (\<lambda>current.
       if current \<noteq> None then ret False
       else
         seq now_utc (\<lambda>at.
         seq (buffer (\<lambda>p. p\<lparr>p_curator_flags := p_curator_flags p @ [(m, Some at)]\<rparr>)) (\<lambda>_.
         ret True))))"

definition clear_curator_flag :: "market_id \<Rightarrow> unit tx" where
  "clear_curator_flag m = buffer (\<lambda>p. p\<lparr>p_curator_flags := p_curator_flags p @ [(m, None)]\<rparr>)"

definition integrity_report :: "market_id \<Rightarrow> IntegrityReportRow option tx" where
  "integrity_report m =
     asks (\<lambda>w. case find (\<lambda>r. ir_market r = m) (p_integrity_reports (pending w)) of
         Some r \<Rightarrow> Some r
       | None \<Rightarrow> map_of (s_integrity_reports (committed w)) m)"

definition known_market :: "market_id \<Rightarrow> unit tx" where
  "known_market m =
     seq (asks (\<lambda>w. map_of (s_markets (committed w)) m)) (\<lambda>found.
     if found = None then fail (NotFound ''market'') else ret ())"

definition set_integrity_due_at :: "market_id \<Rightarrow> time option \<Rightarrow> unit tx" where
  "set_integrity_due_at m due_at =
     seq (known_market m) (\<lambda>_.
     buffer (\<lambda>p. p\<lparr>p_integrity_due_updates := p_integrity_due_updates p @ [(m, due_at)]\<rparr>))"

definition pool_seeded_micro :: "market_id \<Rightarrow> micro_usd tx" where
  "pool_seeded_micro m = inquire (\<lambda>w. ok_or (map_of (s_pool_seeded (committed w)) m) (NotFound ''pool seed''))"

definition set_lp_result :: "market_id \<Rightarrow> micro_usd \<Rightarrow> time \<Rightarrow> unit tx" where
  "set_lp_result m pnl settled_at =
     seq (known_market m) (\<lambda>_.
     buffer (\<lambda>p. p\<lparr>p_lp_results := p_lp_results p @ [(m, pnl, settled_at)]\<rparr>))"

definition set_collateral_at_close :: "market_id \<Rightarrow> micro_usd \<Rightarrow> unit tx" where
  "set_collateral_at_close m collateral =
     seq (known_market m) (\<lambda>_.
     buffer (\<lambda>p. p\<lparr>p_collateral_at_close := p_collateral_at_close p @ [(m, collateral)]\<rparr>))"

definition lifecycle_command :: "ustring \<Rightarrow> LifecycleCommand option tx" where
  "lifecycle_command key =
     asks (\<lambda>w. case find (\<lambda>p. fst p = key) (p_lifecycle_commands (pending w)) of
         Some (_, command) \<Rightarrow> Some command
       | None \<Rightarrow> map_of (s_lifecycle_commands (committed w)) key)"

definition record_lifecycle_command :: "ustring \<Rightarrow> LifecycleCommand \<Rightarrow> unit tx" where
  "record_lifecycle_command key command =
     seq (lifecycle_command key) (\<lambda>found.
     if found \<noteq> None then fail DuplicateKey
     else buffer (\<lambda>p. p\<lparr>p_lifecycle_commands := p_lifecycle_commands p @ [(key, command)]\<rparr>))"

definition append_batch :: "Event list \<Rightarrow> unit tx" where
  "append_batch es = buffer (\<lambda>p. p\<lparr>p_events := p_events p @ es\<rparr>)"

definition audit_insert :: "AdminAction \<Rightarrow> unit tx" where
  "audit_insert action =
     (if actor_token_digest action = [] \<or> aa_action action = [] then fail (Invariant ''audit row missing actor or action'')
      else buffer (\<lambda>p. p\<lparr>p_phase6 := (p_phase6 p)\<lparr>p_audits := p_audits (p_phase6 p) @ [action]\<rparr>\<rparr>))"


section \<open>Referral hooks of a settlement\<close>

definition referral_parties_of :: "user_id list \<Rightarrow> user_id \<Rightarrow> user_id list tx" where
  "referral_parties_of users referee =
     seq (referral_bind_for_referee referee) (\<lambda>found.
     case found of
       None \<Rightarrow> ret (users @ [referee])
     | Some bind \<Rightarrow>
         seq (referral_bind_parties bind) (\<lambda>parties.
         seq (lift (ok_or parties (Invariant ''referral bind index points to no row''))) (\<lambda>(referrer, bound_referee, _).
         if bound_referee \<noteq> referee \<or> referrer = referee then ret (users @ [referee])
         else ret (users @ [referee, referrer]))))"

definition referral_relevant_users :: "market_id \<Rightarrow> user_id list tx" where
  "referral_relevant_users m =
     seq (referral_referees_for_paid_market m) (\<lambda>referees.
     seq (for_fold referral_parties_of referees []) (\<lambda>users.
     ret (remdups_adj (sort users))))"

definition grant_referrals_on_paid :: "trade_order \<Rightarrow> market_id \<Rightarrow> u32 tx" where
  "grant_referrals_on_paid order_t m =
     seq (asks (\<lambda>w. find (\<lambda>p. fst p = m) (rev (p_lp_results (pending w))))) (\<lambda>found.
     seq (case found of Some (_, _, at) \<Rightarrow> ret at | None \<Rightarrow> now_utc) (\<lambda>at.
     seq (referral_referees_for_paid_market m) (\<lambda>referees.
     for_fold (\<lambda>granted referee.
       seq (grant_referral_on_paid_in_tx order_t referee m at) (\<lambda>done'.
       if done' then lift (ok_or (checked fits_u32 (granted + 1)) (Invariant ''referral grant count overflow''))
       else ret granted)) referees 0)))"

section \<open>Commands and results\<close>

datatype CuratorDecision = ResolveAtTally | VoidMarket

record ResolveMarketCmd =
  rm_market :: market_id
  rm_curator_override :: "CuratorDecision option"

datatype ResolveOutcome = Settled | HeldForReview time | ReviewRequired | VoidedOutcome

record ResolveReceipt =
  rr_market :: market_id
  rr_outcome :: ResolveOutcome
  rr_final_yes_bps :: "u16 option"
  rr_ledger_txn :: "uuid option"
  rr_replayed :: bool

text \<open>
  The use case's configuration. \<open>rs_crash_point\<close> is what the injected crash point returns and \<open>rs_actor\<close> who
  calls; \<open>rs_time_json\<close> writes a time stamp as JSON and \<open>rs_order_t\<close> is the iteration order of the trade table.
\<close>

record ResolveMarket =
  rs_oi_floor :: micro_usd
  rs_rep_config :: RepConfig
  rs_payout_hold_threshold_micro :: i64
  rs_sweep_delay_secs :: u64
  rs_crash_point :: "(StoreError, unit) outcome"
  rs_actor :: AdminContext
  rs_time_json :: "time \<Rightarrow> Value"
  rs_order_t :: trade_order

definition resolve_key :: "(uuid \<Rightarrow> ustring) \<Rightarrow> market_id \<Rightarrow> ustring" where
  "resolve_key show_uuid m = lit ''resolve:'' @ show_uuid m"

fun MarketState_debug :: "MarketState \<Rightarrow> ustring" where
  "MarketState_debug Draft = lit ''Draft''"
| "MarketState_debug Scheduled = lit ''Scheduled''"
| "MarketState_debug Live = lit ''Live''"
| "MarketState_debug Closing = lit ''Closing''"
| "MarketState_debug Closed = lit ''Closed''"
| "MarketState_debug Resolving = lit ''Resolving''"
| "MarketState_debug Resolved = lit ''Resolved''"
| "MarketState_debug Paid = lit ''Paid''"
| "MarketState_debug Voided = lit ''Voided''"

section \<open>Settlement entries and the decision\<close>

fun payout_entries :: "(account_id \<times> micro_usd) list \<Rightarrow> i64 \<Rightarrow> Entry list \<Rightarrow> (AppError, Entry list \<times> i64) outcome" where
  "payout_entries [] total' es = Ok (es, total')"
| "payout_entries ((a, payout) # rest) total' es =
     and_then (ok_or (checked fits_i64 (total' + payout)) AppOverflow) (\<lambda>total'.
     payout_entries rest total' (if payout \<noteq> 0 then es @ [\<lparr>entry_account = a, entry_amount = payout\<rparr>] else es))"

definition settlement_entries :: "account_id \<Rightarrow> account_id \<Rightarrow> Settlement \<Rightarrow> (AppError, Entry list) outcome" where
  "settlement_entries escrow_account fees_account settlement =
     and_then (payout_entries (payouts settlement) 0 []) (\<lambda>(es, total').
     let es = (if dust settlement \<noteq> 0 then es @ [\<lparr>entry_account = fees_account, entry_amount = dust settlement\<rparr>] else es) in
     and_then (ok_or (checked fits_i64 (total' + dust settlement)) AppOverflow) (\<lambda>total'.
     if total' \<noteq> 0 then
       and_then (arith fits_i64 (- total')) (\<lambda>minus. Ok (es @ [\<lparr>entry_account = escrow_account, entry_amount = minus\<rparr>]))
     else Ok es))"

definition decide :: "Tally \<Rightarrow> i32 \<Rightarrow> micro_usd \<Rightarrow> micro_usd \<Rightarrow> (AppError, bool \<times> u16) outcome" where
  "decide votes min_votes interest oi_floor =
     and_then (actual_yes_bps votes) (\<lambda>bps.
     and_then (case bps of None \<Rightarrow> Ok None
         | Some b \<Rightarrow> and_then (tally_total votes) (\<lambda>n. Ok (if min_votes \<le> n then Some b else None))) (\<lambda>decided.
     case decided of
       Some b \<Rightarrow> Ok (False, b)
     | None \<Rightarrow> if interest < oi_floor then Ok (True, 5000) else Err NeedsCuratorDecision))"

record ResolutionParticipants =
  voters :: "user_id list"
  all_parties :: "user_id list"

definition resolution_participants :: "market_id \<Rightarrow> ResolutionParticipants tx" where
  "resolution_participants m =
     seq (voter_ids m) (\<lambda>ids.
     let vs = remdups_adj (sort ids) in
     seq (referral_relevant_users m) (\<lambda>relevant.
     seq (holdings m) (\<lambda>hs.
     let holders = List.map_filter (\<lambda>h. case hd_owner h of HolderUser u \<Rightarrow> Some u | HolderPool \<Rightarrow> None) hs in
     ret \<lparr>voters = vs, all_parties = remdups_adj (sort (vs @ relevant @ holders))\<rparr>)))"

definition replay_receipt :: "market_id \<Rightarrow> uuid \<Rightarrow> ResolveReceipt app" where
  "replay_receipt m txn =
     seq (store (market_for_update m)) (\<lambda>row.
     seq (case mk_state row of
            Voided \<Rightarrow> ret (VoidedOutcome, 5000)
          | Paid \<Rightarrow>
              seq (store (tally m)) (\<lambda>votes.
              seq (lift (actual_yes_bps votes)) (\<lambda>found.
              seq (lift (ok_or found (AppStore (Invariant ''paid market without a tally'')))) (\<lambda>bps.
              ret (Settled, bps))))
          | _ \<Rightarrow> fail (AppStore (Invariant ''resolve key exists but market is not settled''))) (\<lambda>(outcome, bps).
     ret \<lparr>rr_market = m, rr_outcome = outcome, rr_final_yes_bps = Some bps, rr_ledger_txn = Some txn, rr_replayed = True\<rparr>))"

definition audit_resolution :: "ResolveMarket \<Rightarrow> market_id \<Rightarrow> MarketState \<Rightarrow> Value \<Rightarrow> unit app" where
  "audit_resolution self m state_before after' =
     (case rs_actor self of
        Machine \<Rightarrow> ret ()
      | Admin token_digest role \<Rightarrow>
          seq (asks uuid_string) (\<lambda>show_uuid.
          store (audit_insert
            \<lparr>actor_role = role, actor_token_digest = token_digest, aa_action = lit ''resolve_market'',
             aa_subject = lit ''market:'' @ show_uuid m,
             aa_before = Some (Object [(lit ''state'', Str (MarketState_debug state_before))]),
             aa_after = Some after', aa_reason = None\<rparr>)))"

section \<open>The stages of a resolution\<close>

text \<open>Who may resolve: a flagged market needs a curator, an unflagged one a passing integrity report.\<close>

definition check_reviewed :: "ResolveMarketCmd \<Rightarrow> MarketRow \<Rightarrow> unit app" where
  "check_reviewed cmd market =
     (if mk_state market = Resolving then
        if curator_flagged_at market \<noteq> None then
          (if rm_curator_override cmd = None then fail CuratorRequired else ret ())
        else if rm_curator_override cmd \<noteq> None then fail CuratorOverrideNotAllowed
        else
          seq (store (integrity_report (rm_market cmd))) (\<lambda>found.
          case found of
            Some report \<Rightarrow> if ir_verdict report = Pass then ret () else fail UnderReview
          | None \<Rightarrow> fail UnderReview)
      else if rm_curator_override cmd \<noteq> None then fail CuratorOverrideNotAllowed
      else ret ())"

definition advance_state :: "MarketState \<Rightarrow> MarketEvent \<Rightarrow> market_id \<Rightarrow> MarketState app" where
  "advance_state from event m =
     seq (lift (map_err (\<lambda>_. IllegalTransition) (transition from event))) (\<lambda>to.
     seq (store (buffer_market_state m to)) (\<lambda>_. ret to))"

definition enter_resolving :: "ResolveMarketCmd \<Rightarrow> MarketRow \<Rightarrow> MarketState app" where
  "enter_resolving cmd market =
     (if mk_state market = Resolving then ret Resolving
      else advance_state (mk_state market) StartIntegritySweep (rm_market cmd))"

definition market_advanced_event :: "(time \<Rightarrow> Value) \<Rightarrow> market_id \<Rightarrow> time \<Rightarrow> Event" where
  "market_advanced_event time_json m due_at =
     \<lparr>event_type = ''MarketAdvanced'', aggregate_type = ''market'', aggregate_id = m,
      payload = Object
        [(lit ''event'', Str (lit ''StartIntegritySweep'')),
         (lit ''from'', Str (lit ''Closed'')),
         (lit ''integrity_due_at'', time_json due_at),
         (lit ''to'', Str (lit ''Resolving''))]\<rparr>"

definition hold_for_review :: "ResolveMarket \<Rightarrow> ResolveMarketCmd \<Rightarrow> MarketRow \<Rightarrow> MarketState \<Rightarrow> ResolveReceipt app" where
  "hold_for_review self cmd market resolving =
     seq (lift (ok_or (checked fits_i64 (rs_sweep_delay_secs self)) AppOverflow)) (\<lambda>delay.
     seq clock_now (\<lambda>now.
     let due_at = now + seconds delay in
     seq (store (set_integrity_due_at (rm_market cmd) (Some due_at))) (\<lambda>_.
     seq (asks uuid_string) (\<lambda>show_uuid.
     seq (store (record_lifecycle_command (lit ''sweep:'' @ show_uuid (rm_market cmd))
        \<lparr>lc_market = rm_market cmd, lc_event = StartIntegritySweep, lc_resulting_state = resolving\<rparr>)) (\<lambda>_.
     seq (store (append_event (market_advanced_event (rs_time_json self) (rm_market cmd) due_at))) (\<lambda>_.
     seq (audit_resolution self (rm_market cmd) (mk_state market)
        (Object [(lit ''integrity_due_at'', rs_time_json self due_at), (lit ''outcome'', Str (lit ''held_for_review''))])) (\<lambda>_.
     seq (store commit) (\<lambda>_.
     ret \<lparr>rr_market = rm_market cmd, rr_outcome = HeldForReview due_at, rr_final_yes_bps = None,
         rr_ledger_txn = None, rr_replayed = False\<rparr>))))))))"

definition choose_result :: "ResolveMarket \<Rightarrow> ResolveMarketCmd \<Rightarrow> MarketRow \<Rightarrow> Tally \<Rightarrow> micro_usd \<Rightarrow> (AppError, bool \<times> u16) outcome" where
  "choose_result self cmd market votes interest =
     (case rm_curator_override cmd of
        Some ResolveAtTally \<Rightarrow>
          and_then (actual_yes_bps votes) (\<lambda>found.
          and_then (ok_or found NeedsCuratorDecision) (\<lambda>bps. Ok (False, bps)))
      | Some VoidMarket \<Rightarrow> Ok (True, 5000)
      | None \<Rightarrow> decide votes (min_votes_to_resolve market) interest (rs_oi_floor self))"

text \<open>The payout: settle the holdings read against the escrow and book every non-zero leg.\<close>

definition pay_out :: "ResolveMarketCmd \<Rightarrow> u16 \<Rightarrow> micro_usd \<Rightarrow> Holding list \<Rightarrow> (Settlement \<times> uuid) app" where
  "pay_out cmd final_bps escrow hs =
     seq (lift (map_err AppResolution (settle_market (map (\<lambda>h. (hd_account h, hd_side h, hd_shares h)) hs) final_bps escrow))) (\<lambda>settlement.
     seq (store (account (MarketEscrow (rm_market cmd)) Usdc)) (\<lambda>escrow_acct.
     seq (store (account FeesOwner Usdc)) (\<lambda>fees_acct.
     seq (lift (settlement_entries escrow_acct fees_acct settlement)) (\<lambda>es.
     seq (asks uuid_string) (\<lambda>show_uuid.
     seq (store (ledger_apply Payout (resolve_key show_uuid (rm_market cmd)) es)) (\<lambda>txn.
     ret (settlement, txn)))))))"

definition payout_users :: "(Holding \<times> account_id \<times> micro_usd) list \<Rightarrow> user_id list" where
  "payout_users rows =
     remdups_adj (sort (List.map_filter (\<lambda>(h, _, payout). case hd_owner h of
         HolderUser u \<Rightarrow> if 0 < payout then Some u else None
       | HolderPool \<Rightarrow> None) rows))"

definition collect_payout :: "market_id \<Rightarrow> user_id \<Rightarrow> unit app" where
  "collect_payout m user =
     seq (asks uuid_string) (\<lambda>show_uuid.
     seq (auto_collect user (lit ''payout:'' @ show_uuid m @ lit '':'' @ show_uuid user) (lit ''machine:resolution'')) (\<lambda>_. ret ()))"

text \<open>A holder's position is closed at its payout; the pool's payouts are summed.\<close>

definition settle_holding ::
  "ResolveMarketCmd \<Rightarrow> bool \<Rightarrow> uuid \<Rightarrow> time \<Rightarrow> micro_usd \<Rightarrow> Holding \<times> account_id \<times> micro_usd \<Rightarrow> micro_usd app" where
  "settle_holding cmd voided txn settled_at pool_payout row =
     (case row of (h, _, payout) \<Rightarrow>
       case hd_owner h of
         HolderPool \<Rightarrow> lift (ok_or (checked fits_i64 (pool_payout + payout)) AppOverflow)
       | HolderUser user \<Rightarrow>
           seq (store (position_for_update user (hd_outcome h))) (\<lambda>found.
           seq (lift (ok_or found (AppStore (Invariant ''settled holding without position'')))) (\<lambda>position.
           seq (lift (ok_or (checked fits_i64 (payout - pos_cost position)) AppOverflow)) (\<lambda>delta.
           seq (lift (ok_or (checked fits_i64 (pos_realized_pnl position + delta)) AppOverflow)) (\<lambda>realized.
           seq (store (save_position (position\<lparr>pos_realized_pnl := realized, pos_shares := 0, pos_cost := 0\<rparr>))) (\<lambda>_.
           seq (store (insert_realization
             \<lparr>rz_user = user, rz_market = rm_market cmd, rz_outcome = hd_outcome h,
              rz_source = (if voided then Void else Settlement), rz_realized_delta = delta, rz_payout = payout,
              rz_ledger_txn = txn, rz_created_at = settled_at\<rparr>)) (\<lambda>_.
           ret pool_payout)))))))"

definition record_results :: "ResolveMarketCmd \<Rightarrow> MarketRow \<Rightarrow> u16 \<Rightarrow> micro_usd \<Rightarrow> time \<Rightarrow> (micro_usd \<times> micro_usd) app" where
  "record_results cmd market final_bps pool_payout settled_at =
     seq (store (pool_seeded_micro (rm_market cmd))) (\<lambda>seeded.
     seq (lift (ok_or (checked fits_i64 (pool_payout - seeded)) AppOverflow)) (\<lambda>lp_pnl.
     seq (store (set_lp_result (rm_market cmd) lp_pnl settled_at)) (\<lambda>_.
     seq (lift (map_err AppResolution (redemptions final_bps))) (\<lambda>(yes_redemption, no_redemption).
     seq (store (write_outcome_resolution (yes_outcome market) final_bps yes_redemption)) (\<lambda>_.
     seq (lift (arith fits_u16 (10000 - final_bps))) (\<lambda>no_bps.
     seq (store (write_outcome_resolution (no_outcome market) no_bps no_redemption)) (\<lambda>_.
     ret (yes_redemption, no_redemption))))))))"

section \<open>Scores and reputation\<close>

definition score_facts :: "u16 \<Rightarrow> VoteFact list \<Rightarrow> (AppError, (uuid \<times> VoteScore) list) outcome" where
  "score_facts final_bps facts =
     try_map (\<lambda>f. and_then (map_err AppScoring (score_vote (vf_side f) (word_of_int (vf_crowd_guess_pct f)) (word_of_int final_bps)))
       (\<lambda>score. Ok (vf_vote_id f, score))) facts"

definition rep_updated_event :: "(uuid \<Rightarrow> ustring) \<Rightarrow> market_id \<Rightarrow> ReputationRow \<Rightarrow> i64 \<Rightarrow> u8 \<Rightarrow> Event" where
  "rep_updated_event show_uuid m row micro tier =
     \<lparr>event_type = ''RepUpdated'', aggregate_type = ''user'', aggregate_id = rep_user row,
      payload = Object
        [(lit ''market_id'', Str (show_uuid m)),
         (lit ''previous_tier'', Num (rep_tier row)),
         (lit ''rep_micro'', Num micro),
         (lit ''tier'', Num tier),
         (lit ''user_id'', Str (show_uuid (rep_user row)))]\<rparr>"

definition update_reputation ::
  "(uuid \<Rightarrow> ustring) \<Rightarrow> market_id \<Rightarrow> RepConfig \<Rightarrow> (user_id \<times> VoteScore) list \<Rightarrow> ReputationRow \<Rightarrow>
     (StoreError, ReputationRow \<times> Event list) outcome" where
  "update_reputation show_uuid m rep_config by_user row =
     and_then (ok_or (map_of by_user (rep_user row)) (Invariant ''voter score missing'')) (\<lambda>score.
     and_then (map_err (\<lambda>_. Invariant ''invalid reputation operand'')
       (update_rep (rep_micro row) (uint (score_bp score) * 100) (half_life rep_config))) (\<lambda>micro.
     let tier = tier_for micro (tier_thresholds_micro rep_config) in
     Ok (row\<lparr>rep_micro := micro, rep_tier := tier\<rparr>,
         if tier \<noteq> rep_tier row then [rep_updated_event show_uuid m row micro tier] else [])))"

text \<open>The scores are collected into a map, in which the last entry of a user wins.\<close>

definition score_market ::
  "ResolveMarket \<Rightarrow> ResolveMarketCmd \<Rightarrow> MarketRow \<Rightarrow> Tally \<Rightarrow> u16 \<Rightarrow> micro_usd \<Rightarrow> ReputationRow list \<Rightarrow> Event list app" where
  "score_market self cmd market votes final_bps escrow locked_reps =
     seq (store (vote_facts (rm_market cmd))) (\<lambda>facts.
     seq (lift (score_facts final_bps facts)) (\<lambda>scores.
     seq (store (save_vote_scores scores)) (\<lambda>_.
     seq (lift (tally_total votes)) (\<lambda>n.
     if min_votes_to_resolve market \<le> n \<and> rep_score_min_pot_micro (rs_rep_config self) \<le> escrow then
       seq (asks uuid_string) (\<lambda>show_uuid.
       seq (store (lift (try_map (update_reputation show_uuid (rm_market cmd) (rs_rep_config self)
          (rev (zip (map vf_user facts) (map snd scores)))) locked_reps))) (\<lambda>updated.
       seq (store (save_reps (map fst updated))) (\<lambda>_.
       ret (concat (map snd updated)))))
     else ret []))))"

definition close_market :: "ResolveMarket \<Rightarrow> ResolveMarketCmd \<Rightarrow> bool \<Rightarrow> MarketState \<Rightarrow> ResolveOutcome app" where
  "close_market self cmd voided resolving =
     (if voided then
        seq (advance_state resolving
          (if rm_curator_override cmd = Some VoidMarket then VoidByAdmin else VoidLowParticipation) (rm_market cmd)) (\<lambda>_.
        ret VoidedOutcome)
      else
        seq (advance_state resolving Resolve (rm_market cmd)) (\<lambda>resolved.
        seq (advance_state resolved Pay (rm_market cmd)) (\<lambda>_.
        seq (store (move_market_fee_allocations (rm_market cmd) Finalized)) (\<lambda>_.
        seq (store (grant_referrals_on_paid (rs_order_t self) (rm_market cmd))) (\<lambda>_.
        ret Settled)))))"

definition market_settled_event :: "(uuid \<Rightarrow> ustring) \<Rightarrow> market_id \<Rightarrow> bool \<Rightarrow> u16 \<Rightarrow> uuid \<Rightarrow> micro_usd \<times> micro_usd \<Rightarrow> Event" where
  "market_settled_event show_uuid m voided final_bps txn reds =
     \<lparr>event_type = (if voided then ''MarketVoided'' else ''MarketResolved''), aggregate_type = ''market'', aggregate_id = m,
      payload = Object
        [(lit ''final_vote_bps'', Num final_bps),
         (lit ''ledger_txn'', Str (show_uuid txn)),
         (lit ''redemption_no_micro'', Num (snd reds)),
         (lit ''redemption_yes_micro'', Num (fst reds)),
         (lit ''voided'', Bool voided)]\<rparr>"

section \<open>Resolving a market\<close>

definition settle_now ::
  "ResolveMarket \<Rightarrow> ResolveMarketCmd \<Rightarrow> MarketRow \<Rightarrow> MarketState \<Rightarrow> micro_usd \<Rightarrow> ReputationRow list \<Rightarrow> ResolveReceipt app" where
  "settle_now self cmd market resolving escrow locked_reps =
     seq (store (tally (rm_market cmd))) (\<lambda>votes.
     seq (store (open_interest (rm_market cmd))) (\<lambda>interest.
     seq (lift (choose_result self cmd market votes interest)) (\<lambda>(voided, final_bps).
     seq (store (holdings (rm_market cmd))) (\<lambda>hs.
     seq (pay_out cmd final_bps escrow hs) (\<lambda>(settlement, txn).
     seq (store (lift (rs_crash_point self))) (\<lambda>_.
     let rows = zip hs (payouts settlement) in
     seq (for_each (collect_payout (rm_market cmd)) (payout_users rows)) (\<lambda>_.
     seq (store (set_collateral_at_close (rm_market cmd) escrow)) (\<lambda>_.
     seq clock_now (\<lambda>settled_at.
     seq (for_fold (settle_holding cmd voided txn settled_at) rows 0) (\<lambda>pool_payout.
     seq (record_results cmd market final_bps pool_payout settled_at) (\<lambda>reds.
     seq (if voided then ret [] else score_market self cmd market votes final_bps escrow locked_reps) (\<lambda>rep_events.
     seq (close_market self cmd voided resolving) (\<lambda>outcome.
     seq (if rm_curator_override cmd \<noteq> None then store (clear_curator_flag (rm_market cmd)) else ret ()) (\<lambda>_.
     seq (asks uuid_string) (\<lambda>show_uuid.
     seq (store (append_batch (rep_events @ [market_settled_event show_uuid (rm_market cmd) voided final_bps txn reds]))) (\<lambda>_.
     seq (audit_resolution self (rm_market cmd) (mk_state market)
       (Object [(lit ''final_yes_bps'', Num final_bps), (lit ''voided'', Bool voided)])) (\<lambda>_.
     seq (store commit) (\<lambda>_.
     ret \<lparr>rr_market = rm_market cmd, rr_outcome = outcome, rr_final_yes_bps = Some final_bps,
         rr_ledger_txn = Some txn, rr_replayed = False\<rparr>))))))))))))))))))"

text \<open>
  One attempt. The participants are enumerated before and after the locks are taken, and the attempt is
  given up (\<open>None\<close>) when somebody has joined in between. Both lists are sorted without duplicates, so the
  code's binary searches are membership tests.
\<close>

definition resolve_attempt :: "ResolveMarket \<Rightarrow> ResolveMarketCmd \<Rightarrow> ResolveReceipt option app" where
  "resolve_attempt self cmd =
     seq open_tx (\<lambda>_.
     seq (asks uuid_string) (\<lambda>show_uuid.
     seq (store (txn_by_key (resolve_key show_uuid (rm_market cmd)))) (\<lambda>found.
     case found of
       Some txn \<Rightarrow> seq (replay_receipt (rm_market cmd) txn) (\<lambda>receipt. ret (Some receipt))
     | None \<Rightarrow>
         seq (store (resolution_participants (rm_market cmd))) (\<lambda>prelock.
         seq (store (reps_for_update (all_parties prelock))) (\<lambda>reps.
         seq (store (market_for_update (rm_market cmd))) (\<lambda>market.
         seq (store (resolution_participants (rm_market cmd))) (\<lambda>postlock.
         if list_ex (\<lambda>u. u \<notin> set (all_parties prelock)) (all_parties postlock) then ret None
         else
           let locked_reps = filter (\<lambda>row. rep_user row \<in> set (voters postlock)) reps in
           seq (check_reviewed cmd market) (\<lambda>_.
           seq (enter_resolving cmd market) (\<lambda>resolving.
           seq (store (escrow_balance (rm_market cmd))) (\<lambda>escrow.
           seq (if mk_state market = Closed \<and> rs_payout_hold_threshold_micro self \<le> escrow
                then hold_for_review self cmd market resolving
                else settle_now self cmd market resolving escrow locked_reps) (\<lambda>receipt.
           ret (Some receipt))))))))))))"

definition RESOLUTION_PARTICIPANT_LOCK_ATTEMPTS :: nat where
  "RESOLUTION_PARTICIPANT_LOCK_ATTEMPTS = 4"

fun resolve_attempts :: "nat \<Rightarrow> ResolveMarket \<Rightarrow> ResolveMarketCmd \<Rightarrow> ResolveReceipt app" where
  "resolve_attempts 0 self cmd = fail (AppStore (Invariant ''resolution participant set did not stabilize''))"
| "resolve_attempts (Suc n) self cmd =
     seq (resolve_attempt self cmd) (\<lambda>found.
     case found of Some receipt \<Rightarrow> ret receipt | None \<Rightarrow> resolve_attempts n self cmd)"

definition resolve_market :: "ResolveMarket \<Rightarrow> ResolveMarketCmd \<Rightarrow> ResolveReceipt app" where
  "resolve_market = resolve_attempts RESOLUTION_PARTICIPANT_LOCK_ATTEMPTS"

section \<open>All or nothing\<close>

lemma quiet_settlement_reads [quiet_intros]:
  "framed quiet (holdings m)" "framed quiet (escrow_balance m)" "framed quiet (vote_facts m)" "framed quiet (voter_ids m)"
  "framed quiet (reps_for_update us)" "framed quiet (open_interest m)" "framed quiet (integrity_report m)"
  "framed quiet (known_market m)" "framed quiet (pool_seeded_micro m)" "framed quiet (lifecycle_command k)"
  unfolding holdings_def escrow_balance_def vote_facts_def voter_ids_def reps_for_update_def open_interest_def
    integrity_report_def known_market_def pool_seeded_micro_def lifecycle_command_def
  by (intro quiet_intros quiet.framed_rules)+

lemma quiet_settlement_writes [quiet_intros]:
  "framed quiet (write_outcome_resolution o' b r)" "framed quiet (save_vote_scores vs)" "framed quiet (save_reps rs)"
  "framed quiet (flag_curator_needed m)" "framed quiet (clear_curator_flag m)" "framed quiet (set_integrity_due_at m due)"
  "framed quiet (set_lp_result m x t)" "framed quiet (set_collateral_at_close m x)"
  "framed quiet (record_lifecycle_command k c)" "framed quiet (append_batch es)" "framed quiet (audit_insert a)"
  unfolding write_outcome_resolution_def save_vote_scores_def save_reps_def flag_curator_needed_def clear_curator_flag_def
    set_integrity_due_at_def set_lp_result_def set_collateral_at_close_def record_lifecycle_command_def append_batch_def
    audit_insert_def
  by (intro quiet_intros quiet.framed_rules)+

lemma quiet_referral_hooks [quiet_intros]:
  "framed quiet (referral_relevant_users m)" "framed quiet (grant_referrals_on_paid ot m)"
  unfolding referral_relevant_users_def referral_parties_of_def grant_referrals_on_paid_def
  by (intro quiet_intros quiet.framed_rules)+

lemma quiet_participants [quiet_intros]: "framed quiet (resolution_participants m)"
  unfolding resolution_participants_def by (intro quiet_intros quiet.framed_rules)

lemma quiet_replay_receipt [quiet_intros]: "framed quiet (replay_receipt m txn)"
  unfolding replay_receipt_def by (auto intro!: quiet_intros quiet.framed_rules split: MarketState.split)

lemma quiet_audit [quiet_intros]: "framed quiet (audit_resolution self m st v)"
  unfolding audit_resolution_def by (cases "rs_actor self") (auto intro!: quiet_intros quiet.framed_rules)

lemma quiet_stages [quiet_intros]:
  "framed quiet (check_reviewed cmd market)" "framed quiet (advance_state from ev m)" "framed quiet (enter_resolving cmd market)"
  "framed quiet (pay_out cmd bps escrow hs)" "framed quiet (collect_payout m u)" "framed quiet (record_results cmd market bps x t)"
  "framed quiet (score_market self cmd market votes bps escrow reps)"
  unfolding check_reviewed_def enter_resolving_def advance_state_def pay_out_def collect_payout_def record_results_def
    score_market_def
  by (intro quiet_intros quiet.framed_rules)+

lemma quiet_settle_holding [quiet_intros]: "framed quiet (settle_holding cmd v txn t x row)"
  unfolding settle_holding_def
  by (cases row) (auto intro!: quiet_intros quiet.framed_rules split: HoldingOwner.split)

lemma quiet_close_market [quiet_intros]: "framed quiet (close_market self cmd v r)"
  unfolding close_market_def by (intro quiet_intros quiet.framed_rules)

lemma atomic_hold_for_review: "atomic quiet (hold_for_review self cmd market r)"
  unfolding hold_for_review_def
  by (intro quiet.atomic_finish quiet.atomic_rules quiet_intros quiet.framed_rules atomic_store_commit)

lemma atomic_settle_now: "atomic quiet (settle_now self cmd market r escrow reps)"
  unfolding settle_now_def
  by (intro quiet.atomic_finish quiet.atomic_rules quiet_intros quiet.framed_rules atomic_store_commit)

lemma atomic_resolve_attempt: "atomic quiet (resolve_attempt self cmd)"
  unfolding resolve_attempt_def
  by (intro quiet.atomic_finish quiet.atomic_rules atomic_hold_for_review atomic_settle_now quiet_intros
      quiet.framed_rules quiet.atomic_framed[OF quiet_replay_receipt])

text \<open>Enumerating the participants reads only.\<close>

lemma unchanged_participants: "framed (=) (resolution_participants m)"
  unfolding resolution_participants_def voter_ids_def referral_relevant_users_def referral_parties_of_def holdings_def
    referral_referees_for_paid_market_def referral_bind_for_referee_def referral_bind_parties_def
  by (intro unchanged.framed_rules)

lemma participants_iff:
  "resolution_participants m w = (r, w') \<longleftrightarrow> fst (resolution_participants m w) = r \<and> w' = w"
  using unchanged_participants[of m] by (auto simp: framed_def prod_eq_iff)

lemma attempt_never_given_up: "resolve_attempt self cmd w \<noteq> (Ok None, w')"
  by (auto simp: resolve_attempt_def run_simps participants_iff open_tx_def txn_by_key_def reps_for_update_def
      market_for_update_def list_ex_iff Let_def split: option.splits if_splits)

lemma resolve_market_eq:
  "resolve_market self cmd = seq (resolve_attempt self cmd) (\<lambda>found. lift (ok_or found (AppStore (Invariant ''resolution participant set did not stabilize''))))"
proof
  fix w
  show "resolve_market self cmd w = seq (resolve_attempt self cmd) (\<lambda>found. lift (ok_or found (AppStore (Invariant ''resolution participant set did not stabilize'')))) w"
    using attempt_never_given_up[of self cmd w]
    by (auto simp: resolve_market_def RESOLUTION_PARTICIPANT_LOCK_ATTEMPTS_def eval_nat_numeral seq_def ret_def lift_def
        split: prod.split outcome.split option.split)
qed

lemma atomic_resolve_market: "atomic quiet (resolve_market self cmd)"
  unfolding atomic_def
proof (intro allI impI)
  fix w
  assume no: "\<forall>y. fst (resolve_market self cmd w) \<noteq> Ok y"
  obtain r w' where r: "resolve_attempt self cmd w = (r, w')" by force
  have "r \<noteq> Ok y" for y
    using no r attempt_never_given_up[of self cmd w w'] by (cases y) (auto simp: resolve_market_eq seq_def lift_def)
  then have "quiet w w'" using atomicD[OF atomic_resolve_attempt r] by blast
  with r \<open>\<And>y. r \<noteq> Ok y\<close> show "quiet w (snd (resolve_market self cmd w))"
    by (cases r) (auto simp: resolve_market_eq seq_def)
qed

text \<open>
  C9. Resolving a market, granting credit, issuing and binding referral codes and granting a referral are each
  all or nothing: for every store, clock and request, when the call errs or panics, at whatever stage, no
  committed row of any table has changed, except that accounts may have been opened with a zero balance
  (\<open>quiet\<close>). In particular a payout is never left half written.
\<close>

theorem money_use_cases_atomic:
  "atomic quiet (resolve_market self rcmd) \<and> atomic quiet (grant_credit gcmd) \<and>
   atomic quiet (issue_referral_code simple icmd) \<and> atomic quiet (bind_referral bcmd) \<and>
   atomic quiet (bind_referral_code ccmd) \<and> atomic quiet (grant_referral order_t fcmd)"
  by (intro conjI atomic_resolve_market atomic_grant_credit atomic_issue_referral_code atomic_bind_referral
      atomic_bind_referral_code atomic_grant_referral)

end
