(* ===== verification/Placement.thy ===== *)
theory Placement
  imports Trading
begin

text \<open>
  What placing a trade guarantees (\<open>place_trade\<close> of \<open>Trading.thy\<close>): it is all or nothing and happens at most
  once per key, every gate holds on a trade that returns, and a preview quotes the numbers the trade books.
\<close>

section \<open>An example\<close>

definition demo_market :: MarketRow where
  "demo_market =
     \<lparr>mk_id = 5, slug = lit ''m'', question = lit ''q'', mk_state = Live, min_votes_to_resolve = 3, opens_at = 0,
      closes_at = 200, tally_hidden_at = 100, yes_outcome = 50, no_outcome = 51, curator_flagged_at = None,
      integrity_due_at = None, poster_asset_url = None, video_asset_url = None\<rparr>"

definition demo_rep :: RepConfig where
  "demo_rep = \<lparr>half_life = H20, tier_thresholds_micro = [0, 1, 2, 3, 4],
     position_cap_micro_by_tier = [500, 500, 500, 500, 500], fee_discount_bp_by_tier = [0, 0, 0, 0, 0],
     rep_min_fee_bps = 10, rep_score_min_pot_micro = 0, discount_flip_window_secs = 60, leaderboard_min_scored = 1\<rparr>"

text \<open>A live market with a pool of 1000 complete sets; user 1 has voted and holds 400 in cash.\<close>

definition trade_world :: world where
  "trade_world =
     demo_world (State_default
       \<lparr>s_balances := \<lparr>accounts = [(9, External, Usdc, - 1400), (10, User, Usdc, 400), (11, Escrow, Usdc, 1000)]\<rparr>,
        s_accounts := [((UserOwner 1, Usdc), 10), ((MarketEscrow 5, Usdc), 11)],
        s_markets := [(5, demo_market)], s_pools := [(5, \<lparr>pool_yes = 1000, pool_no = 1000, pool_fee = 100\<rparr>)],
        s_votes := [(1, 5)], s_users := [(1, lit ''u'')], s_reputation := [(1, (0, 0))]\<rparr>) (demo_ops []) 40 0"

definition demo_buy :: PlaceTradeCmd where
  "demo_buy = \<lparr>tc_market = 5, tc_user = 1, tc_side = Yes, tc_action = Buy, tc_amount_micro = 100,
     tc_idempotency_key = lit ''k'', tc_run_id = None, tc_pending_action_id = None, tc_expected_config_version = Some 1\<rparr>"


abbreviation demo_place :: "PlaceTradeCmd \<Rightarrow> world \<Rightarrow> (AppError, TradeReceipt) outcome \<times> world" where
  "demo_place \<equiv> place_trade (\<lambda>_. Null) demo_rep"

definition demo_receipt :: TradeReceipt where
  "demo_receipt = \<lparr>rc_trade_id = 42, rc_ledger_txn = 41, rc_side = Yes, rc_action = Buy, rc_shares = 189, rc_gross = 100,
     rc_fee = 1, rc_avg_price_micro = 529100, replayed = False\<rparr>"

lemma demo_run:
  "map_prod (\<lambda>r. r) (\<lambda>w. s_accounts (committed w)) (demo_place demo_buy trade_world) =
     (Ok demo_receipt, [((UserOwner 1, Usdc), 10), ((MarketEscrow 5, Usdc), 11), ((FeesOwner, Usdc), 40)])"
  by code_simp

lemma demo_buy_run: "fst (demo_place demo_buy trade_world) = Ok demo_receipt"
  using demo_run by (metis fst_conv fst_map_prod)

lemma demo_accounts:
  "s_accounts (committed (snd (demo_place demo_buy trade_world))) =
     [((UserOwner 1, Usdc), 10), ((MarketEscrow 5, Usdc), 11), ((FeesOwner, Usdc), 40)]"
  using demo_run by (metis snd_conv snd_map_prod)

lemma demo_buy_Ok: "demo_place demo_buy trade_world = (Ok demo_receipt, snd (demo_place demo_buy trade_world))"
  using demo_buy_run by (metis prod.collapse)

lemma demo_receipt_fresh: "\<not> replayed demo_receipt" "receipt_numbers demo_receipt = (189, 100, 1, 529100)"
  by (simp_all add: demo_receipt_def)

lemma trade_world_uuid_text: "uuid_text (uuid_string trade_world)"
  by (simp add: trade_world_def demo_world_def demo_uuid_text)

section \<open>Properties\<close>


text \<open>
  C6. A trade happens at most once. After a trade has returned a receipt, repeating the request, at any time
  and with any process settings, returns the same receipt marked as replayed and writes nothing. Using the key
  of a trade that has been placed for a request that differs in market, user, side, action, amount or
  previewed version is refused as an idempotency conflict and writes nothing.
\<close>

theorem place_trade_idempotent:
  assumes "place_trade tj rc cmd w = (Ok receipt, w1)" and "\<not> replayed receipt" and "uuid_text (uuid_string w)"
    and "tc_idempotency_key cmd' = tc_idempotency_key cmd" and "tc_expected_config_version cmd' = Some n"
    and "request_of cmd' \<noteq> request_of cmd"
  shows "place_trade tj' rc' cmd (w1\<lparr>clock := c\<rparr>) = (Ok (receipt\<lparr>replayed := True\<rparr>), started (w1\<lparr>clock := c\<rparr>)) \<and>
    place_trade tj' rc' cmd' (w1\<lparr>clock := c\<rparr>) = (Err IdempotencyConflict, started (w1\<lparr>clock := c\<rparr>))"
  using replay_after[OF assms(1)] conflict_after[OF assms] by blast

theorem place_trade_idempotent_witness:
  "place_trade (\<lambda>_. Null) demo_rep demo_buy ((snd (demo_place demo_buy trade_world))\<lparr>clock := \<lambda>_. 9\<rparr>) =
     (Ok (demo_receipt\<lparr>replayed := True\<rparr>), started ((snd (demo_place demo_buy trade_world))\<lparr>clock := \<lambda>_. 9\<rparr>)) \<and>
   place_trade (\<lambda>_. Null) demo_rep (demo_buy\<lparr>tc_amount_micro := 7\<rparr>)
       ((snd (demo_place demo_buy trade_world))\<lparr>clock := \<lambda>_. 9\<rparr>) =
     (Err IdempotencyConflict, started ((snd (demo_place demo_buy trade_world))\<lparr>clock := \<lambda>_. 9\<rparr>))"
  by (rule place_trade_idempotent[OF demo_buy_Ok demo_receipt_fresh(1) trade_world_uuid_text, where n = 1])
     (simp_all add: demo_buy_def request_of_def)



text \<open>
  C13. A preview quotes the numbers the trade books. Let a preview return in one store and the trade it stands
  for be placed in another, where the market, its pool, the user's tier and last buy and the fee override are
  those the preview read, and the flip window has not been left in between. Then shares, gross, fee and average
  price of the receipt are those of the preview, to the unit.
\<close>

theorem preview_is_price:
  assumes "preview_trade src rc pcmd wp = (Ok preview, wp')" and "parse_uuid src (pv_market_ref pcmd) = Some (tc_market cmd)"
    and "previews pcmd cmd" and "same_inputs src rc cmd wp w"
    and "place_trade tj rc cmd w = (Ok receipt, w')" and "\<not> replayed receipt"
  shows "receipt_numbers receipt = preview_numbers preview"
  using assms(5)
proof (cases rule: place_trade_cases)
  case (fresh terms legs es row wa wc)
  note f = fresh_trade_numbers[OF fresh(2)]
  show ?thesis using preview_agrees[OF assms(1-4) f(3,1)] f(2) fresh(3) by simp
qed (use assms(6) in simp)

definition demo_source :: PreviewSource where
  "demo_source = \<lparr>parse_uuid = (\<lambda>_. Some 5), market_order = (\<lambda>xs. xs), current_generation = Ok 1, snapshot_value = (\<lambda>_. Ok None)\<rparr>"

definition demo_preview_cmd :: PreviewTradeCmd where
  "demo_preview_cmd = \<lparr>pv_market_ref = [], pv_user_id = 1, pv_side = Yes, pv_action = Buy, pv_amount_micro = 100\<rparr>"

definition demo_preview :: TradePreview where
  "demo_preview = \<lparr>tp_market = 5, tp_side = Yes, tp_action = Buy, tp_shares = 189, tp_gross = 100, tp_fee = 1,
     tp_avg_price_micro = 529100, tp_config_version = 1\<rparr>"

lemma demo_preview_run: "fst (preview_trade demo_source demo_rep demo_preview_cmd trade_world) = Ok demo_preview"
  by code_simp

lemma demo_same_inputs: "same_inputs demo_source demo_rep demo_buy trade_world trade_world"
  by (simp add: same_inputs_def demo_source_def demo_buy_def trade_world_def demo_world_def demo_ops_def demo_market_def
      State_default_def)

theorem preview_is_price_witness:
  "fst (preview_trade demo_source demo_rep demo_preview_cmd trade_world) = Ok demo_preview \<and>
   fst (demo_place demo_buy trade_world) = Ok demo_receipt \<and>
   receipt_numbers demo_receipt = preview_numbers demo_preview"
proof -
  have p: "preview_trade demo_source demo_rep demo_preview_cmd trade_world =
      (Ok demo_preview, snd (preview_trade demo_source demo_rep demo_preview_cmd trade_world))"
    using demo_preview_run by (metis prod.collapse)
  have "parse_uuid demo_source (pv_market_ref demo_preview_cmd) = Some (tc_market demo_buy)" "previews demo_preview_cmd demo_buy"
    by (simp_all add: demo_source_def demo_buy_def demo_preview_cmd_def previews_def)
  from preview_is_price[OF p this demo_same_inputs demo_buy_Ok demo_receipt_fresh(1)]
  show ?thesis using demo_preview_run demo_buy_run by simp
qed

end
