(* ===== verification/Backing.thy ===== *)
theory Backing
  imports Placement
begin

text \<open>
  The accounting invariant of trading: for every market, the escrow account of the ledger holds exactly the
  complete sets that the pool and the users hold between them (\<open>backed\<close>). Every request, whatever it
  returns, keeps it, together with the invariants of the tables it rests on (\<open>venue_ok\<close>).
\<close>

section \<open>Backing\<close>

text \<open>
  Every outstanding share of a market, in the pool or with a user, is one half of a complete set for which the
  market's escrow account holds one unit.
\<close>

definition held_shares :: "State \<Rightarrow> outcome_id \<Rightarrow> int" where
  "held_shares s o' = sum_list (map (\<lambda>(_, p). if pos_outcome p = o' then pos_shares p else 0) (s_positions s))"

definition escrow_of :: "State \<Rightarrow> market_id \<Rightarrow> int option" where
  "escrow_of s m = Option.bind (map_of (s_accounts s) (MarketEscrow m, Usdc)) (balance (s_balances s))"

definition backed :: "State \<Rightarrow> market_id \<Rightarrow> bool" where
  "backed s m \<longleftrightarrow>
     (\<exists>market pool b. map_of (s_markets s) m = Some market \<and> map_of (s_pools s) m = Some pool \<and> wf_pool pool \<and>
        escrow_of s m = Some b \<and>
        pool_yes pool + held_shares s (yes_outcome market) = b \<and> pool_no pool + held_shares s (no_outcome market) = b)"

text \<open>The tables have one row per key, positions are filed under their owner, outcomes belong to one side of one market.\<close>

definition positions_ok :: "State \<Rightarrow> bool" where
  "positions_ok s \<longleftrightarrow> distinct (map fst (s_positions s)) \<and>
     (\<forall>k p. (k, p) \<in> set (s_positions s) \<longrightarrow> k = (pos_user p, pos_outcome p) \<and> 0 \<le> pos_shares p \<and> fits_i64 (pos_shares p))"

definition outcomes_ok :: "State \<Rightarrow> bool" where
  "outcomes_ok s \<longleftrightarrow>
     (\<forall>m m' r r' sd sd'. map_of (s_markets s) m = Some r \<and> map_of (s_markets s) m' = Some r' \<and>
        outcome_of r sd = outcome_of r' sd' \<longrightarrow> m = m' \<and> sd = sd')"

definition accounts_apart :: "State \<Rightarrow> bool" where
  "accounts_apart s \<longleftrightarrow>
     (\<forall>k k' a. map_of (s_accounts s) k = Some a \<and> map_of (s_accounts s) k' = Some a \<longrightarrow> k = k')"

lemma held_update:
  assumes "positions_ok s"
  shows "sum_list (map (\<lambda>(_, p). if pos_outcome p = o' then pos_shares p else 0)
      (AList.update (pos_user r, pos_outcome r) r (s_positions s))) =
    held_shares s o' + (if pos_outcome r = o'
      then pos_shares r - (case map_of (s_positions s) (pos_user r, pos_outcome r) of None \<Rightarrow> 0 | Some p \<Rightarrow> pos_shares p) else 0)"
proof -
  have *: "sum_list (map (\<lambda>(_, p). if pos_outcome p = o' then pos_shares p else 0)
      (AList.update (pos_user r, pos_outcome r) r ps)) =
    sum_list (map (\<lambda>(_, p). if pos_outcome p = o' then pos_shares p else 0) ps) + (if pos_outcome r = o'
      then pos_shares r - (case map_of ps (pos_user r, pos_outcome r) of None \<Rightarrow> 0 | Some p \<Rightarrow> pos_shares p) else 0)"
    if "distinct (map fst ps)" "\<forall>k p. (k, p) \<in> set ps \<longrightarrow> k = (pos_user p, pos_outcome p)" for ps
    using that
  proof (induction ps)
    case (Cons x ps)
    obtain k p where x: "x = (k, p)" by (cases x)
    have k: "k = (pos_user p, pos_outcome p)" using Cons.prems(2) x by (metis list.set_intros(1))
    have ps: "distinct (map fst ps)" "\<forall>k p. (k, p) \<in> set ps \<longrightarrow> k = (pos_user p, pos_outcome p)" using Cons.prems by auto
    show ?case
    proof (cases "k = (pos_user r, pos_outcome r)")
      case True
      then have "pos_outcome p = pos_outcome r" using k by simp
      then show ?thesis using True x by simp
    next
      case False
      then show ?thesis using Cons.IH[OF ps] x by auto
    qed
  qed simp
  show ?thesis using *[of "s_positions s"] assms unfolding held_shares_def positions_ok_def by blast
qed

lemma update_set: "x \<in> set (AList.update k v m) \<Longrightarrow> x = (k, v) \<or> x \<in> set m"
  by (induction m) (auto split: if_splits)

lemma positions_ok_update:
  assumes "positions_ok s" "s_positions s' = AList.update (pos_user r, pos_outcome r) r (s_positions s)"
    "0 \<le> pos_shares r" "fits_i64 (pos_shares r)"
  shows "positions_ok s'"
  using assms update_set[of _ "(pos_user r, pos_outcome r)" r "s_positions s"]
  by (fastforce simp: positions_ok_def distinct_update)

lemma fee_for_fits:
  assumes "wf_pool pool" "fits_u16 (rep_min_fee_bps rc)" "list_all fits_u16 (fee_discount_bp_by_tier rc)"
    "length (fee_discount_bp_by_tier rc) = 5" "FeeBpsOverride_parse x = Ok override" "0 \<le> tier"
  shows "fits_u16 (fee_for rc tier pool override flip)"
proof -
  have base: "fits_u16 (base_bps_of override (pool_fee pool))"
    using assms(1,5) by (cases override) (auto simp: wf_pool_def FeeBpsOverride_parse_def width_defs split: option.splits if_splits)
  have "fits_u16 (fee_discount_bp_by_tier rc ! nat (min tier 4))"
    using assms(3,4,6) by (auto simp: list_all_length)
  with base assms(2) show ?thesis by (auto simp: fee_for_def effective_fee_def Let_def width_defs)
qed

text \<open>A quote moves as much into escrow as it adds to each side of the market.\<close>

definition backing_step :: "PlaceTradeCmd \<Rightarrow> Pool \<Rightarrow> int \<Rightarrow> QuotedLegs \<Rightarrow> bool" where
  "backing_step cmd pool shares legs \<longleftrightarrow>
     wf_pool (lg_pool_after legs) \<and>
     fst (reserves (lg_pool_after legs) (tc_side cmd)) + pos_shares (lg_position legs) =
       fst (reserves pool (tc_side cmd)) + shares + lg_escrow_delta legs \<and>
     snd (reserves (lg_pool_after legs) (tc_side cmd)) = snd (reserves pool (tc_side cmd)) + lg_escrow_delta legs \<and>
     fits_i64 (lg_user_delta legs) \<and> fits_i64 (lg_escrow_delta legs) \<and> fits_i64 (lg_fee_delta legs) \<and>
     fits_i64 (pos_shares (lg_position legs)) \<and> (0 \<le> shares \<longrightarrow> 0 \<le> pos_shares (lg_position legs))"

lemma buy_legs_backing:
  assumes "buy_legs cmd pool pos fee = Ok legs" "wf_pool pool" "fits_i64 (tc_amount_micro cmd)" "fits_u16 fee"
  shows "backing_step cmd pool (pos_shares pos) legs"
proof -
  let ?x = "tc_amount_micro cmd"
  obtain a b where ab: "reserves pool (tc_side cmd) = (a, b)" by (cases "reserves pool (tc_side cmd)")
  from assms(1) obtain q where q: "quote_buy pool (tc_side cmd) ?x fee = Ok q" "fits_i64 (?x - buy_fee q)" "fits_i64 (- ?x)"
    "fits_i64 (pos_shares (lg_position legs))" "pos_shares (lg_position legs) = pos_shares pos + shares_out q" "lg_pool_after legs = buy_pool_after q"
    "lg_user_delta legs = - ?x" "lg_escrow_delta legs = ?x - buy_fee q" "lg_fee_delta legs = buy_fee q"
    by (auto simp: buy_legs_def Let_def)
  from quote_buy_Ok[OF assms(2-4) q(1) ab] obtain n where n: "n = ?x - buy_fee q" "0 < n" "0 \<le> buy_fee q"
    "shares_out q = a + n - ceil_div (a * b) (b + n)"
    "buy_pool_after q = pool_with (tc_side cmd) (ceil_div (a * b) (b + n)) (b + n) (pool_fee pool)" by blast
  have "0 < a" "0 < b" using wf_pool_reserves[OF assms(2) ab] by simp_all
  then have "ceil_div (a * b) (b + n) \<le> a" using retained[of a b n] n(2) by simp
  then have "0 \<le> shares_out q" using n(2,4) by simp
  moreover have "wf_pool (buy_pool_after q)" using buy.quote_pool[OF assms(2-4) q(1)] by simp
  moreover have "fits_i64 (buy_fee q)" using n assms(3) by (auto simp: width_defs)
  ultimately show ?thesis
    using q n ab by (simp add: backing_step_def)
qed

lemma sell_legs_backing:
  assumes "sell_legs cmd pool pos fee = Ok legs" "wf_pool pool" "fits_i64 (tc_amount_micro cmd)" "fits_u16 fee"
  shows "backing_step cmd pool (pos_shares pos) legs"
proof -
  let ?x = "tc_amount_micro cmd"
  obtain a b where ab: "reserves pool (tc_side cmd) = (a, b)" by (cases "reserves pool (tc_side cmd)")
  from assms(1) obtain q where q: "quote_sell pool (tc_side cmd) ?x fee = Ok q" "fits_i64 (collateral_out q + sell_fee q)"
    "fits_i64 (- (collateral_out q + sell_fee q))"
    "fits_i64 (pos_shares (lg_position legs))" "?x \<le> pos_shares pos"
    "pos_shares (lg_position legs) = pos_shares pos - ?x" "lg_pool_after legs = sell_pool_after q"
    "lg_user_delta legs = collateral_out q" "lg_escrow_delta legs = - (collateral_out q + sell_fee q)"
    "lg_fee_delta legs = sell_fee q"
    by (auto simp: sell_legs_def Let_def arith_def split: if_splits)
  from quote_sell_Ok[OF assms(2,4) q(1) ab] obtain c where c: "c = collateral_out q + sell_fee q" "0 \<le> sell_fee q"
    "0 \<le> collateral_out q" "sell_pool_after q = pool_with (tc_side cmd) (a + ?x - c) (b - c) (pool_fee pool)" by blast
  have "wf_pool (sell_pool_after q)" using sell.quote_pool[OF assms(2-4) q(1)] by simp
  moreover have "fits_i64 (sell_fee q)" "fits_i64 (collateral_out q)" using c q(2) by (auto simp: width_defs)
  ultimately show ?thesis
    using q c ab by (simp add: backing_step_def)
qed

lemma quote_legs_backing:
  assumes "quote_legs cmd pool o' held fee = Ok legs" "wf_pool pool" "fits_i64 (tc_amount_micro cmd)" "fits_u16 fee"
  shows "backing_step cmd pool (case held of None \<Rightarrow> 0 | Some p \<Rightarrow> pos_shares p) legs"
proof -
  define pos where "pos = (case held of Some p \<Rightarrow> p
    | None \<Rightarrow> \<lparr>pos_user = tc_user cmd, pos_outcome = o', pos_shares = 0, pos_cost = 0, pos_realized_pnl = 0\<rparr>)"
  have "pos_shares pos = (case held of None \<Rightarrow> 0 | Some p \<Rightarrow> pos_shares p)" by (simp add: pos_def split: option.split)
  with assms show ?thesis
    using buy_legs_backing[of cmd pool pos fee legs] sell_legs_backing[of cmd pool pos fee legs]
    by (cases "tc_action cmd") (auto simp: quote_legs_def pos_def[symmetric])
qed

lemma quote_legs_position:
  assumes "quote_legs cmd pool o' held fee = Ok legs"
    "\<And>p. held = Some p \<Longrightarrow> pos_user p = tc_user cmd \<and> pos_outcome p = o'"
  shows "pos_user (lg_position legs) = tc_user cmd" "pos_outcome (lg_position legs) = o'"
  using assms
  by (auto simp: quote_legs_def buy_legs_def sell_legs_def Let_def split: TradeAction.splits if_splits option.splits)

lemma try_fold_map_err:
  "try_fold (\<lambda>b t. map_err g (f b t)) ts b = Ok b' \<Longrightarrow> try_fold f ts b = Ok b'"
  by (induction ts arbitrary: b) auto

text \<open>The client view of the ledger, for the orders of the world.\<close>

context hash_ledger
begin

lemma batch_posts:
  assumes "ledger_inv b" "list_all (\<lambda>t. wf_entries (txn_entries t)) ts" "try_fold (apply_txn od oc) ts b = Ok b'"
  shows "ledger_inv b' \<and> balance b' a = map_option (\<lambda>v. v + sum_list (map (\<lambda>t. delta_of (txn_entries t) a) ts)) (balance b a)"
  using book.batch_inv[OF assms] book.batch_bal[OF assms] by blast

end

text \<open>What the ledger transactions of a commit do to the balances.\<close>

lemma commit_txns_balances:
  assumes "try_fold (commit_txn w) ts s = Ok s'" "list_all (\<lambda>t. wf_entries (txn_entries (pt_txn t))) ts"
    "ledger_inv (s_balances s)" "is_order (order_d w)" "is_order (order_c w)"
  shows "ledger_inv (s_balances s') \<and>
    balance (s_balances s') a = map_option (\<lambda>v. v + sum_list (map (\<lambda>t. delta_of (txn_entries (pt_txn t)) a) ts)) (balance (s_balances s) a)"
proof -
  have "try_fold (apply_txn (order_d w) (order_c w)) (map pt_txn ts) (s_balances s) = Ok (s_balances s')"
    using commit_txns_Ok[OF assms(1)] by (auto simp: ledger_step_def dest: try_fold_map_err)
  moreover have "list_all (\<lambda>t. wf_entries (txn_entries t)) (map pt_txn ts)" using assms(2) by (simp add: list_all_iff)
  ultimately show ?thesis
    using hash_ledger.batch_posts[OF hash_ledger.intro[OF assms(4,5)] assms(3)] by (simp add: comp_def)
qed

lemma plain_txn_escrow:
  assumes "plain_txn s t" "accounts_apart s" "map_of (s_accounts s) (MarketEscrow m, c) = Some a"
  shows "delta_of (txn_entries (pt_txn t)) a = 0"
proof (rule delta_of_untouched)
  show "a \<notin> entry_account ` set (txn_entries (pt_txn t))"
  proof
    assume "a \<in> entry_account ` set (txn_entries (pt_txn t))"
    then have "plain s a" using assms(1) by (auto simp: plain_txn_def list_all_iff)
    then show False using assms(2,3) unfolding plain_def accounts_apart_def by blast
  qed
qed

lemma entries_of_escrow:
  assumes "entries_of cmd legs s es" "accounts_apart s" "map_of (s_accounts s) (MarketEscrow m, Usdc) = Some a"
  shows "delta_of es a = (if m = tc_market cmd then lg_escrow_delta legs else 0)"
proof -
  have apart: "x \<noteq> y" if "map_of (s_accounts s) k = Some x" "map_of (s_accounts s) k' = Some y" "k \<noteq> k'" for k k' x y
    using that assms(2) unfolding accounts_apart_def by blast
  from assms(1) obtain u e where ue: "map_of (s_accounts s) (UserOwner (tc_user cmd), Usdc) = Some u"
    "map_of (s_accounts s) (MarketEscrow (tc_market cmd), Usdc) = Some e" by (auto simp: entries_of_def)
  have u: "u \<noteq> a" using apart[OF ue(1) assms(3)] by simp
  have e: "e = a \<longleftrightarrow> m = tc_market cmd" using apart[OF ue(2) assms(3)] ue(2) assms(3) by auto
  have f: "f \<noteq> a" if "map_of (s_accounts s) (FeesOwner, Usdc) = Some f" for f using apart[OF that assms(3)] by simp
  show ?thesis using assms(1) ue u e f by (auto simp: entries_of_def delta_of_def split: if_splits)
qed

definition store_typed :: "State \<Rightarrow> bool" where
  "store_typed s \<longleftrightarrow> list_all (\<lambda>l. fits_i64 (lot_amount_micro l)) (lots (phase7 s))"

definition trade_typed :: "RepConfig \<Rightarrow> PlaceTradeCmd \<Rightarrow> bool" where
  "trade_typed rc cmd \<longleftrightarrow> fits_i64 (tc_amount_micro cmd) \<and> fits_u16 (rep_min_fee_bps rc) \<and>
     list_all fits_u16 (fee_discount_bp_by_tier rc) \<and> length (fee_discount_bp_by_tier rc) = 5"

lemma converted_plain:
  assumes "convert_then_collect u now key ((started w)\<lparr>clock := c\<rparr>) = (Ok r, wa)" "store_typed (committed w)"
  shows "list_all (plain_txn (committed wa)) (p_txns (pending wa))"
proof -
  have "lots_typed ((started w)\<lparr>clock := c\<rparr>)"
    using assms(2) by (simp add: lots_typed_def store_typed_def started_def Pending_default_def Phase7Pending_default_def)
  from side_convert_then_collect[OF assms(1) this] show ?thesis
    by (auto simp: side_def started_def Pending_default_def)
qed

lemma entries_wf:
  "entries_of cmd legs s es \<Longrightarrow> backing_step cmd pool n legs \<Longrightarrow> wf_entries es"
  by (auto simp: entries_of_def backing_step_def wf_entries_def split: if_splits)

lemma sum_list_all_zero: "(\<And>x. x \<in> set xs \<Longrightarrow> f x = (0 :: int)) \<Longrightarrow> sum_list (map f xs) = 0"
  by (induction xs) auto

lemma escrow_of_quiet: "quiet w w' \<Longrightarrow> escrow_of (committed w) m = Some b \<Longrightarrow> escrow_of (committed w') m = Some b"
proof -
  assume q: "quiet w w'" and e: "escrow_of (committed w) m = Some b"
  have "opened (s_balances (committed w)) (s_balances (committed w'))" using q unfolding quiet_def by auto
  then show ?thesis
    using e quiet_accounts[OF q] opened_balance by (fastforce simp: escrow_of_def bind_eq_Some_conv)
qed

lemma fresh_trade_ledger:
  assumes "fresh_trade rc cmd w terms legs es row wa wc w'" "books_ok (committed w)" "store_typed (committed w)"
    "is_order (order_d w)" "is_order (order_c w)" "accounts_apart (committed w')" "backing_step cmd pool n legs"
  shows "books_ok (committed w') \<and> (escrow_of (committed w) m = Some b \<longrightarrow>
    escrow_of (committed w') m = Some (b + (if m = tc_market cmd then lg_escrow_delta legs else 0)))"
proof -
  note com = fresh_trade_commit[OF assms(1)]
  from com(1) obtain at s where s: "try_fold (commit_txn wc) (p_txns (pending wa) @
        [booked (tc_idempotency_key cmd) (nt_ledger_txn (st_new row)) Trade es at]) (committed wc) = Ok s"
      "with_trade cmd legs row s (committed w')" by blast
  let ?ts = "p_txns (pending wa) @ [booked (tc_idempotency_key cmd) (nt_ledger_txn (st_new row)) Trade es at]"
  note f = with_trade_fields[OF s(2)]
  have accts: "s_accounts (committed w') = s_accounts (committed wc)"
    using but_ledger_fields(1)[of s "committed wc"] commit_txns_Ok[OF s(1)] f(7) by simp
  then have apart: "accounts_apart (committed wc)" using assms(6) by (simp add: accounts_apart_def)
  from assms(1) obtain c r w3 where conv: "convert_then_collect (tc_user cmd) (clock w 0) (tc_idempotency_key cmd)
      ((started w)\<lparr>clock := c\<rparr>) = (Ok r, wa)" and
    ent: "entries_of cmd legs (committed wc) es" unfolding fresh_trade_def books_def by blast
  have plain: "list_all (plain_txn (committed wc)) (p_txns (pending wa))"
    using converted_plain[OF conv assms(3)] plain_txn_mono[OF com(5)] by (auto simp: list_all_iff)
  have wfs: "list_all (\<lambda>t. wf_entries (txn_entries (pt_txn t))) ?ts"
    using plain entries_wf[OF ent assms(7)] by (auto simp: list_all_iff plain_txn_def booked_def)
  have ok: "books_ok (committed wc)" using com(4) assms(2) by (simp add: quiet_def)
  have od: "is_order (order_d wc)" "is_order (order_c wc)" using assms(4,5) quiet_tables(21,22)[OF com(4)] by simp_all
  have post: "ledger_inv (s_balances s)"
    "balance (s_balances s) a = map_option (\<lambda>v. v + sum_list (map (\<lambda>t. delta_of (txn_entries (pt_txn t)) a) ?ts))
      (balance (s_balances (committed wc)) a)" for a
    using commit_txns_balances[OF s(1) wfs _ od] ok by (auto simp: books_ok_def)
  have "books_ok (committed w')" using ok post(1) accts f(6) by (auto simp: books_ok_def post(2))
  moreover have "escrow_of (committed w') m = Some (b + (if m = tc_market cmd then lg_escrow_delta legs else 0))"
    if e: "escrow_of (committed w) m = Some b"
  proof -
    from escrow_of_quiet[OF com(4) e] obtain a where a: "map_of (s_accounts (committed wc)) (MarketEscrow m, Usdc) = Some a"
      "balance (s_balances (committed wc)) a = Some b" by (auto simp: escrow_of_def bind_eq_Some_conv)
    have "sum_list (map (\<lambda>t. delta_of (txn_entries (pt_txn t)) a) (p_txns (pending wa))) = 0"
      using plain plain_txn_escrow[OF _ apart a(1)] by (intro sum_list_all_zero) (auto simp: list_all_iff)
    then have "sum_list (map (\<lambda>t. delta_of (txn_entries (pt_txn t)) a) ?ts) = delta_of es a"
      by (simp add: booked_def)
    then show ?thesis using entries_of_escrow[OF ent apart a(1)] a accts f(6) by (simp add: escrow_of_def post(2))
  qed
  ultimately show ?thesis by blast
qed

text \<open>The tables after a trade.\<close>

lemma fresh_trade_tables:
  assumes "fresh_trade rc cmd w terms legs es row wa wc w'"
  shows "s_pools (committed w') = AList.update (tc_market cmd) (lg_pool_after legs) (s_pools (committed w))"
    "s_positions (committed w') = AList.update (pos_user (lg_position legs), pos_outcome (lg_position legs)) (lg_position legs)
       (s_positions (committed w))"
    "s_markets (committed w') = s_markets (committed w)"
    "s_reputation (committed w') = s_reputation (committed w)"
proof -
  note com = fresh_trade_commit[OF assms]
  from com(1) obtain at s where s: "try_fold (commit_txn wc) (p_txns (pending wa) @
        [booked (tc_idempotency_key cmd) (nt_ledger_txn (st_new row)) Trade es at]) (committed wc) = Ok s"
      "with_trade cmd legs row s (committed w')" by blast
  have b: "but_ledger s = but_ledger (committed wc)" using commit_txns_Ok[OF s(1)] by blast
  note f = with_trade_fields[OF s(2)] and q = quiet_tables[OF com(4)]
  show "s_pools (committed w') = AList.update (tc_market cmd) (lg_pool_after legs) (s_pools (committed w))"
    using f(1) but_ledger_fields(3)[OF b] q(2) by simp
  show "s_positions (committed w') = AList.update (pos_user (lg_position legs), pos_outcome (lg_position legs)) (lg_position legs)
       (s_positions (committed w))" using f(2) but_ledger_fields(4)[OF b] q(3) by simp
  show "s_markets (committed w') = s_markets (committed w)" using f(8) but_ledger_fields(2)[OF b] q(1) by simp
  show "s_reputation (committed w') = s_reputation (committed w)" using f(11) but_ledger_fields(13)[OF b] q(7) by simp
qed

lemma outcome_apart:
  assumes "outcomes_ok s" "map_of (s_markets s) m = Some r" "map_of (s_markets s) m' = Some r'"
  shows "outcome_of r sd = outcome_of r' sd' \<longleftrightarrow> m = m' \<and> sd = sd'"
  using assms unfolding outcomes_ok_def by (metis option.inject)

lemma reserves_sides:
  "pool_yes p = (if sd = Yes then fst (reserves p sd) else snd (reserves p sd))"
  "pool_no p = (if sd = No then fst (reserves p sd) else snd (reserves p sd))"
  by (cases sd; simp add: reserves_side)+

text \<open>The market of a trade, and the legs of its quote.\<close>

lemma fresh_trade_step:
  assumes "fresh_trade rc cmd w terms legs es row wa wc w'" "trade_typed rc cmd" "positions_ok (committed w)"
    "wf_pool (tt_pool terms)" "0 \<le> rep_tier (tt_rep terms)"
  shows "backing_step cmd (tt_pool terms)
      (case map_of (s_positions (committed w)) (tc_user cmd, tt_outcome terms) of None \<Rightarrow> 0 | Some p \<Rightarrow> pos_shares p) legs"
    "pos_user (lg_position legs) = tc_user cmd" "pos_outcome (lg_position legs) = tt_outcome terms"
    "tt_outcome terms = outcome_of (tt_market terms) (tc_side cmd)"
    "map_of (s_markets (committed w)) (tc_market cmd) = Some (tt_market terms)"
    "map_of (s_pools (committed w)) (tc_market cmd) = Some (tt_pool terms)"
proof -
  note n = fresh_trade_numbers[OF assms(1)]
  have pr: "priced rc cmd w terms" and adm: "admitted cmd w (tt_rep terms) (tt_market terms)"
    using n(3) by (simp_all add: cleared_to_trade_def)
  have held: "tt_held terms = map_of (s_positions (committed w)) (tc_user cmd, tt_outcome terms)"
    using pr by (simp add: priced_def)
  have "fits_u16 (tt_fee terms)" using pr assms(2,4,5) unfolding priced_def trade_typed_def by (metis fee_for_fits)
  then show "backing_step cmd (tt_pool terms)
      (case map_of (s_positions (committed w)) (tc_user cmd, tt_outcome terms) of None \<Rightarrow> 0 | Some p \<Rightarrow> pos_shares p) legs"
    using quote_legs_backing[OF n(1) assms(4)] assms(2) held by (simp add: trade_typed_def)
  have "pos_user p = tc_user cmd \<and> pos_outcome p = tt_outcome terms" if "tt_held terms = Some p" for p
    using that held assms(3) by (auto simp: positions_ok_def dest!: map_of_SomeD)
  from quote_legs_position[OF n(1) this]
  show "pos_user (lg_position legs) = tc_user cmd" "pos_outcome (lg_position legs) = tt_outcome terms" by auto
  show "tt_outcome terms = outcome_of (tt_market terms) (tc_side cmd)"
    "map_of (s_pools (committed w)) (tc_market cmd) = Some (tt_pool terms)" using pr by (simp_all add: priced_def)
  show "map_of (s_markets (committed w)) (tc_market cmd) = Some (tt_market terms)" using adm by (simp add: admitted_def)
qed

definition tiers_typed :: "State \<Rightarrow> bool" where
  "tiers_typed s \<longleftrightarrow> (\<forall>u r t. map_of (s_reputation s) u = Some (r, t) \<longrightarrow> 0 \<le> t)"

definition venue_ok :: "world \<Rightarrow> bool" where
  "venue_ok w \<longleftrightarrow> books_ok (committed w) \<and> positions_ok (committed w) \<and> outcomes_ok (committed w) \<and>
     store_typed (committed w) \<and> tiers_typed (committed w) \<and> is_order (order_d w) \<and> is_order (order_c w) \<and>
     (\<forall>m pool. map_of (s_pools (committed w)) m = Some pool \<longrightarrow> wf_pool pool)"

lemma fresh_trade_backed:
  assumes "fresh_trade rc cmd w terms legs es row wa wc w'" "trade_typed rc cmd" "venue_ok w"
    "accounts_apart (committed w')" "backed (committed w) m"
  shows "backed (committed w') m"
proof -
  have v: "books_ok (committed w)" "positions_ok (committed w)" "outcomes_ok (committed w)" "store_typed (committed w)"
    "is_order (order_d w)" "is_order (order_c w)" using assms(3) by (simp_all add: venue_ok_def)
  have adm: "admitted cmd w (tt_rep terms) (tt_market terms)" and pr: "priced rc cmd w terms"
    using fresh_trade_numbers(3)[OF assms(1)] by (simp_all add: cleared_to_trade_def)
  have pool: "wf_pool (tt_pool terms)" using assms(3) pr unfolding venue_ok_def priced_def by blast
  have tier: "0 \<le> rep_tier (tt_rep terms)" using assms(3) adm unfolding venue_ok_def tiers_typed_def admitted_def by blast
  note st = fresh_trade_step[OF assms(1,2) v(2) pool tier] and tab = fresh_trade_tables[OF assms(1)]
  note led = fresh_trade_ledger[OF assms(1) v(1,4,5,6) assms(4) st(1), of m]
  from assms(5) obtain market pl b where m: "map_of (s_markets (committed w)) m = Some market"
    "map_of (s_pools (committed w)) m = Some pl" "wf_pool pl" "escrow_of (committed w) m = Some b"
    "pool_yes pl + held_shares (committed w) (yes_outcome market) = b"
    "pool_no pl + held_shares (committed w) (no_outcome market) = b" unfolding backed_def by blast
  have held: "held_shares (committed w') o' = held_shares (committed w) o' + (if tt_outcome terms = o'
      then pos_shares (lg_position legs) -
        (case map_of (s_positions (committed w)) (tc_user cmd, tt_outcome terms) of None \<Rightarrow> 0 | Some p \<Rightarrow> pos_shares p) else 0)" for o'
    using held_update[OF v(2), of o' "lg_position legs"] tab(2) st(2,3) by (simp add: held_shares_def)
  have out: "tt_outcome terms = outcome_of market sd \<longleftrightarrow> m = tc_market cmd \<and> sd = tc_side cmd" for sd
    using outcome_apart[OF v(3) st(5) m(1), of "tc_side cmd" sd] st(4) by auto
  have outs: "yes_outcome market = outcome_of market Yes" "no_outcome market = outcome_of market No" by (simp_all add: outcome_of_def)
  show ?thesis
  proof (cases "m = tc_market cmd")
    case True
    then have eq: "pl = tt_pool terms" using m(2) st(6) by simp
    have p': "map_of (s_pools (committed w')) m = Some (lg_pool_after legs)" using tab(1) True by (simp add: update_conv')
    have e': "escrow_of (committed w') m = Some (b + lg_escrow_delta legs)" using led m(4) True by simp
    have "pool_yes (lg_pool_after legs) + held_shares (committed w') (yes_outcome market) = b + lg_escrow_delta legs"
      "pool_no (lg_pool_after legs) + held_shares (committed w') (no_outcome market) = b + lg_escrow_delta legs"
      using st(1) m(5,6) True unfolding eq outs held out backing_step_def
      by (cases "tc_side cmd"; simp add: reserves_side)+
    then show ?thesis
      unfolding backed_def using m(1) tab(3) p' e' st(1) by (auto simp: backing_step_def)
  next
    case False
    have p': "map_of (s_pools (committed w')) m = Some pl" using tab(1) m(2) False by (simp add: update_conv')
    have e': "escrow_of (committed w') m = Some b" using led m(4) False by simp
    have "held_shares (committed w') (outcome_of market sd) = held_shares (committed w) (outcome_of market sd)" for sd
      using held[of "outcome_of market sd"] out[of sd] False by simp
    then show ?thesis unfolding backed_def outs using m tab(3) p' e' outs by auto
  qed
qed

lemma no_grant_collect_loop: "framed no_grant (collect_loop k a t rows n)"
proof (induction rows arbitrary: n)
  case (Cons row rows)
  obtain r outstanding where "row = (r, outstanding)" by (cases row)
  with Cons show ?case
    by (auto simp: insert_receivable_movement_def intro!: no_grant_prims no_grant.framed_rules)
qed (auto intro: no_grant.framed_rules)

lemma no_grant_convert_then_collect: "framed no_grant (convert_then_collect u now k)"
  unfolding convert_then_collect_def convert_step_def convert_lot_def auto_collect_def lots_for_user_def
    txn_by_key_def allocations_for_lot_def open_receivables_for_user_def account_balance_def mark_lot_converted_def
    account_def ledger_apply_def validate_against_current_def
  by (intro no_grant_store no_grant_prims no_grant_collect_loop no_grant.framed_rules)

lemma try_fold_keeps:
  assumes "try_fold f xs s = Ok s'" "\<And>s x s'. f s x = Ok s' \<Longrightarrow> g s' = g s"
  shows "g s' = g s"
  using assms(1)
proof (induction xs arbitrary: s)
  case (Cons x xs)
  then obtain s1 where "f s x = Ok s1" "try_fold f xs s1 = Ok s'" by auto
  then show ?case using Cons.IH assms(2) by metis
qed simp

lemma fold_keeps: "(\<And>x s. g (f x s) = g s) \<Longrightarrow> g (fold f xs s) = g s"
  by (induction xs arbitrary: s) auto

lemma lots_update_deposit: "lots (fold (\<lambda>(i, st). update_deposit (h st) i) xs s) = lots s"
  by (rule fold_keeps) (auto simp: update_deposit_def split: option.split)

lemma typed_converted:
  "list_all (\<lambda>l. fits_i64 (lot_amount_micro l)) L \<Longrightarrow>
   list_all (\<lambda>l. fits_i64 (lot_amount_micro l))
     (fold (\<lambda>(i, at). update_first (\<lambda>l. lot_id l = i) (\<lambda>l. l\<lparr>converted_at := Some at\<rparr>)) cs L)"
proof (induction cs arbitrary: L)
  case (Cons c cs)
  have "list_all (\<lambda>l. fits_i64 (lot_amount_micro l)) (update_first P (\<lambda>l. l\<lparr>converted_at := Some at\<rparr>) L)" for P at
    using Cons.prems by (induction L) auto
  with Cons.IH show ?case by (cases c) simp
qed simp

text \<open>What holds of the state a fallible computation returns.\<close>

definition ensures :: "('a \<Rightarrow> bool) \<Rightarrow> ('e, 'a) outcome \<Rightarrow> bool" where
  "ensures P m \<longleftrightarrow> (\<forall>x. m = Ok x \<longrightarrow> P x)"

lemma ensures_Ok: "P x \<Longrightarrow> ensures P (Ok x)"
  by (simp add: ensures_def)

lemma ensures_Err: "ensures P (Err e)"
  by (simp add: ensures_def)

lemma ensures_and_then: "ensures P m \<Longrightarrow> (\<And>x. P x \<Longrightarrow> ensures Q (k x)) \<Longrightarrow> ensures Q (and_then m k)"
  by (cases m) (auto simp: ensures_def)

lemma ensures_try_fold: "P s \<Longrightarrow> (\<And>s x. P s \<Longrightarrow> ensures P (f s x)) \<Longrightarrow> ensures P (try_fold f xs s)"
proof (induction xs arbitrary: s)
  case Nil
  then show ?case by (simp add: ensures_def)
next
  case (Cons x xs)
  have "ensures P (f s x)" using Cons.prems by blast
  moreover have "ensures P (try_fold f xs s')" if "P s'" for s' using Cons.IH[OF that Cons.prems(2)] by blast
  ultimately show ?case by (cases "f s x") (auto simp: ensures_def)
qed

lemma ensures_if: "(b \<Longrightarrow> ensures P m) \<Longrightarrow> (\<not> b \<Longrightarrow> ensures P m') \<Longrightarrow> ensures P (if b then m else m')"
  by simp

lemma ensures_prod: "(\<And>x y. ensures P (f x y)) \<Longrightarrow> ensures P (case p of (x, y) \<Rightarrow> f x y)"
  by (cases p) auto

lemmas ensures_rules = ensures_Ok ensures_Err ensures_and_then ensures_if ensures_prod

definition lots_fit :: "Phase7Committed \<Rightarrow> bool" where
  "lots_fit s \<longleftrightarrow> list_all (\<lambda>l. fits_i64 (lot_amount_micro l)) (lots s)"

lemma lots_fit_other [simp]:
  "lots_fit (s\<lparr>lot_keys := a\<rparr>) = lots_fit s" "lots_fit (s\<lparr>allocations := b\<rparr>) = lots_fit s"
  "lots_fit (s\<lparr>deposits := d\<rparr>) = lots_fit s" "lots_fit (s\<lparr>deposit_sigs := e\<rparr>) = lots_fit s"
  "lots_fit (s\<lparr>referral_codes := f\<rparr>) = lots_fit s" "lots_fit (s\<lparr>outbound_payments := g\<rparr>) = lots_fit s"
  "lots_fit (s\<lparr>outbound_attempts := h\<rparr>) = lots_fit s" "lots_fit (s\<lparr>referral_binds := i\<rparr>) = lots_fit s"
  "lots_fit (s\<lparr>decisions := j\<rparr>) = lots_fit s" "lots_fit (s\<lparr>aml_legs := k\<rparr>) = lots_fit s"
  "lots_fit (s\<lparr>aml_flags := l\<rparr>) = lots_fit s" "lots_fit (s\<lparr>proposals := m\<rparr>) = lots_fit s"
  by (simp_all add: lots_fit_def)

lemma lots_fit_deposits [simp]: "lots_fit (fold (\<lambda>(i, st). update_deposit (h st) i) xs s) = lots_fit s"
  using lots_update_deposit[of h xs s] by (simp add: lots_fit_def)

lemma lots_fit_rows:
  "lots_fit s \<Longrightarrow> ensures lots_fit (commit_allocation s f)" "lots_fit s \<Longrightarrow> ensures lots_fit (commit_deposit s row)"
  unfolding commit_allocation_def commit_deposit_def by (auto intro!: ensures_rules)

lemma lots_fit_converted:
  "lots_fit s \<Longrightarrow> lots_fit (s\<lparr>lots := fold (\<lambda>(i, at). update_first (\<lambda>l. lot_id l = i) (\<lambda>l. l\<lparr>converted_at := Some at\<rparr>)) cs (lots s)\<rparr>)"
  using typed_converted by (simp add: lots_fit_def)

lemma lots_fit_phase7:
  assumes "lots_fit s" "p_lots p = []"
  shows "ensures lots_fit (apply_phase7 p s)"
proof -
  have "ensures lots_fit (try_fold commit_lot (p_lots p) s)" using assms by (simp add: ensures_def)
  then show ?thesis
    unfolding apply_phase7_def Let_def
    by (rule ensures_and_then[where P = lots_fit])
       (intro ensures_and_then[where P = lots_fit] ensures_try_fold[where P = lots_fit] lots_fit_rows ensures_rules;
        simp add: lots_fit_converted)
qed

section \<open>Every request keeps the venue in order\<close>

lemma fresh_trade_lots:
  assumes "fresh_trade rc cmd w terms legs es row wa wc w'" "store_typed (committed w)"
  shows "store_typed (committed w')"
proof -
  from assms(1) obtain c r w3 where conv: "convert_then_collect (tc_user cmd) (clock w 0) (tc_idempotency_key cmd)
      ((started w)\<lparr>clock := c\<rparr>) = (Ok r, wa)" and c3: "calm wa w3" and
    g: "no_grant (noted (tc_idempotency_key cmd) (fingerprint_of w cmd) w3) wc"
    unfolding fresh_trade_def books_def by blast
  have "no_grant ((started w)\<lparr>clock := c\<rparr>) wa" using framedD[OF no_grant_convert_then_collect conv] .
  then have empty: "p_lots (p_phase7 (pending wc)) = []"
    using g c3 by (auto simp: no_grant_def noted_def calm_def started_def Pending_default_def Phase7Pending_default_def)
  have "lots_fit (phase7 (committed w))" using assms(2) by (simp add: lots_fit_def store_typed_def)
  from lots_fit_phase7[OF this empty] fresh_trade_commit(7)[OF assms(1)] show ?thesis
    by (simp add: ensures_def lots_fit_def store_typed_def)
qed


lemma fresh_trade_pools:
  assumes "fresh_trade rc cmd w terms legs es row wa wc w'" "trade_typed rc cmd" "venue_ok w"
  shows "wf_pool (tt_pool terms)" "0 \<le> rep_tier (tt_rep terms)"
proof -
  have adm: "admitted cmd w (tt_rep terms) (tt_market terms)" and pr: "priced rc cmd w terms"
    using fresh_trade_numbers(3)[OF assms(1)] by (simp_all add: cleared_to_trade_def)
  show "wf_pool (tt_pool terms)" using assms(3) pr unfolding venue_ok_def priced_def by blast
  show "0 \<le> rep_tier (tt_rep terms)" using assms(3) adm unfolding venue_ok_def tiers_typed_def admitted_def by blast
qed

lemma fresh_trade_venue:
  assumes "fresh_trade rc cmd w terms legs es row wa wc w'" "trade_typed rc cmd" "venue_ok w" "accounts_apart (committed w')"
  shows "venue_ok w'"
proof -
  have v: "books_ok (committed w)" "positions_ok (committed w)" "outcomes_ok (committed w)" "store_typed (committed w)"
    "tiers_typed (committed w)" "is_order (order_d w)" "is_order (order_c w)"
    "\<And>m pool. map_of (s_pools (committed w)) m = Some pool \<Longrightarrow> wf_pool pool"
    using assms(3) by (simp_all add: venue_ok_def)
  note com = fresh_trade_commit[OF assms(1)] and tab = fresh_trade_tables[OF assms(1)]
  note st = fresh_trade_step[OF assms(1,2) v(2) fresh_trade_pools[OF assms(1-3)]]
  have "books_ok (committed w')" using fresh_trade_ledger[OF assms(1) v(1,4,6,7) assms(4) st(1)] by blast
  moreover have "positions_ok (committed w')"
  proof (rule positions_ok_update[OF v(2) tab(2)])
    have "0 \<le> pos_shares p" if "map_of (s_positions (committed w)) k = Some p" for k p
      using map_of_SomeD[OF that] v(2) unfolding positions_ok_def by blast
    then show "0 \<le> pos_shares (lg_position legs)" "fits_i64 (pos_shares (lg_position legs))"
      using st(1) unfolding backing_step_def by (auto split: option.splits)
  qed
  moreover have "outcomes_ok (committed w')" using v(3) unfolding outcomes_ok_def tab(3) by blast
  moreover have "tiers_typed (committed w')" using v(5) unfolding tiers_typed_def tab(4) by blast
  moreover have "wf_pool pool" if "map_of (s_pools (committed w')) m = Some pool" for m pool
    using that tab(1) st(1) v(8) by (auto simp: update_conv' backing_step_def split: if_splits)
  ultimately show ?thesis
    using fresh_trade_lots[OF assms(1) v(4)] com(8,9) v(6,7) by (simp add: venue_ok_def)
qed

lemma quiet_venue:
  assumes "quiet w w'" "venue_ok w"
  shows "venue_ok w'" "backed (committed w) m \<Longrightarrow> backed (committed w') m"
proof -
  note tab = quiet_tables[OF assms(1)]
  have "books_ok (committed w')" using assms by (simp add: quiet_def venue_ok_def)
  then show "venue_ok w'"
    using assms(2) unfolding venue_ok_def positions_ok_def outcomes_ok_def store_typed_def tiers_typed_def tab by blast
  show "backed (committed w') m" if "backed (committed w) m"
    using that escrow_of_quiet[OF assms(1)] tab unfolding backed_def held_shares_def by fastforce
qed

text \<open>Accounts are only ever added.\<close>

lemma fresh_trade_accounts:
  assumes "fresh_trade rc cmd w terms legs es row wa wc w'" "map_of (s_accounts (committed w)) k = Some a"
  shows "map_of (s_accounts (committed w')) k = Some a"
proof -
  note com = fresh_trade_commit[OF assms(1)]
  from com(1) obtain at s where s: "try_fold (commit_txn wc) (p_txns (pending wa) @
        [booked (tc_idempotency_key cmd) (nt_ledger_txn (st_new row)) Trade es at]) (committed wc) = Ok s"
      "with_trade cmd legs row s (committed w')" by blast
  have "but_ledger s = but_ledger (committed wc)" using commit_txns_Ok[OF s(1)] by blast
  from but_ledger_fields(1)[OF this] show ?thesis
    using with_trade_fields(7)[OF s(2)] quiet_accounts[OF com(4) assms(2)] by simp
qed

definition place_trade_step :: "world \<Rightarrow> world \<Rightarrow> bool" where
  "place_trade_step w w' \<longleftrightarrow> (\<exists>tj rc cmd r. trade_typed rc cmd \<and> place_trade tj rc cmd w = (r, w'))"

lemma place_trade_step_cases:
  assumes "place_trade_step w w'"
  obtains "quiet w w'" | rc cmd terms legs es row wa wc where
    "trade_typed rc cmd" "fresh_trade rc cmd w terms legs es row wa wc w'"
proof -
  from assms obtain tj rc cmd r where t: "trade_typed rc cmd" and p: "place_trade tj rc cmd w = (r, w')"
    unfolding place_trade_step_def by blast
  show thesis
  proof (cases r)
    case (Ok receipt)
    from p[unfolded Ok] show thesis
    proof (cases rule: place_trade_cases)
      case replay
      then show thesis using that(1) by (simp add: started_def quiet_same)
    next
      case fresh
      then show thesis using that(2) t by blast
    qed
  qed (use atomicD[OF atomic_place_trade p] that(1) in simp_all)
qed

lemma place_trade_step_apart:
  assumes "place_trade_step w w'" "accounts_apart (committed w')"
  shows "accounts_apart (committed w)"
  using assms(1)
proof (cases rule: place_trade_step_cases)
  case 1
  then show ?thesis using assms(2) quiet_accounts unfolding accounts_apart_def by blast
next
  case 2
  then show ?thesis using assms(2) fresh_trade_accounts unfolding accounts_apart_def by blast
qed

lemma place_trade_step_ok:
  assumes "place_trade_step w w'" "venue_ok w" "accounts_apart (committed w')"
  shows "venue_ok w' \<and> (backed (committed w) m \<longrightarrow> backed (committed w') m)"
  using assms(1)
proof (cases rule: place_trade_step_cases)
  case 1
  then show ?thesis using quiet_venue[OF 1 assms(2)] by blast
next
  case (2 rc cmd terms legs es row wa wc)
  then show ?thesis using fresh_trade_venue[OF 2(2,1) assms(2,3)] fresh_trade_backed[OF 2(2,1) assms(2,3)] by blast
qed

section \<open>Sessions\<close>

text \<open>
  A session: requests to place a trade, in any order and with any result, while time passes, ids are drawn and
  the configuration changes.
\<close>

inductive trading_session :: "world \<Rightarrow> world \<Rightarrow> bool" where
  start: "trading_session w w"
| trade: "trading_session w v \<Longrightarrow> place_trade_step v u \<Longrightarrow> trading_session w u"
| tick: "trading_session w v \<Longrightarrow> trading_session w (v\<lparr>clock := c, utc := t, uuids := i, ops := conf\<rparr>)"

lemma tick_ok: "venue_ok (v\<lparr>clock := c, utc := t, uuids := i, ops := conf\<rparr>) \<longleftrightarrow> venue_ok v"
  by (simp add: venue_ok_def)

lemma session_ok:
  "trading_session w w' \<Longrightarrow> venue_ok w \<Longrightarrow> accounts_apart (committed w') \<Longrightarrow>
     accounts_apart (committed w) \<and> venue_ok w' \<and> (backed (committed w) m \<longrightarrow> backed (committed w') m)"
proof (induction rule: trading_session.induct)
  case (trade w v u)
  have "venue_ok v" if "accounts_apart (committed v)" using trade.IH trade.prems(1) that by blast
  moreover have "accounts_apart (committed v)" using place_trade_step_apart[OF trade.hyps(2) trade.prems(2)] .
  ultimately show ?case
    using trade.IH[OF trade.prems(1)] place_trade_step_ok[OF trade.hyps(2) _ trade.prems(2)] by blast
qed (simp_all add: tick_ok)

text \<open>
  C4. Every market stays fully backed. Start from a store in order (the ledger balanced, every table with one
  row per key, each outcome belonging to one side of one market, pools well formed) and let any session of
  trade requests run, each ending in a receipt, a replay, an error or a panic, with any configuration changes
  in between. In every market that was backed at the start, the ledger's escrow account then holds exactly as
  many units as there are YES shares, and as there are NO shares, in the pool and with the users together; and
  the store is still in order. The only assumption on identifiers is that no two owners ended up with the same
  account id.
\<close>

theorem session_backed:
  assumes "trading_session w w'" and "venue_ok w" and "accounts_apart (committed w')" and "backed (committed w) m"
  shows "backed (committed w') m \<and> venue_ok w'"
  using session_ok[OF assms(1-3)] assms(4) by blast

lemma trade_world_ok: "venue_ok trade_world" "backed (committed trade_world) 5"
proof -
  have c: "committed trade_world = State_default
       \<lparr>s_balances := \<lparr>accounts = [(9, External, Usdc, - 1400), (10, User, Usdc, 400), (11, Escrow, Usdc, 1000)]\<rparr>,
        s_accounts := [((UserOwner 1, Usdc), 10), ((MarketEscrow 5, Usdc), 11)],
        s_markets := [(5, demo_market)], s_pools := [(5, \<lparr>pool_yes = 1000, pool_no = 1000, pool_fee = 100\<rparr>)],
        s_votes := [(1, 5)], s_users := [(1, lit ''u'')], s_reputation := [(1, (0, 0))]\<rparr>"
    "order_d trade_world = (\<lambda>xs. xs)" "order_c trade_world = (\<lambda>xs. xs)"
    by (simp_all add: trade_world_def demo_world_def)
  have "wf_pool \<lparr>pool_yes = 1000, pool_no = 1000, pool_fee = 100\<rparr>" by (simp add: wf_pool_def width_defs)
  moreover have "ledger_inv (s_balances (committed trade_world))"
    unfolding c by (simp add: ledger_inv_def wf_Balances_def width_defs currency_total_def owned_def State_default_def)
  moreover have "outcomes_ok (committed trade_world)"
    unfolding c by (auto simp: outcomes_ok_def demo_market_def outcome_of_def State_default_def split: Side.splits if_splits)
  ultimately show "venue_ok trade_world" "backed (committed trade_world) 5"
    unfolding venue_ok_def backed_def c
    by (auto simp: books_ok_def positions_ok_def store_typed_def tiers_typed_def is_order_id State_default_def
        Phase7_default_def escrow_of_def held_shares_def balance_def demo_market_def split: if_splits)
qed

theorem session_backed_witness:
  "backed (committed (snd (demo_place demo_buy trade_world))) 5"
proof -
  have "trade_typed demo_rep demo_buy" by (simp add: trade_typed_def demo_rep_def demo_buy_def width_defs)
  then have "trading_session trade_world (snd (demo_place demo_buy trade_world))"
    using demo_buy_Ok by (intro trading_session.trade[OF trading_session.start]) (auto simp: place_trade_step_def)
  moreover have "accounts_apart (committed (snd (demo_place demo_buy trade_world)))"
    unfolding accounts_apart_def demo_accounts by (auto split: if_splits)
  ultimately show ?thesis using session_backed trade_world_ok by blast
qed

end
