(* ===== verification/Payouts.thy ===== *)
theory Payouts
  imports Settling Backing
begin

text \<open>
  What a settlement does to the store. Its stages are sorted by what they may write: the payout is the only
  ledger transaction on an escrow account, one loop closes the positions, the lifecycle steps mark the market,
  and everything else (\<open>aside\<close>) stays off all three. With the lemmas on commits this gives the state after a
  settlement: the escrow is empty, every position in the market is closed, the market is final, and a second
  resolution only repeats the receipt.
\<close>

section \<open>What a successful run keeps\<close>

definition yields :: "('w \<Rightarrow> 'w \<Rightarrow> bool) \<Rightarrow> ('w, 'e, 'a) action \<Rightarrow> bool" where
  "yields R m \<longleftrightarrow> (\<forall>w x w'. m w = (Ok x, w') \<longrightarrow> R w w')"

lemma yieldsD: "yields R m \<Longrightarrow> m w = (Ok x, w') \<Longrightarrow> R w w'"
  unfolding yields_def by blast

lemma yields_fail: "yields R (fail e)"
  by (simp add: yields_def fail_def)

context frame
begin

lemma yields_framed: "framed R m \<Longrightarrow> yields R m"
  unfolding yields_def by (blast intro: framedD)

lemma yields_seq: "yields R m \<Longrightarrow> (\<And>x. yields R (k x)) \<Longrightarrow> yields R (seq m k)"
  unfolding yields_def seq_Ok_iff by (meson trans)

lemma yields_with_err: "yields R m \<Longrightarrow> yields R (with_err g m)"
  unfolding yields_def by (simp add: with_err_Ok_iff)

lemma yields_for_each: "(\<And>x. yields R (f x)) \<Longrightarrow> yields R (for_each f xs)"
  by (induction xs) (auto intro: yields_seq yields_framed framed_ret)

lemma yields_for_fold: "(\<And>acc x. yields R (f acc x)) \<Longrightarrow> yields R (for_fold f xs acc)"
  by (induction xs arbitrary: acc) (auto intro: yields_seq yields_framed framed_ret)

lemma yields_if: "yields R m \<Longrightarrow> yields R m' \<Longrightarrow> yields R (if b then m else m')"
  by simp

lemma yields_option: "yields R m \<Longrightarrow> (\<And>x. yields R (f x)) \<Longrightarrow> yields R (case v of None \<Rightarrow> m | Some x \<Rightarrow> f x)"
  by (cases v) auto

lemma yields_let: "(\<And>x. yields R (f x)) \<Longrightarrow> yields R (Let y f)"
  by simp

lemma yields_prod: "(\<And>x y. yields R (f x y)) \<Longrightarrow> yields R (case p of (x, y) \<Rightarrow> f x y)"
  by (cases p) auto

lemmas yields_rules =
  yields_seq yields_with_err yields_for_each yields_for_fold yields_if yields_option yields_let yields_prod
  yields_fail yields_framed[OF framed_ret] yields_framed[OF framed_lift] yields_framed[OF framed_asks]
  yields_framed[OF framed_inquire]

end

text \<open>Parts of the buffer that a step leaves alone.\<close>

definition keeps :: "(Pending \<Rightarrow> 'x) \<Rightarrow> world \<Rightarrow> world \<Rightarrow> bool" where
  "keeps f w w' \<longleftrightarrow> f (pending w') = f (pending w)"

interpretation keeps: frame "keeps f" for f
  by unfold_locales (simp_all add: keeps_def)

text \<open>
  The side business of a settlement: it buffers ledger transactions off the escrow accounts and rows of
  any table but the positions, the markets and the votes. Lots are typed as long as the lot table is.
\<close>

definition settled_rows :: "Pending \<Rightarrow> PositionRow list \<times> (uuid \<times> MarketState) list \<times> MarketRow list \<times> StoredVote list" where
  "settled_rows p = (p_positions p, p_market_states p, p_markets p, p_votes p)"

definition aside :: "world \<Rightarrow> world \<Rightarrow> bool" where
  "aside w w' \<longleftrightarrow> quiet w w' \<and> keeps settled_rows w w' \<and>
     (lots_typed w \<longrightarrow> lots_typed w' \<and>
       (\<exists>ts. p_txns (pending w') = p_txns (pending w) @ ts \<and> list_all (plain_txn (committed w')) ts))"

interpretation aside: frame aside
proof
  fix u v w :: world
  show "aside w w" by (simp add: aside_def keeps.refl quiet.refl)
  assume uv: "aside u v" and vw: "aside v w"
  have q: "quiet u v" "quiet v w" using uv vw by (simp_all add: aside_def)
  have "lots_typed w \<and> (\<exists>ts. p_txns (pending w) = p_txns (pending u) @ ts \<and> list_all (plain_txn (committed w)) ts)"
    if "lots_typed u"
  proof -
    from uv that obtain ts where 1: "lots_typed v" "p_txns (pending v) = p_txns (pending u) @ ts"
      "list_all (plain_txn (committed v)) ts" by (auto simp: aside_def)
    from vw 1 obtain ts' where 2: "lots_typed w" "p_txns (pending w) = p_txns (pending v) @ ts'"
      "list_all (plain_txn (committed w)) ts'" by (auto simp: aside_def)
    have "list_all (plain_txn (committed w)) (ts @ ts')"
      using 1(3) 2(3) plain_txn_mono[OF q(2)] by (auto simp: list_all_iff)
    then show ?thesis using 1 2 by (intro conjI exI[of _ "ts @ ts'"]) simp_all
  qed
  then show "aside u w" using uv vw quiet.trans[OF q] keeps.trans[of settled_rows u v w] by (simp add: aside_def)
qed

named_theorems aside_intros \<open>the side business of a settlement\<close>

lemma aside_same: "quiet w w' \<Longrightarrow> pending w' = pending w \<Longrightarrow> aside w w'"
  using quiet_tables(14)[of w w'] by (auto simp: aside_def keeps_def lots_typed_def)

lemma aside_buffer:
  assumes "\<And>p. settled_rows (f p) = settled_rows p" "\<And>p. p_txns (f p) = p_txns p"
    "\<And>p. list_all (\<lambda>l. fits_i64 (lot_amount_micro l)) (p_lots (p_phase7 p)) \<Longrightarrow>
       list_all (\<lambda>l. fits_i64 (lot_amount_micro l)) (p_lots (p_phase7 (f p)))"
  shows "yields aside (buffer f)"
  using assms by (auto simp: yields_def buffer_iff aside_def keeps_def lots_typed_def quiet_same)

lemma aside_store [aside_intros]: "yields aside m \<Longrightarrow> yields aside (store m)"
  unfolding store_def by (rule aside.yields_with_err)

lemma aside_prims [aside_intros]: "yields aside new_v4" "yields aside now_utc" "yields aside clock_now"
  by (auto simp: yields_def run_simps intro!: aside_same quiet_same)

lemma aside_account [aside_intros]: "yields aside (account owner currency)"
  unfolding yields_def using account_Ok aside_same by blast

lemma side_aside:
  assumes "side w w'" "lots_typed w \<Longrightarrow> lots_typed w'"
  shows "aside w w'"
  using assms unfolding side_def aside_def keeps_def settled_rows_def by auto

lemma side_no_grant: "side w w' \<Longrightarrow> no_grant w w' \<Longrightarrow> aside w w'"
  by (rule side_aside) (auto simp: lots_typed_def no_grant_def quiet_tables(14)[OF side_quiet])

lemma no_grant_auto_collect: "framed no_grant (auto_collect u k a)"
  unfolding auto_collect_def open_receivables_for_user_def account_balance_def account_def ledger_apply_def
    validate_against_current_def
  by (intro no_grant_store no_grant_prims no_grant_collect_loop no_grant.framed_rules)

lemma aside_auto_collect [aside_intros]: "yields aside (auto_collect u k a)"
  unfolding yields_def
  by (blast intro: side_no_grant side_auto_collect framedD[OF no_grant_auto_collect])

text \<open>Conversion stays off the escrow accounts when the lots are typed.\<close>

lemma aside_convert_then_collect [aside_intros]: "yields aside (convert_then_collect u now k)"
  unfolding yields_def
proof (intro allI impI)
  fix w r w'
  assume run: "convert_then_collect u now k w = (Ok r, w')"
  show "aside w w'"
  proof (cases "lots_typed w")
    case True
    then show ?thesis
      using side_no_grant side_convert_then_collect[OF run] framedD[OF no_grant_convert_then_collect run] by blast
  next
    case False
    have "preliminary w w'" using framedD[OF preliminary_convert_then_collect run] .
    then show ?thesis using False by (auto simp: aside_def preliminary_def keeps_def settled_rows_def)
  qed
qed

lemma aside_ledger_apply:
  assumes "ledger_apply kind key es w = (Ok i, w')" "wf_entries es" "list_all (\<lambda>e. plain (committed w) (entry_account e)) es"
  shows "aside w w'"
  using side_no_grant[OF side_ledger_apply[OF assms]] ledger_apply_Ok[OF assms(1)] by (simp add: no_grant_def)

lemma aside_reads [aside_intros]:
  "yields aside (txn_by_key k)" "yields aside (lot_by_idempotency k)" "yields aside (config_flag k)"
  "yields aside (config_text k)" "yields aside (phone_verified u)" "yields aside (remaining_promise_view)"
  "yields aside (bonus_minted_since t)" "yields aside (referral_bind_for_referee u)" "yields aside (referral_bind_parties b)"
  "yields aside (first_paid_market_for_user ot u)" "yields aside (referral_referees_for_paid_market m)"
  "yields aside (required_i64 k)" "yields aside (position_for_update u o')" "yields aside (tally m)"
  "yields aside (vote_facts m)" "yields aside (pool_seeded_micro m)" "yields aside (holdings m)" "yields aside (open_interest m)"
  unfolding txn_by_key_def lot_by_idempotency_def config_flag_def config_text_def phone_verified_def
    remaining_promise_view_def bonus_minted_since_def referral_bind_for_referee_def referral_bind_parties_def
    first_paid_market_for_user_def referral_referees_for_paid_market_def required_i64_def config_i64_def
    position_for_update_def tally_def vote_facts_def pool_seeded_micro_def holdings_def open_interest_def
  by (intro aside.yields_rules)+

lemma aside_writes [aside_intros]:
  "yields aside (write_outcome_resolution o' b r)" "yields aside (save_vote_scores vs)" "yields aside (save_reps rs)"
  "yields aside (clear_curator_flag m)" "yields aside (set_lp_result m x t)" "yields aside (set_collateral_at_close m x)"
  "yields aside (append_batch es)" "yields aside (append_event e)" "yields aside (audit_insert a)"
  "yields aside (insert_allocation f)" "yields aside (insert_realization rz)" "yields aside (remember_lot_idempotency k i)"
  unfolding write_outcome_resolution_def save_vote_scores_def save_reps_def clear_curator_flag_def set_lp_result_def
    set_collateral_at_close_def append_batch_def append_event_def audit_insert_def known_market_def insert_allocation_def
    insert_realization_def remember_lot_idempotency_def
  by (intro aside.yields_rules aside_buffer aside_prims; simp add: settled_rows_def)+

lemma aside_insert_credit_lot: "fits_i64 (lot_amount_micro lot) \<Longrightarrow> yields aside (insert_credit_lot lot)"
  unfolding insert_credit_lot_def
  by (intro aside.yields_rules aside_buffer) (simp_all add: settled_rows_def)

lemma aside_reserve [aside_intros]: "yields aside bonus_reserve_balance"
  unfolding bonus_reserve_balance_def by (intro aside.yields_rules aside_account)

lemma aside_gate [aside_intros]: "yields aside (enforce_money_mutation u k x t)" "yields aside (gate_allows u t)"
proof -
  show "yields aside (enforce_money_mutation u k x t)" unfolding yields_def by (auto dest: enforce_Ok intro: aside.refl)
  have "w' = w" if "enforce_money_mutation u GateCreditGrant 0 t w = (r, w')" for r w w'
  proof -
    have "framed (=) (gate_snapshot u t)"
      using observes_gate_snapshot[of u t] by (auto simp: observes_def framed_def)
    then have "framed (=) (enforce_money_mutation u GateCreditGrant 0 t)"
      unfolding enforce_money_mutation_def store_def by (intro unchanged.framed_rules)
    from framedD[OF this that] show ?thesis by simp
  qed
  then show "yields aside (gate_allows u t)"
    unfolding yields_def gate_allows_def
    by (auto split: prod.splits outcome.splits AppError.splits intro: aside.refl)
qed

lemma mint_legs_Ok:
  assumes "mint_legs key r e x y w = (Ok i, w')" "fits_i64 x" "fits_i64 y"
  shows "aside w w'"
proof -
  from assms(1) obtain h w1 a1 w2 a2 w3 where
    1: "account HouseOwner UsdcCredit w = (Ok h, w1)" and 2: "account (UserOwner r) UsdcCredit w1 = (Ok a1, w2)" and
    3: "account (UserOwner e) UsdcCredit w2 = (Ok a2, w3)" and n: "fits_i64 (- (x + y))" and
    4: "ledger_apply CreditGrant key
      [\<lparr>entry_account = h, entry_amount = - (x + y)\<rparr>, \<lparr>entry_account = a1, entry_amount = x\<rparr>,
       \<lparr>entry_account = a2, entry_amount = y\<rparr>] w3 = (Ok i, w')"
    by (auto simp: mint_legs_def run_simps arith_def split: if_splits)
  note acc = account_Ok[OF 1] account_Ok[OF 2] account_Ok[OF 3]
  have q: "quiet w1 w3" "quiet w2 w3" using acc quiet.trans by blast+
  have "map_of (s_accounts (committed w3)) (HouseOwner, UsdcCredit) = Some h"
    "map_of (s_accounts (committed w3)) (UserOwner r, UsdcCredit) = Some a1"
    "map_of (s_accounts (committed w3)) (UserOwner e, UsdcCredit) = Some a2"
    using acc q quiet_accounts by blast+
  then have p: "plain (committed w3) h" "plain (committed w3) a1" "plain (committed w3) a2"
    by (auto intro: plain_account)
  have "aside w3 w'" using p n assms(2,3) by (intro aside_ledger_apply[OF 4]) (simp_all add: wf_entries_def)
  then show ?thesis
    using yieldsD[OF aside_account 1] yieldsD[OF aside_account 2] yieldsD[OF aside_account 3] aside.trans by blast
qed

lemma aside_book_referral:
  assumes "fits_i64 x" "fits_i64 y"
  shows "yields aside (book_referral b r e x y c m t)"
proof -
  have "yields aside (mint_legs key r e x y)" for key
    unfolding yields_def using mint_legs_Ok[OF _ assms] by blast
  then show ?thesis
    unfolding book_referral_def
    by (intro aside.yields_rules aside_intros aside_insert_credit_lot) (simp_all add: assms)
qed

lemma aside_referral_reads [aside_intros]:
  "yields aside (bind_parties b)" "yields aside (granted_lots k r e)" "yields aside required_referral_policy"
  "yields aside (mint_allows r' c a g t)"
  unfolding bind_parties_def granted_lots_def required_referral_policy_def mint_allows_def
  by (intro aside.yields_rules aside_intros)+

lemma aside_prepare_parties [aside_intros]: "yields aside (prepare_parties b t us)"
  by (induction us) (auto intro!: aside.yields_rules aside_intros)

lemma yields_if_cases: "(b \<Longrightarrow> yields R m) \<Longrightarrow> (\<not> b \<Longrightarrow> yields R m') \<Longrightarrow> yields R (if b then m else m')"
  by simp

lemma yields_checked:
  assumes "fits y \<Longrightarrow> yields R (k y)"
  shows "yields R (seq (lift (ok_or (checked fits y) e)) k)"
  using assms unfolding yields_def by (auto simp: run_simps)

lemma aside_grant_in_tx [aside_intros]: "yields aside (grant_referral_on_paid_in_tx ot u m t)"
  unfolding grant_referral_on_paid_in_tx_def
  by (intro yields_if_cases yields_checked aside.yields_rules aside_intros aside_book_referral)
     (auto simp: width_defs)


lemma aside_grant_referrals [aside_intros]: "yields aside (grant_referrals_on_paid ot m)"
  unfolding grant_referrals_on_paid_def by (intro aside.yields_rules aside_intros)

lemma aside_move_allocations [aside_intros]: "yields aside (move_market_fee_allocations m kind)"
  unfolding move_market_fee_allocations_def move_one_def live_allocations_for_trade_def
  by (intro aside.yields_rules aside_intros)

lemma aside_stages [aside_intros]:
  "yields aside (collect_payout m u)" "yields aside (record_results cmd market bps x t)"
  "yields aside (score_market self cmd market votes bps escrow reps)" "yields aside (audit_resolution self m st v)"
  unfolding collect_payout_def record_results_def score_market_def audit_resolution_def
  by (intro aside.yields_rules aside_intros | cases "rs_actor self", simp_all add: aside.yields_rules)+

section \<open>What a payout books\<close>

lemma add_payouts_Ok:
  "try_fold (add_payout reds) hs (paid, n) = Ok (paid', n') \<Longrightarrow>
     \<exists>ps. paid' = paid @ ps \<and> map fst ps = map fst hs \<and> n' = n + sum_list (map snd ps) \<and>
       list_all (\<lambda>p. 0 \<le> snd p \<and> fits_i64 (snd p)) ps"
proof (induction hs arbitrary: paid n)
  case (Cons h hs)
  obtain yes no a sd x where h: "reds = (yes, no)" "h = (a, sd, x)" by (metis surj_pair)
  from Cons.prems obtain payout where p: "position_payout x (case sd of Yes \<Rightarrow> yes | No \<Rightarrow> no) = Ok payout"
    "try_fold (add_payout reds) hs (paid @ [(a, payout)], n + payout) = Ok (paid', n')"
    by (auto simp: h)
  have "0 \<le> payout" "fits_i64 payout"
    using p(1) by (auto simp: position_payout_def arith_def not_less intro!: pos_imp_zdiv_nonneg_iff[THEN iffD2] mult_nonneg_nonneg split: if_splits)
  moreover from Cons.IH[OF p(2)] obtain ps where "paid' = (paid @ [(a, payout)]) @ ps" "map fst ps = map fst hs"
    "n' = n + payout + sum_list (map snd ps)" "list_all (\<lambda>p. 0 \<le> snd p \<and> fits_i64 (snd p)) ps" by blast
  ultimately show ?case by (intro exI[of _ "(a, payout) # ps"]) (simp add: h)
qed simp

lemma settle_market_Ok:
  assumes "settle_market hs bps escrow = Ok s"
  shows "map fst (payouts s) = map fst hs" "sum_list (map snd (payouts s)) + dust s = escrow"
    "list_all (\<lambda>p. 0 \<le> snd p \<and> fits_i64 (snd p)) (payouts s)" "fits_i64 (dust s)" "bps \<le> 10000" "0 \<le> escrow"
proof -
  from assms obtain reds paid n where r: "redemptions bps = Ok reds" "0 \<le> escrow"
    and p: "try_fold (add_payout reds) hs ([], 0) = Ok (paid, n)"
    and s: "s = \<lparr>payouts = paid, dust = escrow - n\<rparr>" "fits_i64 (escrow - n)"
    by (auto simp: settle_market_def arith_def split: if_splits)
  from add_payouts_Ok[OF p] show "map fst (payouts s) = map fst hs" "sum_list (map snd (payouts s)) + dust s = escrow"
    "list_all (\<lambda>p. 0 \<le> snd p \<and> fits_i64 (snd p)) (payouts s)" by (auto simp: s)
  show "fits_i64 (dust s)" "0 \<le> escrow" using s r by simp_all
  show "bps \<le> 10000" using r(1) by (auto simp: redemptions_def split: if_splits)
qed

definition payout_legs :: "(account_id \<times> micro_usd) list \<Rightarrow> Entry list" where
  "payout_legs ps = map (\<lambda>(a, x). \<lparr>entry_account = a, entry_amount = x\<rparr>) (filter (\<lambda>p. snd p \<noteq> 0) ps)"

lemma payout_entries_Ok:
  "payout_entries ps n es = Ok (es', n') \<Longrightarrow> es' = es @ payout_legs ps \<and> n' = n + sum_list (map snd ps)"
proof (induction ps arbitrary: n es)
  case (Cons p ps)
  obtain a x where p: "p = (a, x)" by (cases p)
  with Cons.prems have "payout_entries ps (n + x) (if x \<noteq> 0 then es @ [\<lparr>entry_account = a, entry_amount = x\<rparr>] else es) = Ok (es', n')"
    by auto
  from Cons.IH[OF this] show ?case by (simp add: p payout_legs_def)
qed (simp add: payout_legs_def)

lemma settlement_entries_Ok:
  assumes "settlement_entries esc fees s = Ok es"
  shows "es = payout_legs (payouts s) @ payout_legs [(fees, dust s), (esc, - (sum_list (map snd (payouts s)) + dust s))]"
    "fits_i64 (- (sum_list (map snd (payouts s)) + dust s)) \<or> sum_list (map snd (payouts s)) + dust s = 0"
proof -
  from assms obtain es1 n where 1: "payout_entries (payouts s) 0 [] = Ok (es1, n)"
    and rest: "(if n + dust s \<noteq> 0 then arith fits_i64 (- (n + dust s)) = Ok (- (n + dust s)) \<and>
        es = (if dust s \<noteq> 0 then es1 @ [\<lparr>entry_account = fees, entry_amount = dust s\<rparr>] else es1) @
          [\<lparr>entry_account = esc, entry_amount = - (n + dust s)\<rparr>]
      else es = (if dust s \<noteq> 0 then es1 @ [\<lparr>entry_account = fees, entry_amount = dust s\<rparr>] else es1))"
    by (auto simp: settlement_entries_def Let_def arith_def split: if_splits)
  from payout_entries_Ok[OF 1] have e: "es1 = payout_legs (payouts s)" "n = sum_list (map snd (payouts s))" by simp_all
  show "es = payout_legs (payouts s) @ payout_legs [(fees, dust s), (esc, - (sum_list (map snd (payouts s)) + dust s))]"
    using rest by (auto simp: e payout_legs_def split: if_splits)
  show "fits_i64 (- (sum_list (map snd (payouts s)) + dust s)) \<or> sum_list (map snd (payouts s)) + dust s = 0"
    using rest by (auto simp: e arith_def split: if_splits)
qed

lemma delta_payout_legs: "delta_of (payout_legs ps) a = sum_list (map (\<lambda>(b, x). if b = a then x else 0) ps)"
  by (induction ps) (auto simp: delta_of_def payout_legs_def)

lemma payout_elsewhere: "a \<notin> fst ` set ps \<Longrightarrow> sum_list (map (\<lambda>(b, x). if b = a then x else 0) ps) = (0 :: int)"
  by (induction ps) auto

lemma settlement_delta:
  assumes "settle_market hs bps escrow = Ok s" "settlement_entries esc fees s = Ok es" "esc \<notin> fst ` set hs" "esc \<noteq> fees"
    "length hs + 2 \<le> 9223372036854775807"
  shows "delta_of es esc = - escrow" "wf_entries es"
proof -
  note s = settle_market_Ok[OF assms(1)] and e = settlement_entries_Ok[OF assms(2)]
  have "fst ` set (payouts s) = fst ` set hs" using s(1) by (metis set_map)
  then have "delta_of (payout_legs (payouts s)) esc = 0" using assms(3) payout_elsewhere[of esc "payouts s"] by (simp add: delta_payout_legs)
  then show "delta_of es esc = - escrow"
    using s(2) assms(4) by (simp add: e(1) delta_of_append) (simp add: delta_payout_legs)
  let ?ps = "payouts s @ [(fees, dust s), (esc, - (sum_list (map snd (payouts s)) + dust s))]"
  have es: "es = payout_legs ?ps" by (simp add: e(1) payout_legs_def)
  have "length (payouts s) = length hs" using s(1) by (metis length_map)
  then have "length es \<le> length hs + 2" using length_filter_le[of "\<lambda>p. snd p \<noteq> 0" ?ps] by (simp add: es payout_legs_def)
  moreover have "list_all (\<lambda>e. fits_i64 (entry_amount e)) es"
    using s(3,4) e(2) by (auto simp: es payout_legs_def list_all_iff)
  ultimately show "wf_entries es" using assms(5) by (simp add: wf_entries_def)
qed

section \<open>What a commit writes\<close>

lemma ensures_fold_keeps:
  assumes "g s = c" "\<And>s x. ensures (\<lambda>s'. g s' = g s) (f s x)"
  shows "ensures (\<lambda>s'. g s' = c) (try_fold f xs s)"
  unfolding ensures_def using try_fold_keeps[of f xs s _ g] assms unfolding ensures_def by blast

lemma ensures_trans:
  assumes "ensures (\<lambda>s'. g s' = c) m" "\<And>x. g x = c \<Longrightarrow> ensures (\<lambda>s'. g s' = c) (k x)"
  shows "ensures (\<lambda>s'. g s' = c) (and_then m k)"
  using assms by (rule ensures_and_then)

text \<open>The ledger, the tallies and the positions are each written by one stage of a commit.\<close>

definition ledger_part :: "State \<Rightarrow> Balances \<times> (ustring \<times> uuid) list \<times> ((OwnerRef \<times> Currency) \<times> account_id) list" where
  "ledger_part s = (s_balances s, s_txn_keys s, s_accounts s)"

lemma books_keep: "ensures (\<lambda>s'. (ledger_part s', s_positions s', s_tallies s') = (ledger_part s, s_positions s, s_tallies s)) (commit_books p s)"
  unfolding commit_books_def Let_def
  by (intro ensures_trans[where g = "\<lambda>s. (ledger_part s, s_positions s, s_tallies s)"]
      ensures_fold_keeps[where g = "\<lambda>s. (ledger_part s, s_positions s, s_tallies s)"])
     (auto simp: ensures_def ledger_part_def commit_market_def update_market_def split: if_splits option.splits prod.splits)

lemma people_keep:
  "ensures (\<lambda>s'. (ledger_part s', s_positions s', s_tallies s', s_markets s') = (ledger_part s, s_positions s, s_tallies s, s_markets s))
     (commit_people p s)"
  unfolding commit_people_def Let_def
  by (intro ensures_trans[where g = "\<lambda>s. (ledger_part s, s_positions s, s_tallies s, s_markets s)"]
      ensures_fold_keeps[where g = "\<lambda>s. (ledger_part s, s_positions s, s_tallies s, s_markets s)"] ensures_Ok)
     (auto simp: ensures_def ledger_part_def commit_deposit_row_def split: if_splits option.splits prod.splits)

lemma social_keep:
  "ensures (\<lambda>s'. (ledger_part s', s_positions s', s_tallies s', s_markets s') = (ledger_part s, s_positions s, s_tallies s, s_markets s))
     (commit_social p s)"
  unfolding commit_social_def Let_def
  by (intro ensures_trans[where g = "\<lambda>s. (ledger_part s, s_positions s, s_tallies s, s_markets s)"]
      ensures_fold_keeps[where g = "\<lambda>s. (ledger_part s, s_positions s, s_tallies s, s_markets s)"] ensures_Ok)
     (auto simp: ensures_def ledger_part_def commit_comment_def update_comment_def split: if_splits option.splits prod.splits)

lemma trades_keep:
  "(ledger_part (fold commit_trade ts s), s_positions (fold commit_trade ts s), s_tallies (fold commit_trade ts s), s_markets (fold commit_trade ts s)) =
     (ledger_part s, s_positions s, s_tallies s, s_markets s)"
  by (rule fold_keeps[where g = "\<lambda>s. (ledger_part s, s_positions s, s_tallies s, s_markets s)"])
     (simp add: commit_trade_def ledger_part_def)

lemma activity_writes:
  assumes "commit_activity p s = Ok s'" "p_votes p = []"
  shows "s_positions s' = fold (\<lambda>r. AList.update (pos_user r, pos_outcome r) r) (p_positions p) (s_positions s)"
    "ledger_part s' = ledger_part s" "s_tallies s' = s_tallies s" "s_markets s' = s_markets s"
proof -
  define s1 where "s1 = s\<lparr>s_positions := fold (\<lambda>r. AList.update (pos_user r, pos_outcome r) r) (p_positions p) (s_positions s)\<rparr>"
  define s2 where "s2 = fold commit_trade (p_trades p) s1"
  let ?g = "\<lambda>s. (ledger_part s, s_positions s, s_tallies s, s_markets s)"
  from assms obtain s3 where s3: "s3 = s2\<lparr>s_vote_seq := fold (\<lambda>(m, n). AList.update m n) (p_vote_seq p) (s_vote_seq s2)\<rparr>"
    "try_fold commit_score (p_vote_scores p) s3 = Ok s'"
    by (simp add: commit_activity_def Let_def s1_def s2_def)
  have "?g s' = ?g s3"
    by (rule try_fold_keeps[OF s3(2)]) (auto simp: commit_score_def ledger_part_def split: prod.splits option.splits)
  moreover have "?g s3 = ?g s2" by (simp add: s3(1) ledger_part_def)
  moreover have "?g s2 = ?g s1" unfolding s2_def by (rule trades_keep)
  ultimately show "s_positions s' = fold (\<lambda>r. AList.update (pos_user r, pos_outcome r) r) (p_positions p) (s_positions s)"
    "ledger_part s' = ledger_part s" "s_tallies s' = s_tallies s" "s_markets s' = s_markets s"
    by (simp_all add: s1_def ledger_part_def)
qed

lemma stage_writes:
  assumes "stage w = Ok s'" "p_votes (pending w) = []"
  obtains s s1 where "try_fold (commit_txn w) (p_txns (pending w)) (committed w) = Ok s" "commit_books (pending w) s = Ok s1"
    "ledger_part s' = ledger_part s" "s_markets s' = s_markets s1" "s_tallies s' = s_tallies (committed w)"
    "s_positions s' = fold (\<lambda>r. AList.update (pos_user r, pos_outcome r) r) (p_positions (pending w)) (s_positions (committed w))"
proof -
  from assms(1) obtain s s1 s2 s3 where s: "try_fold (commit_txn w) (p_txns (pending w)) (committed w) = Ok s"
    "commit_books (pending w) s = Ok s1" "commit_activity (pending w) s1 = Ok s2" "commit_people (pending w) s2 = Ok s3"
    "commit_social (pending w) s3 = Ok s'"
    by (auto simp: stage_def)
  have b: "but_ledger s = but_ledger (committed w)" using commit_txns_Ok[OF s(1)] by blast
  note c = books_keep[of s "pending w"] people_keep[of s2 "pending w"] social_keep[of s3 "pending w"]
  note a = activity_writes[OF s(3) assms(2)]
  show ?thesis
    using c s a but_ledger_fields(4,12)[OF b] by (intro that[OF s(1,2)]) (auto simp: ensures_def)
qed

lemma update_markets:
  "try_fold (\<lambda>s (m, x). update_market msg (f x) m s) xs s = Ok s' \<Longrightarrow>
     map_of (s_markets s') m = map_option (fold (\<lambda>(m', x) r. if m' = m then f x r else r) xs) (map_of (s_markets s) m)"
proof (induction xs arbitrary: s)
  case Nil
  then show ?case by (simp add: option.map_ident)
next
  case (Cons x xs)
  obtain m1 v where x: "x = (m1, v)" by (cases x)
  with Cons.prems obtain row where row: "map_of (s_markets s) m1 = Some row"
    "try_fold (\<lambda>s (m, x). update_market msg (f x) m s) xs (s\<lparr>s_markets := AList.update m1 (f v row) (s_markets s)\<rparr>) = Ok s'"
    by (auto simp: update_market_def split: option.splits)
  from Cons.IH[OF row(2)] show ?case using row(1) by (auto simp: x update_conv' option.map_comp comp_def)
qed

lemma updated_market_known:
  "try_fold (\<lambda>s (m, x). update_market msg (f x) m s) xs s = Ok s' \<Longrightarrow> m \<in> fst ` set xs \<Longrightarrow> map_of (s_markets s) m \<noteq> None"
proof (induction xs arbitrary: s)
  case (Cons x xs)
  obtain m1 v where x: "x = (m1, v)" by (cases x)
  with Cons.prems obtain row where row: "map_of (s_markets s) m1 = Some row"
    "try_fold (\<lambda>s (m, x). update_market msg (f x) m s) xs (s\<lparr>s_markets := AList.update m1 (f v row) (s_markets s)\<rparr>) = Ok s'"
    by (auto simp: update_market_def split: option.splits)
  show ?case
  proof (cases "m = m1")
    case True
    with row(1) show ?thesis by simp
  next
    case False
    with Cons.IH[OF row(2)] Cons.prems(2) x show ?thesis by (auto simp: update_conv')
  qed
qed simp

text \<open>What a settlement changes in a market row.\<close>

definition row_core :: "MarketRow \<Rightarrow> outcome_id \<times> outcome_id \<times> i32" where
  "row_core r = (yes_outcome r, no_outcome r, min_votes_to_resolve r)"

lemma row_core_updates:
  "row_core (r\<lparr>mk_state := a\<rparr>) = row_core r" "row_core (r\<lparr>curator_flagged_at := b\<rparr>) = row_core r"
  "row_core (r\<lparr>integrity_due_at := c\<rparr>) = row_core r"
  by (simp_all add: row_core_def)

lemma collateral_keeps:
  "try_fold (\<lambda>s (m, collateral). if map_of (s_markets s) m = None then Err e
      else Ok (s\<lparr>s_collateral_at_close := AList.update m collateral (s_collateral_at_close s)\<rparr>)) xs s = Ok s' \<Longrightarrow>
    s_markets s' = s_markets s"
  by (rule try_fold_keeps) (auto split: prod.splits if_splits)

lemma market_written:
  assumes "commit_books p s = Ok s'" "p_markets p = []" "p_market_states p = sts @ [(m, st)]"
  shows "\<exists>row row'. map_of (s_markets s) m = Some row \<and> map_of (s_markets s') m = Some row' \<and> mk_state row' = st \<and>
    row_core row' = row_core row"
proof -
  define s0 where "s0 = s\<lparr>s_pools := fold (\<lambda>(m, pool). AList.update m pool) (p_reserves p) (s_pools s),
               s_pool_seeded := fold (\<lambda>(m, seeded). AList.update m seeded) (p_pool_seeded p) (s_pool_seeded s),
               s_lp_results := fold (\<lambda>(m, r). AList.update m r) (p_lp_results p) (s_lp_results s)\<rparr>"
  from assms(1,2) obtain s1 s2 s3 where
    c: "try_fold (\<lambda>s (m, collateral).
         if map_of (s_markets s) m = None then Err (Invariant ''collateral write for unknown market'')
         else Ok (s\<lparr>s_collateral_at_close := AList.update m collateral (s_collateral_at_close s)\<rparr>))
       (p_collateral_at_close p) s0 = Ok s1" and
    1: "try_fold (\<lambda>s (m, st). update_market ''state write for unknown market'' (\<lambda>r. r\<lparr>mk_state := st\<rparr>) m s)
       (p_market_states p) s1 = Ok s2" and
    2: "try_fold (\<lambda>s (m, at). update_market ''curator flag for unknown market''
         (\<lambda>r. r\<lparr>curator_flagged_at := at\<rparr>) m s) (p_curator_flags p) s2 = Ok s3" and
    3: "try_fold (\<lambda>s (m, at). update_market ''integrity due write for unknown market''
         (\<lambda>r. r\<lparr>integrity_due_at := at\<rparr>) m s) (p_integrity_due_updates p) s3 = Ok s'"
    by (auto simp: commit_books_def s0_def Let_def simp del: try_fold_append)
  have s1: "s_markets s1 = s_markets s" using collateral_keeps[OF c] by (simp add: s0_def)
  have core: "row_core (fold (\<lambda>(m', x) r. if m' = m then f x r else r) xs r) = row_core r"
    if "\<And>x r. row_core (f x r) = row_core r" for f :: "'v \<Rightarrow> MarketRow \<Rightarrow> MarketRow" and xs r
    by (rule fold_keeps) (auto simp: that split: prod.split)
  have st: "mk_state (fold (\<lambda>(m', x) r. if m' = m then f x r else r) xs r) = mk_state r"
    if "\<And>x r. mk_state (f x r) = mk_state r" for f :: "'v \<Rightarrow> MarketRow \<Rightarrow> MarketRow" and xs r
    by (rule fold_keeps) (auto simp: that split: prod.split)
  have "m \<in> fst ` set (p_market_states p)" by (simp add: assms(3))
  from updated_market_known[OF 1 this] obtain row where row: "map_of (s_markets s) m = Some row" by (auto simp: s1)
  define r1 where "r1 = fold (\<lambda>(m', st) r. if m' = m then r\<lparr>mk_state := st\<rparr> else r) (p_market_states p) row"
  define r2 where "r2 = fold (\<lambda>(m', at) r. if m' = m then r\<lparr>curator_flagged_at := at\<rparr> else r) (p_curator_flags p) r1"
  define r3 where "r3 = fold (\<lambda>(m', at) r. if m' = m then r\<lparr>integrity_due_at := at\<rparr> else r) (p_integrity_due_updates p) r2"
  have "map_of (s_markets s') m = Some r3"
    using update_markets[OF 1, of m] update_markets[OF 2, of m] update_markets[OF 3, of m] row
    by (simp add: s1 r1_def r2_def r3_def)
  moreover have "mk_state r3 = mk_state r1" "row_core r3 = row_core r1"
    unfolding r3_def r2_def by (simp_all add: st core row_core_updates)
  moreover have "mk_state r1 = st" "row_core r1 = row_core row"
    unfolding r1_def by (simp add: assms(3), simp add: core row_core_updates)
  ultimately show ?thesis using row by auto
qed

section \<open>The holdings of a market\<close>

lemma concat_short: "list_all (\<lambda>x. length x \<le> 1) xss \<Longrightarrow> length (concat xss) \<le> length xss"
  by (induction xss) auto

lemma position_holding_Ok:
  assumes "position_holding s market p = Ok hs"
  shows "length hs \<le> 1"
    "\<And>h. h \<in> set hs \<Longrightarrow> \<exists>sd. side_of_outcome market (pos_outcome p) = Some sd \<and> hd_side h = sd \<and> hd_shares h = pos_shares p \<and>
       hd_outcome h = pos_outcome p \<and> hd_owner h = HolderUser (pos_user p) \<and>
       map_of (s_accounts s) (UserOwner (pos_user p), Usdc) = Some (hd_account h)"
    "side_of_outcome market (pos_outcome p) \<noteq> None \<Longrightarrow> pos_shares p \<noteq> 0 \<Longrightarrow> hs \<noteq> []"
  using assms by (auto simp: position_holding_def split: option.splits if_splits)

definition holds_of :: "State \<Rightarrow> MarketRow \<Rightarrow> market_id \<Rightarrow> Holding list list \<Rightarrow> Holding list \<Rightarrow> bool" where
  "holds_of s market m held pool \<longleftrightarrow> map_of (s_markets s) m = Some market \<and>
     list_all2 (\<lambda>p h. position_holding s market p = Ok h) (map snd (s_positions s)) held \<and> pool_holdings s market m = Ok pool"

lemma holdings_Ok:
  assumes "holdings m w = (Ok hs, w')"
  obtains market held pool where "w' = w" "holds_of (committed w) market m held pool" "mset hs = mset (concat held @ pool)"
  using assms by (auto simp: holdings_def run_simps Let_def holds_of_def try_map_Ok_iff)

lemma holder_accounts:
  assumes "holds_of s market m held pool" "h \<in> set (concat held @ pool)"
  shows "(\<exists>u. hd_owner h = HolderUser u \<and> map_of (s_accounts s) (UserOwner u, Usdc) = Some (hd_account h)) \<or>
    (hd_owner h = HolderPool \<and> map_of (s_accounts s) (MarketPool m, Usdc) = Some (hd_account h))"
proof (cases "h \<in> set pool")
  case True
  then show ?thesis using assms(1) by (auto simp: holds_of_def pool_holdings_def split: option.splits)
next
  case False
  then obtain l where l: "l \<in> set held" "h \<in> set l" using assms(2) by auto
  then obtain p where "position_holding s market p = Ok l"
    using assms(1) by (auto simp: holds_of_def list_all2_conv_all_nth in_set_conv_nth)
  from position_holding_Ok(2)[OF this l(2)] show ?thesis by auto
qed

lemma holdings_length:
  assumes "holds_of s market m held pool"
  shows "length (concat held @ pool) \<le> length (s_positions s) + 2"
proof -
  have "length held = length (s_positions s)" using assms by (auto simp: holds_of_def dest: list_all2_lengthD)
  moreover have "list_all (\<lambda>x. length x \<le> 1) held"
    using assms position_holding_Ok(1) by (fastforce simp: holds_of_def list_all2_conv_all_nth list_all_length)
  ultimately have "length (concat held) \<le> length (s_positions s)" using concat_short by fastforce
  moreover have "length pool \<le> 2" using assms by (auto simp: holds_of_def pool_holdings_def split: option.splits)
  ultimately show ?thesis by simp
qed

lemma position_held:
  assumes "holds_of s market m held pool" "(k, p) \<in> set (s_positions s)" "side_of_outcome market (pos_outcome p) \<noteq> None"
    "pos_shares p \<noteq> 0"
  shows "\<exists>h \<in> set (concat held @ pool). hd_owner h = HolderUser (pos_user p) \<and> hd_outcome h = pos_outcome p"
proof -
  from assms(2) obtain i where i: "i < length (s_positions s)" "s_positions s ! i = (k, p)" by (auto simp: in_set_conv_nth)
  then have h: "position_holding s market p = Ok (held ! i)" "i < length held"
    using assms(1) by (auto simp: holds_of_def list_all2_conv_all_nth)
  from position_holding_Ok(3)[OF h(1) assms(3,4)] obtain x where "x \<in> set (held ! i)" by (cases "held ! i") auto
  then show ?thesis using position_holding_Ok(2)[OF h(1)] h(2) by (fastforce simp: in_set_conv_nth)
qed

section \<open>The payout transaction\<close>

lemma pay_out_Ok:
  assumes "pay_out cmd bps escrow hs w = (Ok (s, txn), w')"
  obtains esc fees es at where "settle_market (map (\<lambda>h. (hd_account h, hd_side h, hd_shares h)) hs) bps escrow = Ok s"
    "settlement_entries esc fees s = Ok es" "quiet w w'" "ops w' = ops w"
    "map_of (s_accounts (committed w')) (MarketEscrow (rm_market cmd), Usdc) = Some esc"
    "map_of (s_accounts (committed w')) (FeesOwner, Usdc) = Some fees"
    "pending w' = (pending w)\<lparr>p_txns := p_txns (pending w) @ [booked (resolve_key (uuid_string w) (rm_market cmd)) txn Payout es at]\<rparr>"
proof -
  from assms obtain esc w1 fees w2 es key where
    s: "settle_market (map (\<lambda>h. (hd_account h, hd_side h, hd_shares h)) hs) bps escrow = Ok s" and
    1: "account (MarketEscrow (rm_market cmd)) Usdc w = (Ok esc, w1)" and 2: "account FeesOwner Usdc w1 = (Ok fees, w2)" and
    e: "settlement_entries esc fees s = Ok es" and key: "key = resolve_key (uuid_string w2) (rm_market cmd)" and
    3: "ledger_apply Payout key es w2 = (Ok txn, w')"
    by (auto simp: pay_out_def run_simps)
  note a = account_Ok[OF 1] account_Ok[OF 2] ledger_apply_Ok[OF 3]
  have q: "quiet w w2" "quiet w w'" using a framedD[OF quiet_writes(1) 3] quiet.trans by blast+
  have o: "ops w' = ops w"
    using framedD[OF same_ops_ledger_apply 3] 1 2
    by (auto simp: same_ops_def account_def run_simps put_account_def split: option.splits)
  have "map_of (s_accounts (committed w2)) (MarketEscrow (rm_market cmd), Usdc) = Some esc" using a quiet_accounts by blast
  then show ?thesis
    using a key quiet_tables(20)[OF q(1)] by (intro that[OF s e q(2) o]) auto
qed

section \<open>Closing the positions\<close>

definition closed_row :: "PositionRow \<Rightarrow> bool" where
  "closed_row q \<longleftrightarrow> pos_shares q = 0 \<and> pos_cost q = 0"

definition closes :: "Holding list \<Rightarrow> world \<Rightarrow> world \<Rightarrow> PositionRow list \<Rightarrow> bool" where
  "closes hs w w' qs \<longleftrightarrow> quiet w w' \<and> lots_typed w' = lots_typed w \<and>
     p_txns (pending w') = p_txns (pending w) \<and> p_market_states (pending w') = p_market_states (pending w) \<and>
     p_markets (pending w') = p_markets (pending w) \<and> p_votes (pending w') = p_votes (pending w) \<and>
     p_positions (pending w') = p_positions (pending w) @ qs \<and> list_all closed_row qs \<and>
     list_all (\<lambda>q. \<exists>h \<in> set hs. hd_owner h = HolderUser (pos_user q) \<and> hd_outcome h = pos_outcome q) qs \<and>
     list_all (\<lambda>h. \<forall>u. hd_owner h = HolderUser u \<longrightarrow> (\<exists>q \<in> set qs. pos_user q = u \<and> pos_outcome q = hd_outcome h)) hs"

lemma position_found:
  assumes "position_for_update u o' w = (Ok (Some q), w')" "positions_ok (committed w)"
  shows "w' = w \<and> pos_user q = u \<and> pos_outcome q = o'"
proof -
  have m: "pos_user q = u \<and> pos_outcome q = o'" if "map_of (s_positions (committed w)) (u, o') = Some q"
    using assms(2) map_of_SomeD[OF that] unfolding positions_ok_def by blast
  show ?thesis
  proof (cases "find (\<lambda>p. pos_user p = u \<and> pos_outcome p = o') (rev (p_positions (pending w)))")
    case None
    then show ?thesis using assms(1) m by (simp add: position_for_update_def run_simps)
  next
    case (Some p)
    then have "pos_user p = u \<and> pos_outcome p = o'" by (auto simp: find_Some_iff)
    with Some show ?thesis using assms(1) by (simp add: position_for_update_def run_simps)
  qed
qed

lemma settle_holding_Ok:
  assumes "settle_holding cmd v txn at acc (h, ap) w = (Ok acc', w')" "positions_ok (committed w)"
  obtains qs where "closes [h] w w' qs"
proof -
  obtain a payout where ap: "ap = (a, payout)" by (cases ap)
  have q: "quiet w w'" using framedD[OF quiet_settle_holding assms(1)] .
  show ?thesis
  proof (cases "hd_owner h")
    case HolderPool
    with assms(1) have "w' = w" by (simp add: settle_holding_def ap run_simps)
    with HolderPool show ?thesis by (intro that[of "[]"]) (simp add: closes_def)
  next
    case (HolderUser u)
    with assms(1) obtain q0 r w1 rz b where
      1: "position_for_update u (hd_outcome h) w = (Ok (Some q0), w1)" and
      2: "insert_realization rz (w1\<lparr>pending := (pending w1)\<lparr>p_positions := p_positions (pending w1) @
           [q0\<lparr>pos_realized_pnl := r, pos_shares := 0, pos_cost := 0\<rparr>]\<rparr>\<rparr>) = (Ok b, w')"
      by (auto simp: settle_holding_def ap run_simps save_position_def)
    note f = position_found[OF 1 assms(2)]
    obtain rzs where w': "w' = w\<lparr>pending := (pending w)\<lparr>p_positions := p_positions (pending w) @
        [q0\<lparr>pos_realized_pnl := r, pos_shares := 0, pos_cost := 0\<rparr>],
        p_realizations := p_realizations (pending w) @ rzs\<rparr>\<rparr>"
      using insert_realization_Ok[OF 2] f by auto
    show ?thesis
      by (intro that[of "[q0\<lparr>pos_realized_pnl := r, pos_shares := 0, pos_cost := 0\<rparr>]"])
         (use q HolderUser f in \<open>auto simp: closes_def w' closed_row_def lots_typed_def\<close>)
  qed
qed

lemma closes_append:
  assumes "closes hs w w' qs" "closes hs' w' w'' qs'"
  shows "closes (hs @ hs') w w'' (qs @ qs')"
proof -
  have "quiet w w''" using assms quiet.trans unfolding closes_def by blast
  moreover have "list_all (\<lambda>q. \<exists>h \<in> set (hs @ hs'). hd_owner h = HolderUser (pos_user q) \<and> hd_outcome h = pos_outcome q) (qs @ qs')"
    using assms unfolding closes_def list_all_iff set_append by blast
  moreover have "list_all (\<lambda>h. \<forall>u. hd_owner h = HolderUser u \<longrightarrow> (\<exists>q \<in> set (qs @ qs'). pos_user q = u \<and> pos_outcome q = hd_outcome h)) (hs @ hs')"
    using assms unfolding closes_def list_all_iff set_append by blast
  ultimately show ?thesis using assms unfolding closes_def by (simp del: set_append)
qed

lemma settle_holdings_Ok:
  assumes "for_fold (settle_holding cmd v txn at) rows acc w = (Ok acc', w')" "positions_ok (committed w)"
  shows "\<exists>qs. closes (map fst rows) w w' qs"
  using assms
proof (induction rows arbitrary: acc w)
  case Nil
  then show ?case by (intro exI[of _ "[]"]) (simp add: closes_def run_simps)
next
  case (Cons row rows)
  obtain h ap where row: "row = (h, ap)" by (cases row)
  with Cons.prems obtain acc1 w1 where 1: "settle_holding cmd v txn at acc (h, ap) w = (Ok acc1, w1)"
    "for_fold (settle_holding cmd v txn at) rows acc1 w1 = (Ok acc', w')" by (auto simp: run_simps)
  obtain qs where qs: "closes [h] w w1 qs" using settle_holding_Ok[OF 1(1) Cons.prems(2)] .
  then have "positions_ok (committed w1)" using Cons.prems(2) quiet_tables(3)[of w w1] by (simp add: closes_def positions_ok_def)
  from Cons.IH[OF 1(2) this] obtain qs' where "closes (map fst rows) w1 w' qs'" by blast
  from closes_append[OF qs this] show ?case by (auto simp: row)
qed

text \<open>The position table after the closed rows are written.\<close>

lemma fold_update_positions:
  "map_of (fold (\<lambda>r. AList.update (pos_user r, pos_outcome r) r) qs ps) k =
     (case find (\<lambda>q. (pos_user q, pos_outcome q) = k) (rev qs) of Some q \<Rightarrow> Some q | None \<Rightarrow> map_of ps k)"
proof (induction qs rule: rev_induct)
  case (snoc q qs)
  then show ?case by (auto simp: update_conv')
qed simp

section \<open>The run of a settlement\<close>

text \<open>
  What the stages after the payout add to the buffer: position rows, lifecycle steps and, as long as the lots
  are typed, ledger transactions off the escrow accounts.
\<close>

definition wrote :: "PositionRow list \<Rightarrow> (uuid \<times> MarketState) list \<Rightarrow> world \<Rightarrow> world \<Rightarrow> bool" where
  "wrote qs sts w w' \<longleftrightarrow> quiet w w' \<and> p_positions (pending w') = p_positions (pending w) @ qs \<and>
     p_market_states (pending w') = p_market_states (pending w) @ sts \<and>
     p_markets (pending w') = p_markets (pending w) \<and> p_votes (pending w') = p_votes (pending w) \<and>
     (lots_typed w \<longrightarrow> lots_typed w' \<and>
       (\<exists>ts. p_txns (pending w') = p_txns (pending w) @ ts \<and> list_all (plain_txn (committed w')) ts))"

lemma wrote_aside: "aside w w' \<Longrightarrow> wrote [] [] w w'"
  by (simp add: aside_def wrote_def keeps_def settled_rows_def)

lemma wrote_closes: "closes hs w w' qs \<Longrightarrow> wrote qs [] w w'"
  by (simp add: closes_def wrote_def)

lemma wrote_trans:
  assumes "wrote qs sts u v" "wrote qs' sts' v w"
  shows "wrote (qs @ qs') (sts @ sts') u w"
proof -
  have q: "quiet u v" "quiet v w" using assms by (simp_all add: wrote_def)
  have "lots_typed w \<and> (\<exists>ts. p_txns (pending w) = p_txns (pending u) @ ts \<and> list_all (plain_txn (committed w)) ts)"
    if "lots_typed u"
  proof -
    from assms(1) that obtain ts where 1: "lots_typed v" "p_txns (pending v) = p_txns (pending u) @ ts"
      "list_all (plain_txn (committed v)) ts" by (auto simp: wrote_def)
    from assms(2) 1 obtain ts' where 2: "lots_typed w" "p_txns (pending w) = p_txns (pending v) @ ts'"
      "list_all (plain_txn (committed w)) ts'" by (auto simp: wrote_def)
    have "list_all (plain_txn (committed w)) (ts @ ts')"
      using 1(3) 2(3) plain_txn_mono[OF q(2)] by (auto simp: list_all_iff)
    then show ?thesis using 1 2 by (intro conjI exI[of _ "ts @ ts'"]) simp_all
  qed
  then show ?thesis using assms quiet.trans[OF q] by (simp add: wrote_def)
qed

definition stepped :: "(uuid \<times> MarketState) list \<Rightarrow> world \<Rightarrow> world" where
  "stepped sts w = w\<lparr>pending := (pending w)\<lparr>p_market_states := p_market_states (pending w) @ sts\<rparr>\<rparr>"

lemma wrote_stepped: "wrote [] sts w (stepped sts w)"
  by (simp add: wrote_def stepped_def quiet_same lots_typed_def)

lemma advance_state_Ok:
  assumes "advance_state from ev m w = (Ok to, w')"
  shows "transition from ev = Ok to" "w' = stepped [(m, to)] w"
  using assms by (auto simp: advance_state_def run_simps buffer_market_state_def buffer_iff stepped_def split: if_splits)

lemma enter_resolving_Ok:
  assumes "enter_resolving cmd market w = (Ok r, w')"
  obtains sts where "r = Resolving" "w' = stepped sts w"
proof (cases "mk_state market = Resolving")
  case True
  with assms have "r = Resolving" "w' = stepped [] w" by (simp_all add: enter_resolving_def run_simps stepped_def)
  then show ?thesis by (rule that)
next
  case False
  with assms have a: "advance_state (mk_state market) StartIntegritySweep (rm_market cmd) w = (Ok r, w')"
    by (simp add: enter_resolving_def)
  have "r = Resolving" using advance_state_Ok(1)[OF a] by (cases "mk_state market") auto
  then show ?thesis using advance_state_Ok(2)[OF a] by (rule that)
qed

text \<open>A settled market ends in the state its outcome names.\<close>

definition final_state :: "bool \<Rightarrow> MarketState" where
  "final_state voided = (if voided then Voided else Paid)"

lemma close_market_Ok:
  assumes "close_market self cmd voided Resolving w = (Ok out, w')"
  shows "out = (if voided then VoidedOutcome else Settled)" "\<exists>sts. wrote [] (sts @ [(rm_market cmd, final_state voided)]) w w'"
proof -
  have "out = (if voided then VoidedOutcome else Settled) \<and> (\<exists>sts. wrote [] (sts @ [(rm_market cmd, final_state voided)]) w w')"
  proof (cases voided)
    case True
    with assms obtain to where a: "advance_state Resolving
        (if rm_curator_override cmd = Some VoidMarket then VoidByAdmin else VoidLowParticipation) (rm_market cmd) w = (Ok to, w')"
      and "out = VoidedOutcome"
      by (auto simp: close_market_def run_simps)
    moreover have "to = Voided" using advance_state_Ok(1)[OF a] by (auto split: if_splits)
    ultimately show ?thesis
      using True advance_state_Ok(2)[OF a] wrote_stepped[of "[(rm_market cmd, Voided)]" w]
      by (auto simp: final_state_def intro: exI[of _ "[]"])
  next
    case False
    with assms obtain r w1 p w2 n w3 k where 1: "advance_state Resolving Resolve (rm_market cmd) w = (Ok r, w1)" and
      2: "advance_state r Pay (rm_market cmd) w1 = (Ok p, w2)" and
      3: "move_market_fee_allocations (rm_market cmd) Finalized w2 = (Ok n, w3)" and
      4: "grant_referrals_on_paid (rs_order_t self) (rm_market cmd) w3 = (Ok k, w')" and "out = Settled"
      by (auto simp: close_market_def run_simps store_def)
    have "r = Resolved" using advance_state_Ok(1)[OF 1] by simp
    then have "p = Paid" using advance_state_Ok(1)[OF 2] by simp
    have "aside w2 w'"
      using yieldsD[OF aside_move_allocations 3] yieldsD[OF aside_grant_referrals 4] aside.trans by blast
    have "wrote [] [(rm_market cmd, r)] w w1" "wrote [] [(rm_market cmd, p)] w1 w2"
      unfolding advance_state_Ok(2)[OF 1] advance_state_Ok(2)[OF 2] by (rule wrote_stepped)+
    from wrote_trans[OF wrote_trans[OF this] wrote_aside[OF \<open>aside w2 w'\<close>]]
    show ?thesis using False \<open>out = Settled\<close> \<open>p = Paid\<close>
      by (intro conjI exI[of _ "[(rm_market cmd, r)]"]) (simp_all add: final_state_def)
  qed
  then show "out = (if voided then VoidedOutcome else Settled)" "\<exists>sts. wrote [] (sts @ [(rm_market cmd, final_state voided)]) w w'"
    by auto
qed

lemma payout_rows:
  assumes "settle_market (map (\<lambda>h. (hd_account h, hd_side h, hd_shares h)) hs) bps escrow = Ok s"
  shows "map fst (zip hs (payouts s)) = hs"
proof -
  have "length (payouts s) = length hs" using arg_cong[OF settle_market_Ok(1)[OF assms], of length] by simp
  then show ?thesis by simp
qed

lemma settle_now_Ok:
  assumes "settle_now self cmd market Resolving escrow reps w = (Ok receipt, w')" "positions_ok (committed w)"
  obtains votes interest voided bps hs s txn w1 qs sts wx wy wc where
    "fst (tally (rm_market cmd) w) = Ok votes" "choose_result self cmd market votes interest = Ok (voided, bps)"
    "holdings (rm_market cmd) w = (Ok hs, w)" "pay_out cmd bps escrow hs w = (Ok (s, txn), w1)"
    "wrote qs (sts @ [(rm_market cmd, final_state voided)]) w1 wc" "closes hs wx wy qs" "commit wc = (Ok (), w')"
    "receipt = \<lparr>rr_market = rm_market cmd, rr_outcome = (if voided then VoidedOutcome else Settled), rr_final_yes_bps = Some bps,
         rr_ledger_txn = Some txn, rr_replayed = False\<rparr>"
proof -
  let ?m = "rm_market cmd"
  from assms(1) obtain votes wt interest wi voided bps hs wh s txn w1 w2 w3 pp w5 reds w6 evs w7 out w8 w9 ev w10 v wc where
    t: "tally ?m w = (Ok votes, wt)" and oi: "open_interest ?m wt = (Ok interest, wi)" and ch: "choose_result self cmd market votes interest = Ok (voided, bps)" and
    h: "holdings ?m wi = (Ok hs, wh)" and p: "pay_out cmd bps escrow hs wh = (Ok (s, txn), w1)" and
    c: "for_each (collect_payout ?m) (payout_users (zip hs (payouts s))) w1 = (Ok (), w2)" and
    k: "set_collateral_at_close ?m escrow w2 = (Ok (), w3)" and
    f: "for_fold (settle_holding cmd voided txn (clock w3 0)) (zip hs (payouts s)) 0 (w3\<lparr>clock := \<lambda>n. clock w3 (Suc n)\<rparr>) = (Ok pp, w5)" and
    r: "record_results cmd market bps pp (clock w3 0) w5 = (Ok reds, w6)" and
    sc: "(if voided then ret [] else score_market self cmd market votes bps escrow reps) w6 = (Ok evs, w7)" and
    cl: "close_market self cmd voided Resolving w7 = (Ok out, w8)" and
    fl: "(if rm_curator_override cmd \<noteq> None then store (clear_curator_flag ?m) else ret ()) w8 = (Ok (), w9)" and
    ev: "append_batch ev w9 = (Ok (), w10)" and au: "audit_resolution self ?m (mk_state market) v w10 = (Ok (), wc)" and
    co: "commit wc = (Ok (), w')" and
    re: "receipt = \<lparr>rr_market = ?m, rr_outcome = out, rr_final_yes_bps = Some bps, rr_ledger_txn = Some txn, rr_replayed = False\<rparr>"
    by (auto simp: settle_now_def run_simps store_def Let_def)
  have wt: "wt = w" using t by (simp add: tally_def run_simps)
  have wi: "wi = w" using oi wt by (simp add: open_interest_def run_simps)
  have wh: "wh = w" by (rule holdings_Ok[OF h]) (simp add: wi)
  have sm: "map fst (zip hs (payouts s)) = hs" by (rule pay_out_Ok[OF p]) (rule payout_rows)
  have q1: "quiet w w1" by (rule pay_out_Ok[OF p]) (simp add: wh)
  have a2: "aside w1 w2" using yieldsD[OF aside.yields_for_each[OF aside_stages(1)] c] .
  have a3: "aside w2 (w3\<lparr>clock := \<lambda>n. clock w3 (Suc n)\<rparr>)"
    by (rule aside.trans[OF yieldsD[OF aside_writes(6) k]]) (simp add: aside_same quiet_same)
  have a6: "aside w5 w6" using yieldsD[OF aside_stages(2) r] .
  have a7: "aside w6 w7" using sc yieldsD[OF aside_stages(3)] aside.refl by (auto simp: run_simps split: if_splits)
  have a9: "aside w8 w9"
    using fl yieldsD[OF aside_writes(4)] aside.refl by (auto simp: run_simps store_def split: if_splits)
  have a10: "aside w9 w10" using yieldsD[OF aside_writes(7) ev] .
  have a11: "aside w10 wc" using yieldsD[OF aside_stages(4) au] .
  have q: "quiet w (w3\<lparr>clock := \<lambda>n. clock w3 (Suc n)\<rparr>)"
    using q1 a2 a3 quiet.trans unfolding aside_def by blast
  then have "positions_ok (committed (w3\<lparr>clock := \<lambda>n. clock w3 (Suc n)\<rparr>))"
    using assms(2) quiet_tables(3)[OF q] by (simp add: positions_ok_def)
  from settle_holdings_Ok[OF f this] obtain qs where qs: "closes hs (w3\<lparr>clock := \<lambda>n. clock w3 (Suc n)\<rparr>) w5 qs" by (auto simp: sm)
  note clo = close_market_Ok[OF cl]
  from clo(2) obtain sts where "wrote [] (sts @ [(?m, final_state voided)]) w7 w8" ..
  from wrote_trans[OF wrote_trans[OF wrote_trans[OF wrote_aside[OF aside.trans[OF a2 a3]] wrote_closes[OF qs]]
      wrote_aside[OF aside.trans[OF a6 a7]]] wrote_trans[OF this wrote_aside[OF aside.trans[OF aside.trans[OF a9 a10] a11]]]]
  have "wrote qs (sts @ [(?m, final_state voided)]) w1 wc" by simp
  with t ch h p co re clo(1) qs show ?thesis by (intro that) (auto simp: wh wi)
qed

lemma escrow_balance_Ok: "escrow_balance m w = (Ok b, w') \<Longrightarrow> w' = w \<and> escrow_of (committed w) m = Some b"
  by (auto simp: escrow_balance_def run_simps escrow_of_def)

lemma check_reviewed_unchanged: "check_reviewed cmd market w = (Ok x, w') \<Longrightarrow> w' = w"
  by (auto simp: check_reviewed_def run_simps store_def integrity_report_def split: if_splits option.splits)

lemma hold_receipt: "hold_for_review self cmd market r w = (Ok receipt, w') \<Longrightarrow> rr_final_yes_bps receipt = None"
  by (auto simp: hold_for_review_def run_simps Let_def)

lemma replayed_receipt: "replay_receipt m txn w = (Ok receipt, w') \<Longrightarrow> rr_replayed receipt"
  by (auto simp: replay_receipt_def run_simps)

text \<open>A run that is neither a replay nor a hold settles the market of the state it started in.\<close>

lemma resolve_market_fresh:
  assumes "resolve_market self cmd w = (Ok receipt, w')" "\<not> rr_replayed receipt" "rr_final_yes_bps receipt \<noteq> None"
  obtains market sts escrow reps where "market_view (started w) (rm_market cmd) = Some market"
    "escrow_of (committed w) (rm_market cmd) = Some escrow"
    "settle_now self cmd market Resolving escrow reps (stepped sts (started w)) = (Ok receipt, w')"
proof -
  let ?m = "rm_market cmd"
  from assms(1) have 0: "resolve_attempt self cmd w = (Ok (Some receipt), w')"
    by (auto simp: resolve_market_eq run_simps)
  have "txn_by_key (resolve_key (uuid_string w) ?m) (started w) \<noteq> (Ok (Some t), started w)" for t
    using 0 assms(2) replayed_receipt[of ?m t "started w" receipt w']
    by (auto simp: resolve_attempt_def run_simps open_tx_def buffer_iff started_def store_def)
  with 0 obtain market wr w1 w2 escrow reps r where
    v: "market_view (started w) ?m = Some market" and 1: "check_reviewed cmd market (started w) = (Ok (), w1)" and
    2: "enter_resolving cmd market w1 = (Ok r, w2)" and 3: "escrow_balance ?m w2 = (Ok escrow, wr)" and
    4: "hold_for_review self cmd market r wr = (Ok receipt, w') \<or> settle_now self cmd market r escrow reps wr = (Ok receipt, w')"
    by (auto simp: resolve_attempt_def run_simps open_tx_def buffer_iff started_def store_def txn_by_key_def participants_iff
       reps_for_update_def market_for_update_def Let_def split: if_splits option.splits) blast+
  obtain sts where sts: "r = Resolving" "w2 = stepped sts (started w)"
    by (rule enter_resolving_Ok[OF 2]) (use check_reviewed_unchanged[OF 1] in blast)
  note e = escrow_balance_Ok[OF 3]
  have "settle_now self cmd market r escrow reps wr = (Ok receipt, w')"
    using 4 assms(3) hold_receipt[of self cmd market r wr receipt w'] by auto
  with v e sts show ?thesis by (intro that) (auto simp: stepped_def started_def)
qed

text \<open>
  A settlement up to its commit: the holdings and the escrow are those of the committed state, the payout is
  the one transaction that touches the escrow, the position rows close the holdings, and the last
  lifecycle step is the final state of the market.
\<close>

definition settles ::
  "ResolveMarketCmd \<Rightarrow> world \<Rightarrow> micro_usd \<Rightarrow> bool \<Rightarrow> u16 \<Rightarrow> Holding list \<Rightarrow> Settlement \<Rightarrow> uuid \<Rightarrow> Entry list \<Rightarrow>
     PendingTxn list \<Rightarrow> PositionRow list \<Rightarrow> world \<Rightarrow> bool" where
  "settles cmd w escrow voided bps hs s txn es ts qs wc \<longleftrightarrow>
     quiet w wc \<and> escrow_of (committed w) (rm_market cmd) = Some escrow \<and> fst (holdings (rm_market cmd) w) = Ok hs \<and>
     settle_market (map (\<lambda>h. (hd_account h, hd_side h, hd_shares h)) hs) bps escrow = Ok s \<and>
     (\<exists>esc fees at. settlement_entries esc fees s = Ok es \<and>
        map_of (s_accounts (committed wc)) (MarketEscrow (rm_market cmd), Usdc) = Some esc \<and>
        map_of (s_accounts (committed wc)) (FeesOwner, Usdc) = Some fees \<and>
        p_txns (pending wc) = booked (resolve_key (uuid_string w) (rm_market cmd)) txn Payout es at # ts) \<and>
     list_all (plain_txn (committed wc)) ts \<and> p_positions (pending wc) = qs \<and> (\<exists>wx wy. closes hs wx wy qs) \<and>
     (\<exists>sts. p_market_states (pending wc) = sts @ [(rm_market cmd, final_state voided)]) \<and>
     p_markets (pending wc) = [] \<and> p_votes (pending wc) = []"

lemma resolve_market_settles:
  assumes "resolve_market self cmd w = (Ok receipt, w')" "\<not> rr_replayed receipt" "rr_final_yes_bps receipt \<noteq> None"
    "positions_ok (committed w)" "store_typed (committed w)"
  obtains market votes interest escrow voided bps hs s txn es ts qs wc where
    "market_view (started w) (rm_market cmd) = Some market" "fst (tally (rm_market cmd) w) = Ok votes"
    "choose_result self cmd market votes interest = Ok (voided, bps)"
    "settles cmd w escrow voided bps hs s txn es ts qs wc" "commit wc = (Ok (), w')"
    "receipt = \<lparr>rr_market = rm_market cmd, rr_outcome = (if voided then VoidedOutcome else Settled), rr_final_yes_bps = Some bps,
         rr_ledger_txn = Some txn, rr_replayed = False\<rparr>"
proof -
  let ?m = "rm_market cmd"
  obtain market sts0 escrow reps where v: "market_view (started w) ?m = Some market" and
    e: "escrow_of (committed w) ?m = Some escrow" and
    n: "settle_now self cmd market Resolving escrow reps (stepped sts0 (started w)) = (Ok receipt, w')"
    by (rule resolve_market_fresh[OF assms(1-3)])
  let ?w0 = "stepped sts0 (started w)"
  have w0: "committed ?w0 = committed w" "uuid_string ?w0 = uuid_string w" "quiet w ?w0"
    "pending ?w0 = Pending_default\<lparr>p_market_states := sts0\<rparr>"
    by (simp_all add: stepped_def started_def Pending_default_def quiet_same)
  have pos: "positions_ok (committed ?w0)" using assms(4) w0(1) by simp
  show ?thesis
  proof (rule settle_now_Ok[OF n pos])
    fix votes interest voided bps hs s txn w1 qs sts wx wy wc
    assume t: "fst (tally ?m ?w0) = Ok votes" and ch: "choose_result self cmd market votes interest = Ok (voided, bps)"
      and h: "holdings ?m ?w0 = (Ok hs, ?w0)" and p: "pay_out cmd bps escrow hs ?w0 = (Ok (s, txn), w1)"
      and wr: "wrote qs (sts @ [(?m, final_state voided)]) w1 wc" and cl: "closes hs wx wy qs" and co: "commit wc = (Ok (), w')"
      and re: "receipt = \<lparr>rr_market = ?m, rr_outcome = (if voided then VoidedOutcome else Settled), rr_final_yes_bps = Some bps,
         rr_ledger_txn = Some txn, rr_replayed = False\<rparr>"
    have tv: "fst (tally ?m w) = Ok votes" "fst (holdings ?m w) = Ok hs"
      using t h w0(1) by (simp_all add: tally_def asks_def holdings_def inquire_def Let_def)
    show ?thesis
    proof (rule pay_out_Ok[OF p])
      fix esc fees es at
      assume s: "settle_market (map (\<lambda>h. (hd_account h, hd_side h, hd_shares h)) hs) bps escrow = Ok s"
        "settlement_entries esc fees s = Ok es" "quiet ?w0 w1"
        "map_of (s_accounts (committed w1)) (MarketEscrow ?m, Usdc) = Some esc"
        "map_of (s_accounts (committed w1)) (FeesOwner, Usdc) = Some fees"
        "pending w1 = (pending ?w0)\<lparr>p_txns := p_txns (pending ?w0) @ [booked (resolve_key (uuid_string ?w0) ?m) txn Payout es at]\<rparr>"
      have "lots_typed w1"
        using assms(5) quiet_tables(14)[OF s(3)] w0(1,4)
        by (simp add: lots_typed_def store_typed_def s(6) Pending_default_def Phase7Pending_default_def)
      with wr obtain ts where ts: "p_txns (pending wc) = p_txns (pending w1) @ ts" "list_all (plain_txn (committed wc)) ts"
        by (auto simp: wrote_def)
      have q: "quiet w1 wc" "quiet w wc" using wr w0(3) s(3) quiet.trans unfolding wrote_def by blast+
      have "settles cmd w escrow voided bps hs s txn es ts qs wc"
        unfolding settles_def
        using q e tv(2) s quiet_accounts[OF q(1)] ts wr cl w0(2,4)
        by (auto simp: wrote_def Pending_default_def)
      from that[OF v tv(1) ch this co re] show ?thesis .
    qed
  qed
qed

section \<open>What a settlement commits\<close>

lemma held_accounts:
  assumes "fst (holdings m w) = Ok hs" "quiet w wc" "accounts_apart (committed wc)"
    "map_of (s_accounts (committed wc)) (MarketEscrow m', Usdc) = Some esc"
  shows "esc \<notin> hd_account ` set hs" "length hs \<le> length (s_positions (committed w)) + 2"
proof -
  have "holdings m w = (Ok hs, w)" using assms(1) by (auto simp: holdings_def inquire_def)
  then obtain market held pool where h: "holds_of (committed w) market m held pool" "mset hs = mset (concat held @ pool)"
    by (rule holdings_Ok)
  show "length hs \<le> length (s_positions (committed w)) + 2" using holdings_length[OF h(1)] mset_eq_length[OF h(2)] by simp
  have "hd_account x \<noteq> esc" if "x \<in> set hs" for x
  proof -
    have "x \<in> set (concat held @ pool)" using that mset_eq_setD[OF h(2)] by simp
    from holder_accounts[OF h(1) this] obtain k where k: "map_of (s_accounts (committed wc)) (k, Usdc) = Some (hd_account x)"
      "k \<noteq> MarketEscrow m'"
      using quiet_accounts[OF assms(2)] by blast
    show ?thesis using k assms(3,4) unfolding accounts_apart_def by blast
  qed
  then show "esc \<notin> hd_account ` set hs" by blast
qed

lemma settlement_untouched:
  assumes "settle_market hs bps escrow = Ok s" "settlement_entries esc fees s = Ok es" "a \<notin> fst ` set hs" "a \<noteq> esc" "a \<noteq> fees"
  shows "delta_of es a = 0"
proof -
  have "fst ` set (payouts s) = fst ` set hs" using settle_market_Ok(1)[OF assms(1)] by (metis set_map)
  then have "delta_of (payout_legs (payouts s)) a = 0" using assms(3) payout_elsewhere[of a "payouts s"] by (simp add: delta_payout_legs)
  then show ?thesis
    using assms(4,5) by (simp add: settlement_entries_Ok(1)[OF assms(2)] delta_of_append) (simp add: delta_payout_legs)
qed

lemma commit_txns_keep_key:
  "try_fold (commit_txn v) ts s = Ok s' \<Longrightarrow> map_of (s_txn_keys s) k = Some i \<Longrightarrow> map_of (s_txn_keys s') k = Some i"
proof (induction ts arbitrary: s)
  case (Cons t ts)
  then obtain s1 where s1: "commit_txn v s t = Ok s1" "try_fold (commit_txn v) ts s1 = Ok s'" by auto
  have "map_of (s_txn_keys s1) k = Some i"
    using s1(1) Cons.prems(2) by (auto simp: commit_txn_def update_conv' split: if_splits)
  then show ?case by (rule Cons.IH[OF s1(2)])
qed simp

lemma commit_first_key:
  assumes "try_fold (commit_txn v) (t # ts) s = Ok s'"
  shows "map_of (s_txn_keys s') (pt_key t) = Some (pt_id t)"
proof -
  from assms obtain s1 where s1: "commit_txn v s t = Ok s1" "try_fold (commit_txn v) ts s1 = Ok s'" by auto
  have "map_of (s_txn_keys s1) (pt_key t) = Some (pt_id t)"
    using s1(1) by (auto simp: commit_txn_def update_conv' split: if_splits)
  then show ?thesis by (rule commit_txns_keep_key[OF s1(2)])
qed

lemma settles_commit:
  assumes "settles cmd w escrow voided bps hs s txn es ts qs wc" "commit wc = (Ok (), w')"
  obtains s0 s1 where "try_fold (commit_txn wc) (p_txns (pending wc)) (committed wc) = Ok s0"
    "commit_books (pending wc) s0 = Ok s1"
    "ledger_part (committed w') = ledger_part s0" "s_markets (committed w') = s_markets s1"
    "s_tallies (committed w') = s_tallies (committed w)"
    "s_positions (committed w') = fold (\<lambda>r. AList.update (pos_user r, pos_outcome r) r) qs (s_positions (committed w))"
    "uuid_string w' = uuid_string w"
proof -
  from commit_Ok[OF assms(2)] obtain st s6 s7 where st: "stage wc = Ok st"
    "committed w' = st\<lparr>phase6 := s6, phase7 := s7, s_outbox := s_outbox st @ p_events (pending wc)\<rparr>" "uuid_string w' = uuid_string wc"
    by blast
  have q: "quiet w wc" and v: "p_votes (pending wc) = []" and p: "p_positions (pending wc) = qs" using assms(1) by (auto simp: settles_def)
  show ?thesis
    by (rule stage_writes[OF st(1) v], rule that)
       (use st(2,3) p quiet_tables(3,20)[OF q] in \<open>auto simp: ledger_part_def quiet_tables[OF q]\<close>)
qed

lemma settles_ledger:
  assumes "settles cmd w escrow voided bps hs s txn es ts qs wc" "commit wc = (Ok (), w')"
    "books_ok (committed w)" "is_order (order_d w)" "is_order (order_c w)" "accounts_apart (committed w')"
    "length (s_positions (committed w)) + 4 \<le> 9223372036854775807"
  shows "escrow_of (committed w) m = Some b \<Longrightarrow>
      escrow_of (committed w') m = Some (if m = rm_market cmd then 0 else b)"
    "map_of (s_txn_keys (committed w')) (resolve_key (uuid_string w) (rm_market cmd)) = Some txn"
    "books_ok (committed w')"
proof -
  let ?m = "rm_market cmd"
  obtain s0 s1 where c: "try_fold (commit_txn wc) (p_txns (pending wc)) (committed wc) = Ok s0"
    "ledger_part (committed w') = ledger_part s0"
    by (rule settles_commit[OF assms(1,2)])
  obtain esc fees at where a: "settlement_entries esc fees s = Ok es"
    "map_of (s_accounts (committed wc)) (MarketEscrow ?m, Usdc) = Some esc"
    "map_of (s_accounts (committed wc)) (FeesOwner, Usdc) = Some fees"
    "p_txns (pending wc) = booked (resolve_key (uuid_string w) ?m) txn Payout es at # ts"
    using assms(1) unfolding settles_def by blast
  have q: "quiet w wc" and e: "escrow_of (committed w) ?m = Some escrow" and h: "fst (holdings ?m w) = Ok hs" and
    sm: "settle_market (map (\<lambda>h. (hd_account h, hd_side h, hd_shares h)) hs) bps escrow = Ok s" and
    pl: "list_all (plain_txn (committed wc)) ts"
    using assms(1) by (auto simp: settles_def)
  have l: "s_balances (committed w') = s_balances s0" "s_txn_keys (committed w') = s_txn_keys s0"
    "s_accounts (committed w') = s_accounts (committed wc)"
    using c(2) but_ledger_fields(1)[of s0 "committed wc"] commit_txns_Ok[OF c(1)] by (simp_all add: ledger_part_def)
  then have apart: "accounts_apart (committed wc)" using assms(6) by (simp add: accounts_apart_def)
  note ha = held_accounts[OF h q apart a(2)]
  have "esc \<noteq> fees" using a(2,3) apart unfolding accounts_apart_def by blast
  note d = settlement_delta[OF sm a(1) _ this]
  have d: "delta_of es esc = - escrow" "wf_entries es" using d ha assms(7) by (simp_all add: image_image comp_def)
  show "map_of (s_txn_keys (committed w')) (resolve_key (uuid_string w) ?m) = Some txn"
    using commit_first_key[OF c(1)[unfolded a(4)]] l(2) by (simp add: booked_def)
  have wfs: "list_all (\<lambda>t. wf_entries (txn_entries (pt_txn t))) (p_txns (pending wc))"
    using pl d(2) by (auto simp: a(4) list_all_iff plain_txn_def booked_def)
  have ok: "books_ok (committed wc)" using q assms(3) by (simp add: quiet_def)
  have od: "is_order (order_d wc)" "is_order (order_c wc)" using assms(4,5) quiet_tables(21,22)[OF q] by simp_all
  have post: "ledger_inv (s_balances s0)"
    "balance (s_balances s0) x = map_option (\<lambda>v. v + sum_list (map (\<lambda>t. delta_of (txn_entries (pt_txn t)) x) (p_txns (pending wc))))
      (balance (s_balances (committed wc)) x)" for x
    using commit_txns_balances[OF c(1) wfs _ od] ok by (auto simp: books_ok_def)
  show "books_ok (committed w')" using ok post(1) by (auto simp: books_ok_def l post(2))
  show "escrow_of (committed w') m = Some (if m = ?m then 0 else b)" if e': "escrow_of (committed w) m = Some b"
  proof -
    from escrow_of_quiet[OF q e'] obtain x where x: "map_of (s_accounts (committed wc)) (MarketEscrow m, Usdc) = Some x"
      "balance (s_balances (committed wc)) x = Some b" by (auto simp: escrow_of_def bind_eq_Some_conv)
    have "sum_list (map (\<lambda>t. delta_of (txn_entries (pt_txn t)) x) ts) = 0"
      using pl plain_txn_escrow[OF _ apart x(1)] by (intro sum_list_all_zero) (auto simp: list_all_iff)
    then have "balance (s_balances s0) x = Some (b + delta_of es x)" by (simp add: post(2) x(2) a(4) booked_def)
    moreover have "b + delta_of es x = (if m = ?m then 0 else b)"
    proof (cases "m = ?m")
      case True
      then show ?thesis using x a(2) d(1) e e' by simp
    next
      case False
      then show ?thesis using settlement_untouched[OF sm a(1)] held_accounts(1)[OF h q apart x(1)] x(1) a(2,3) apart
        unfolding accounts_apart_def by (simp add: image_image comp_def) blast
    qed
    ultimately show ?thesis using x(1) l by (simp add: escrow_of_def)
  qed
qed

lemma fold_update_distinct:
  "distinct (map fst ps) \<Longrightarrow> distinct (map fst (fold (\<lambda>r. AList.update (pos_user r, pos_outcome r) r) qs ps))"
  by (induction qs arbitrary: ps) (simp_all add: distinct_update)

lemma find_SomeD: "find P xs = Some x \<Longrightarrow> x \<in> set xs \<and> P x"
  by (induction xs) (auto split: if_splits)

lemma holder_side:
  assumes "holds_of s market m held pool" "h \<in> set (concat held @ pool)" "hd_owner h = HolderUser u"
  shows "side_of_outcome market (hd_outcome h) \<noteq> None"
proof -
  have "h \<notin> set pool" using assms(1,3) by (auto simp: holds_of_def pool_holdings_def split: option.splits)
  with assms(2) obtain l where l: "l \<in> set held" "h \<in> set l" by auto
  then obtain p where "position_holding s market p = Ok l"
    using assms(1) by (auto simp: holds_of_def list_all2_conv_all_nth in_set_conv_nth)
  from position_holding_Ok(2)[OF this l(2)] show ?thesis by auto
qed

lemma settles_positions:
  assumes "settles cmd w escrow voided bps hs s txn es ts qs wc" "commit wc = (Ok (), w')" "positions_ok (committed w)"
    "map_of (s_markets (committed w)) (rm_market cmd) = Some market"
  shows "(k, p) \<in> set (s_positions (committed w')) \<Longrightarrow> side_of_outcome market (pos_outcome p) \<noteq> None \<Longrightarrow> pos_shares p = 0"
    "side_of_outcome market o' = None \<Longrightarrow> map_of (s_positions (committed w')) (u, o') = map_of (s_positions (committed w)) (u, o')"
proof -
  obtain wx wy where cl: "closes hs wx wy qs" and "fst (holdings (rm_market cmd) w) = Ok hs" using assms(1) unfolding settles_def by blast
  then have "holdings (rm_market cmd) w = (Ok hs, w)" by (auto simp: holdings_def inquire_def)
  then obtain held pool where h: "holds_of (committed w) market (rm_market cmd) held pool" "mset hs = mset (concat held @ pool)"
    by (rule holdings_Ok) (use assms(4) in \<open>auto simp: holds_of_def\<close>)
  note hset = mset_eq_setD[OF h(2)]
  have all_closed: "\<forall>q \<in> set qs. closed_row q"
    and held_rows: "\<forall>q \<in> set qs. \<exists>h \<in> set hs. hd_owner h = HolderUser (pos_user q) \<and> hd_outcome h = pos_outcome q"
    and row_held: "\<forall>h \<in> set hs. \<forall>u. hd_owner h = HolderUser u \<longrightarrow> (\<exists>q \<in> set qs. pos_user q = u \<and> pos_outcome q = hd_outcome h)"
    using cl by (simp_all add: closes_def list_all_iff)
  have t: "s_positions (committed w') = fold (\<lambda>r. AList.update (pos_user r, pos_outcome r) r) qs (s_positions (committed w))"
    by (rule settles_commit[OF assms(1,2)])
  note look = fold_update_positions[of qs "s_positions (committed w)", folded t]
  have d: "distinct (map fst (s_positions (committed w)))" and
    key: "\<And>k p. (k, p) \<in> set (s_positions (committed w)) \<Longrightarrow> k = (pos_user p, pos_outcome p)"
    using assms(3) by (auto simp: positions_ok_def)
  show "pos_shares p = 0" if "(k, p) \<in> set (s_positions (committed w'))" "side_of_outcome market (pos_outcome p) \<noteq> None"
  proof -
    have m: "map_of (s_positions (committed w')) k = Some p" using that(1) fold_update_distinct[OF d, of qs] by (simp add: t)
    show ?thesis
    proof (cases "find (\<lambda>q. (pos_user q, pos_outcome q) = k) (rev qs)")
      case (Some q)
      then have "p = q" using m look[of k] by simp
      moreover have "q \<in> set qs" using find_SomeD[OF Some] by simp
      ultimately show ?thesis using all_closed by (simp add: closed_row_def)
    next
      case None
      then have kp: "(k, p) \<in> set (s_positions (committed w))" using m look[of k] map_of_SomeD by force
      note no = None[unfolded find_None_iff set_rev]
      show ?thesis
      proof (rule ccontr)
        assume "pos_shares p \<noteq> 0"
        from position_held[OF h(1) kp that(2) this] hset obtain x where "x \<in> set hs" "hd_owner x = HolderUser (pos_user p)"
          "hd_outcome x = pos_outcome p" by auto
        with row_held obtain q where "q \<in> set qs" "pos_user q = pos_user p" "pos_outcome q = pos_outcome p" by fastforce
        then show False using no key[OF kp] by auto
      qed
    qed
  qed
  show "map_of (s_positions (committed w')) (u, o') = map_of (s_positions (committed w)) (u, o')"
    if "side_of_outcome market o' = None"
  proof -
    have "pos_outcome q \<noteq> o'" if "q \<in> set qs" for q
    proof -
      from held_rows that obtain x where "x \<in> set hs" "hd_owner x = HolderUser (pos_user q)" "hd_outcome x = pos_outcome q"
        by fastforce
      with holder_side[OF h(1), of x] hset \<open>side_of_outcome market o' = None\<close> show ?thesis by auto
    qed
    then have "find (\<lambda>q. (pos_user q, pos_outcome q) = (u, o')) (rev qs) = None" by (auto simp: find_None_iff)
    then show ?thesis using look[of "(u, o')"] by simp
  qed
qed

lemma settles_market:
  assumes "settles cmd w escrow voided bps hs s txn es ts qs wc" "commit wc = (Ok (), w')"
  obtains row row' where "map_of (s_markets (committed w)) (rm_market cmd) = Some row"
    "map_of (s_markets (committed w')) (rm_market cmd) = Some row'" "mk_state row' = final_state voided" "row_core row' = row_core row"
proof (rule settles_commit[OF assms])
  fix s0 s1
  assume c: "try_fold (commit_txn wc) (p_txns (pending wc)) (committed wc) = Ok s0" "commit_books (pending wc) s0 = Ok s1"
    "s_markets (committed w') = s_markets s1"
  obtain sts where "p_market_states (pending wc) = sts @ [(rm_market cmd, final_state voided)]" "p_markets (pending wc) = []" "quiet w wc"
    using assms(1) unfolding settles_def by blast
  moreover have "s_markets s0 = s_markets (committed wc)" using commit_txns_Ok[OF c(1)] but_ledger_fields by blast
  ultimately show ?thesis
    using market_written[OF c(2)] c(3) quiet_tables(1)[of w wc] by (auto intro!: that)
qed

end
