(* ===== verification/Spec2Isabelle.thy ===== *)
theory Spec2Isabelle
  imports Resolution Market Voting Integrity Rendering Drafting Payouts
begin

text \<open>
  A verification library for \<open>opinions\<close>, a market in which shares of an opinion trade against an automated
  market maker and redeem at the final vote share. The program is a Rust workspace. \<open>crates/domain\<close> holds the
  pure rules: money, ledger, market maker, lifecycle, resolution, scoring, integrity, rendering, drafting.
  \<open>crates/application\<close> holds the use cases, which run against a store through port traits; its in-memory
  store (\<open>application/src/fakes\<close>) is the reference that the contract suites compare the Postgres store with.
  Paths below are under \<open>src/crates/\<close>.

  \<^bold>\<open>How the code is modelled.\<close> A fallible function returns an \<open>outcome\<close>: \<open>Ok\<close>, \<open>Err\<close>, or \<open>Panic\<close> where Rust
  would panic (overflow in an unchecked operation, an index out of range). Integers are \<open>int\<close> with the width
  checked at each operation (\<open>arith\<close> for unchecked, \<open>checked\<close> for checked arithmetic), or words in \<open>Voting\<close>
  where the source computes in 16 bits. A uuid is a 128-bit word, a string a list of code points, a hash map an
  association list; where the iteration order of a hash map can be observed it is a parameter. An asynchronous use
  case is an \<open>action\<close> on a \<open>world\<close>: the committed state, the buffer of the open transaction, the configuration
  plane, and the streams of fresh uuids and clock readings. What an aborted call has already done stays done
  in the model, so that atomicity is a theorem and not an assumption.

  \<^bold>\<open>The theories.\<close>

  \<^item> \<open>Prelude\<close>: outcomes, widths, checked arithmetic, association lists. \<open>Actions\<close>: state-passing actions and
    the locale \<open>frame\<close> of relations that runs keep.
  \<^item> \<open>Money\<close> (\<open>domain/src/money.rs\<close>, \<open>fee_policy.rs\<close>): a fee splits an amount exactly; the effective fee is bounded.
  \<^item> \<open>Ledger\<close> (\<open>domain/src/ledger.rs\<close>): the double-entry ledger refines an abstract book, a locale with the
    iteration orders of the code's hash maps as parameters; it conserves value, never overdraws an internal
    account, and refuses exactly the transactions that the book refuses.
  \<^item> \<open>Amm\<close> (\<open>domain/src/amm.rs\<close>): closed forms of both quotes, the integer square root, no arbitrage, price bounds.
  \<^item> \<open>Market\<close> (\<open>domain/src/market.rs\<close>): the lifecycle, as an instance of the locale \<open>lifecycle\<close> of machines whose
    events raise a rank.
  \<^item> \<open>Resolution\<close> (\<open>domain/src/resolution.rs\<close>): settlement succeeds exactly on complete holdings and pays out the
    escrow. \<open>Voting\<close> (\<open>scoring.rs\<close>, \<open>reputation.rs\<close>, \<open>ranking.rs\<close>): scores, reputation and hot scores.
    \<open>Integrity\<close> (\<open>integrity.rs\<close>): the vote sweep.
  \<^item> \<open>Text\<close>, \<open>Rendering\<close>, \<open>Drafting\<close> (\<open>mentions.rs\<close>, \<open>moderation.rs\<close>, \<open>render_spec.rs\<close>, \<open>drafting.rs\<close>): mentions, comment
    screening, cards, drafts and slots. Unicode normalisation and case mapping are parameters.
  \<^item> \<open>Model\<close>, \<open>MoneyTypes\<close> (\<open>application/src/model.rs\<close>, \<open>error.rs\<close>, \<open>money/\<close>): rows, commands, errors, wire names.
  \<^item> \<open>Store\<close> (\<open>application/src/fakes/state.rs\<close>, \<open>core.rs\<close>, \<open>market.rs\<close>, \<open>ops.rs\<close>): state, buffer, layered reads, writes
    and the commit; \<open>quiet\<close> is what a transaction may change before it commits. \<open>Commits\<close>: what a commit writes.
  \<^item> \<open>Credits\<close> (\<open>money/credits.rs\<close>, \<open>fakes/credit.rs\<close>): the waterfall over credit lots and the allocation log, in
    which no lot is overdrawn. \<open>Enforcement\<close> (\<open>money/enforcement.rs\<close>): the money gate. \<open>Collection\<close>
    (\<open>ops/receivable_collection.rs\<close>): automatic collection and conversion.
  \<^item> \<open>Requests\<close> (\<open>ops/config.rs\<close>): request fingerprints, pauses and the staleness of previews.
  \<^item> \<open>Trading\<close> (\<open>place_trade.rs\<close>, \<open>preview_trade.rs\<close>): both use cases whole. \<open>Placement\<close>: a trade is all or nothing,
    happens at most once per key, passes every gate, and books what its preview showed. \<open>Backing\<close>: over any
    session of trades, a market's ledger escrow equals the shares outstanding on either side.
  \<^item> \<open>Grants\<close> (\<open>money/credits.rs\<close>, \<open>money/referrals.rs\<close>): credit grants, referral codes, binds and grants.
  \<^item> \<open>Settling\<close> (\<open>resolve_market.rs\<close>): resolving a market, stage by stage.

  \<^bold>\<open>Composition.\<close> \<open>market_solvent\<close> below joins the market maker and settlement: whatever is traded, the pool and
  the traders hold complete sets of the escrow, so settlement succeeds.

  \<^bold>\<open>Bounds and fuel.\<close> Loops are structural recursions, or have a measure: no definition runs on fuel except the
  attempts of \<open>resolve_market\<close>, which are the source's own constant of four. Hypotheses on widths say that a
  value is of its Rust type; those on list lengths, that a vector fits in memory. Hypotheses on the store
  (\<open>books_ok\<close>, \<open>positions_ok\<close>, \<open>accounts_apart\<close>, \<open>outcomes_ok\<close>) are invariants that the use cases keep, or, for
  distinct accounts, that fresh uuids differ.

  \<^bold>\<open>Not modelled.\<close> A world is used by one call at a time: row locks, fences and the interleaving of transactions
  are left out, as are the switches that tests set in the store. The Postgres store is SQL whose locking and
  isolation are outside the source; HTTP, WebSocket, Solana, compliance vendors, language models and
  rendering back ends are I/O. Voting, seeding, lifecycle, deposit, withdrawal, comment, content, video and
  operations use cases are not translated, only the rows they commit. The simulation swarm, the Python
  conversation service and the web client drive the HTTP interface from outside.
\<close>

section \<open>Solvency of a market\<close>

text \<open>
  C1. A market that trades through the pool can always be settled: start from a pool seeded with \<open>E\<close> complete
  sets, let any sequence of buys and sells run, and let the shares bought be spread over any accounts. The
  holdings of the pool and the traders are then complete against an escrow of \<open>E\<close> plus the collateral paid
  in net of fees, so \<open>settle_market\<close> succeeds for every result, and pays out the whole escrow but for a dust
  of less than one micro-dollar per holding.
\<close>

theorem market_solvent:
  assumes run: "wf_pool p" "pool_yes p = E" "pool_no p = E" "list_all wf_order ords"
      "try_fold take_order ords (session_start p) = Ok t"
    and hs: "wf_holdings hs" "list_all (\<lambda>(_, _, x). 0 \<le> x) hs" "length hs \<le> 1000000"
      "side_total Yes hs = held_yes t" "side_total No hs = held_no t"
    and esc: "escrow = E + (paid_in t - fees_paid t)" "fits_i64 escrow" and bps: "fits_u16 bps" "bps \<le> 10000"
  shows "\<exists>s. settle_market ((pool, Yes, pool_yes (session_pool t)) # (pool, No, pool_no (session_pool t)) # hs) bps escrow = Ok s \<and>
    sum_list (map snd (payouts s)) + dust s = escrow \<and> 0 \<le> dust s \<and> dust s < int (length hs) + 2"
proof -
  let ?hs = "(pool, Yes, pool_yes (session_pool t)) # (pool, No, pool_no (session_pool t)) # hs"
  have inv: "session_inv p t" using run(1,4,5) by (rule session_inv_run)
  have pool: "0 < pool_yes (session_pool t)" "0 < pool_no (session_pool t)"
    "pool_yes (session_pool t) \<le> 1000000000000000" "pool_no (session_pool t) \<le> 1000000000000000"
    using inv by (auto simp: session_inv_def wf_pool_def)
  have c: "complete_sets ?hs escrow"
    using inv pool hs(2,4,5) run(2,3) esc(1) by (auto simp: complete_sets_def session_inv_def)
  have w: "wf_holdings ?hs" using hs(1,3) pool by (auto simp: wf_holdings_def width_defs)
  have "0 \<le> escrow" using c pool side_total_nonneg[of ?hs Yes] hs(2) by (auto simp: complete_sets_def)
  then have "settle_market ?hs bps escrow = Ok (settled ?hs bps escrow)"
    using settle_market_eq[OF w bps(1) esc(2)] c bps(2) by (simp add: settle_spec_def complete_sets_def)
  moreover have "sum_list (map snd (payouts (settled ?hs bps escrow))) + dust (settled ?hs bps escrow) = escrow"
    by (simp add: settled_def)
  ultimately show ?thesis using dust_bounds[OF c, of bps] by auto
qed

theorem market_solvent_witness:
  "\<exists>s. settle_market [(9, Yes, 924), (9, No, 1083), (1, Yes, 300), (2, Yes, 63), (3, No, 204)] 6200 1287 = Ok s \<and>
     sum_list (map snd (payouts s)) + dust s = 1287 \<and> 0 \<le> dust s \<and> dust s < 5"
proof -
  let ?p = "\<lparr>pool_yes = 1000, pool_no = 1000, pool_fee = 100\<rparr>"
  let ?ords = "[BuyOrder Yes 200 100, BuyOrder No 90 100]"
  let ?t = "\<lparr>session_pool = \<lparr>pool_yes = 924, pool_no = 1083, pool_fee = 100\<rparr>,
     held_yes = 363, held_no = 204, paid_in = 290, fees_paid = 3\<rparr>"
  let ?hs = "[(1, Yes, 300), (2, Yes, 63), (3, No, 204)]"
  have "try_fold take_order ?ords (session_start ?p) = Ok ?t" by code_simp
  moreover have "wf_pool ?p" "list_all wf_order ?ords" "wf_holdings ?hs" "fits_i64 1287" "fits_u16 6200"
    by (simp_all add: wf_pool_def wf_holdings_def width_defs)
  ultimately show ?thesis
    using market_solvent[of ?p 1000 ?ords ?t ?hs 1287 6200 9] by simp
qed

end
